theory Spec2Isabelle
  imports Complex_Main "HOL-Library.AList"
begin

section \<open>JSON values and the Python operations applied to them\<close>

text \<open>
  The launcher keeps its settings, its profiles and the version manifest as the values
  that \<^verbatim>\<open>json.load\<close> returns: \<^verbatim>\<open>None\<close>, booleans, integers, floats, strings,
  lists and dictionaries with string keys. A dictionary is an association list in
  insertion order; \<^verbatim>\<open>json.load\<close> never produces two entries with one key. A float is
  the rational number it denotes (the non-finite floats are outside the model).
\<close>

datatype json =
    JNull
  | JBool bool
  | JInt int
  | JFloat rat
  | JStr string
  | JList "json list"
  | JObj "(string \<times> json) list"

datatype py_error =
    TypeError
  | AttributeError
  | KeyError
  | IndexError
  | ValueError
  | UnicodeDecodeError
  | JSONDecodeError
  | OSError

text \<open>What a call does: it returns, it raises, or it ends the process (\<^verbatim>\<open>sys.exit\<close>).\<close>

datatype 'a outcome = Returns 'a | Raises py_error | Exits int

definition and_then :: "py_error + 'a \<Rightarrow> ('a \<Rightarrow> py_error + 'b) \<Rightarrow> py_error + 'b" where
  "and_then r f = (case r of Inl e \<Rightarrow> Inl e | Inr v \<Rightarrow> f v)"

text \<open>\<^verbatim>\<open>sub in s\<close> on two strings: \<^verbatim>\<open>sub\<close> occurs in \<^verbatim>\<open>s\<close> as a contiguous run.\<close>

fun str_contains :: "string \<Rightarrow> string \<Rightarrow> bool" where
  "str_contains sub [] = (sub = [])"
| "str_contains sub (c # cs) = (take (length sub) (c # cs) = sub \<or> str_contains sub cs)"

text \<open>\<^verbatim>\<open>k in x\<close> for a string \<^verbatim>\<open>k\<close>: a key test on a dictionary, an element test on a
  list, a substring test on a string, and a \<^verbatim>\<open>TypeError\<close> on everything else.\<close>

fun py_in :: "string \<Rightarrow> json \<Rightarrow> py_error + bool" where
  "py_in k (JObj kvs) = Inr (map_of kvs k \<noteq> None)"
| "py_in k (JList xs) = Inr (JStr k \<in> set xs)"
| "py_in k (JStr s) = Inr (str_contains k s)"
| "py_in k JNull = Inl TypeError"
| "py_in k (JBool b) = Inl TypeError"
| "py_in k (JInt n) = Inl TypeError"
| "py_in k (JFloat r) = Inl TypeError"

text \<open>\<^verbatim>\<open>x[k]\<close> for a string \<^verbatim>\<open>k\<close>: only a dictionary can be subscripted by a string.\<close>

fun py_getitem :: "json \<Rightarrow> string \<Rightarrow> py_error + json" where
  "py_getitem (JObj kvs) k = (case map_of kvs k of None \<Rightarrow> Inl KeyError | Some v \<Rightarrow> Inr v)"
| "py_getitem JNull k = Inl TypeError"
| "py_getitem (JBool b) k = Inl TypeError"
| "py_getitem (JInt n) k = Inl TypeError"
| "py_getitem (JFloat r) k = Inl TypeError"
| "py_getitem (JStr s) k = Inl TypeError"
| "py_getitem (JList xs) k = Inl TypeError"

text \<open>\<^verbatim>\<open>x[k] = v\<close> for a string \<^verbatim>\<open>k\<close>: a dictionary keeps the position of a key it
  already has and appends a new one.\<close>

fun py_setitem :: "json \<Rightarrow> string \<Rightarrow> json \<Rightarrow> py_error + json" where
  "py_setitem (JObj kvs) k v = Inr (JObj (AList.update k v kvs))"
| "py_setitem JNull k v = Inl TypeError"
| "py_setitem (JBool b) k v = Inl TypeError"
| "py_setitem (JInt n) k v = Inl TypeError"
| "py_setitem (JFloat r) k v = Inl TypeError"
| "py_setitem (JStr s) k v = Inl TypeError"
| "py_setitem (JList xs) k v = Inl TypeError"

text \<open>\<^verbatim>\<open>x.get(k, d)\<close>: only dictionaries have the method.\<close>

fun py_get :: "json \<Rightarrow> string \<Rightarrow> json \<Rightarrow> py_error + json" where
  "py_get (JObj kvs) k d = Inr (case map_of kvs k of None \<Rightarrow> d | Some v \<Rightarrow> v)"
| "py_get JNull k d = Inl AttributeError"
| "py_get (JBool b) k d = Inl AttributeError"
| "py_get (JInt n) k d = Inl AttributeError"
| "py_get (JFloat r) k d = Inl AttributeError"
| "py_get (JStr s) k d = Inl AttributeError"
| "py_get (JList xs) k d = Inl AttributeError"

text \<open>The truth value of a JSON value in an \<^verbatim>\<open>if\<close>.\<close>

fun truthy :: "json \<Rightarrow> bool" where
  "truthy JNull = False"
| "truthy (JBool b) = b"
| "truthy (JInt n) = (n \<noteq> 0)"
| "truthy (JFloat r) = (r \<noteq> 0)"
| "truthy (JStr s) = (s \<noteq> [])"
| "truthy (JList xs) = (xs \<noteq> [])"
| "truthy (JObj kvs) = (kvs \<noteq> [])"

fun is_list :: "json \<Rightarrow> bool" where
  "is_list (JList xs) = True"
| "is_list v = False"

fun is_str :: "json \<Rightarrow> bool" where
  "is_str (JStr s) = True"
| "is_str v = False"

section \<open>The file system the launcher sees\<close>

text \<open>
  A path names nothing, a directory or a regular file. A regular file is represented by
  what reading it as JSON gives: the read fails (\<^verbatim>\<open>OSError\<close>), the bytes are not
  text (\<^verbatim>\<open>UnicodeDecodeError\<close>), the text is not JSON (\<^verbatim>\<open>JSONDecodeError\<close>), or
  it is the document of a JSON value. The remaining fields say what the environment
  answers: whether \<^verbatim>\<open>os.makedirs\<close> of a path succeeds, what \<^verbatim>\<open>os.path.exists\<close>
  does on an argument that is not a string (it looks up a file descriptor for an
  integer and raises for most other types, depending on the platform), how a write to
  a path ends, whether \<^verbatim>\<open>shutil.copy2\<close> to a destination succeeds, and the working
  directory at start-up.
\<close>

datatype file_content = Unreadable | Undecodable | Malformed | Json json

datatype node = Dir | File file_content

datatype write_outcome = WriteOk | OpenFails | DumpFails

record world =
  nodes :: "string \<Rightarrow> node option"
  makedirs_ok :: "string \<Rightarrow> bool"
  exists_nonpath :: "json \<Rightarrow> py_error + bool"
  write_result :: "string \<Rightarrow> write_outcome"
  copy_ok :: "string \<Rightarrow> bool"
  cwd :: string

text \<open>\<^verbatim>\<open>os.path.join\<close> of two components, as \<^verbatim>\<open>posixpath\<close> computes it.\<close>

definition path_join :: "string \<Rightarrow> string \<Rightarrow> string" where
  "path_join a b =
     (if b \<noteq> [] \<and> hd b = CHR ''/'' then b
      else if a = [] \<or> last a = CHR ''/'' then a @ b
      else a @ ''/'' @ b)"

definition SETTINGS_FILE :: string where
  "SETTINGS_FILE = ''launcher_settings.json''"

definition DEFAULT_MINECRAFT_DIR :: "world \<Rightarrow> string" where
  "DEFAULT_MINECRAFT_DIR w = path_join (cwd w) ''minecraft''"

text \<open>\<^verbatim>\<open>os.path.exists\<close> on a string: a path with an embedded NUL names nothing.\<close>

definition path_exists :: "world \<Rightarrow> string \<Rightarrow> bool" where
  "path_exists w p = (CHR 0x00 \<notin> set p \<and> nodes w p \<noteq> None)"

definition os_path_exists :: "world \<Rightarrow> json \<Rightarrow> py_error + bool" where
  "os_path_exists w v =
     (case v of JStr p \<Rightarrow> Inr (path_exists w p) | _ \<Rightarrow> exists_nonpath w v)"

text \<open>\<^verbatim>\<open>os.makedirs\<close>: a new directory, or \<^verbatim>\<open>OSError\<close>; \<^verbatim>\<open>ValueError\<close> for an
  embedded NUL and \<^verbatim>\<open>TypeError\<close> for an argument that is not a path.\<close>

definition os_makedirs :: "world \<Rightarrow> json \<Rightarrow> py_error + world" where
  "os_makedirs w v =
     (case v of
        JStr p \<Rightarrow>
          if CHR 0x00 \<in> set p then Inl ValueError
          else if p \<noteq> [] \<and> nodes w p = None \<and> makedirs_ok w p
               then Inr (w\<lparr>nodes := (nodes w)(p \<mapsto> Dir)\<rparr>)
          else Inl OSError
      | _ \<Rightarrow> Inl TypeError)"

text \<open>\<^verbatim>\<open>open(p, 'r')\<close> followed by \<^verbatim>\<open>json.load\<close>; \<^verbatim>\<open>open\<close> raises
  \<^verbatim>\<open>ValueError\<close> on a path with an embedded NUL.\<close>

definition read_json :: "world \<Rightarrow> string \<Rightarrow> py_error + json" where
  "read_json w p =
     (if CHR 0x00 \<in> set p then Inl ValueError
      else
        (case nodes w p of
           None \<Rightarrow> Inl OSError
         | Some Dir \<Rightarrow> Inl OSError
         | Some (File Unreadable) \<Rightarrow> Inl OSError
         | Some (File Undecodable) \<Rightarrow> Inl UnicodeDecodeError
         | Some (File Malformed) \<Rightarrow> Inl JSONDecodeError
         | Some (File (Json v)) \<Rightarrow> Inr v))"

section \<open>Settings: \<^verbatim>\<open>load_settings\<close> and \<^verbatim>\<open>save_settings\<close>\<close>

definition default_settings :: "world \<Rightarrow> json" where
  "default_settings w =
     JObj [(''minecraft_directory'', JStr (DEFAULT_MINECRAFT_DIR w)),
           (''profiles'', JList []),
           (''last_selected_profile'', JNull)]"

text \<open>Lines 25 to 30 of \<^verbatim>\<open>main.py\<close>: the three keys are given defaults.\<close>

definition validate_settings :: "world \<Rightarrow> json \<Rightarrow> py_error + json" where
  "validate_settings w settings =
     and_then (py_in ''minecraft_directory'' settings) (\<lambda>has_dir.
     and_then (if \<not> has_dir
               then py_setitem settings ''minecraft_directory'' (JStr (DEFAULT_MINECRAFT_DIR w))
               else Inr settings) (\<lambda>s1.
     and_then (py_in ''profiles'' s1) (\<lambda>has_profiles.
     and_then (if \<not> has_profiles then Inr True
               else and_then (py_getitem s1 ''profiles'') (\<lambda>ps. Inr (\<not> is_list ps))) (\<lambda>reset.
     and_then (if reset then py_setitem s1 ''profiles'' (JList []) else Inr s1) (\<lambda>s2.
     and_then (py_in ''last_selected_profile'' s2) (\<lambda>has_last.
     if \<not> has_last then py_setitem s2 ''last_selected_profile'' JNull else Inr s2))))))"

text \<open>Lines 51 to 57, and the same steps at lines 40 to 45: the default directory is
  created when absent, and the process exits when that fails with \<^verbatim>\<open>OSError\<close>.\<close>

definition ensure_default :: "world \<Rightarrow> json \<Rightarrow> json outcome \<times> world" where
  "ensure_default w result =
     (if \<not> path_exists w (DEFAULT_MINECRAFT_DIR w) then
        (case os_makedirs w (JStr (DEFAULT_MINECRAFT_DIR w)) of
           Inr w' \<Rightarrow> (Returns result, w')
         | Inl e \<Rightarrow> if e = OSError then (Exits 1, w) else (Raises e, w))
      else (Returns result, w))"

text \<open>Lines 33 to 46: the configured directory is created when absent; on \<^verbatim>\<open>OSError\<close>
  the settings fall back to the default directory.\<close>

definition ensure_directory :: "world \<Rightarrow> json \<Rightarrow> json outcome \<times> world" where
  "ensure_directory w settings =
     (case py_getitem settings ''minecraft_directory'' of
        Inl e \<Rightarrow> (Raises e, w)
      | Inr mc_dir \<Rightarrow>
          (case os_path_exists w mc_dir of
             Inl e \<Rightarrow> (Raises e, w)
           | Inr ex \<Rightarrow>
               if ex then (Returns settings, w)
               else
                 (case os_makedirs w mc_dir of
                    Inr w' \<Rightarrow> (Returns settings, w')
                  | Inl e \<Rightarrow>
                      if e \<noteq> OSError then (Raises e, w)
                      else
                        (case py_setitem settings ''minecraft_directory''
                                (JStr (DEFAULT_MINECRAFT_DIR w)) of
                           Inl e' \<Rightarrow> (Raises e', w)
                         | Inr s' \<Rightarrow> ensure_default w s'))))"

text \<open>The body of the \<^verbatim>\<open>try\<close>: \<^verbatim>\<open>None\<close> when the settings file does not exist and
  control falls through to line 50.\<close>

definition try_load :: "world \<Rightarrow> json outcome option \<times> world" where
  "try_load w =
     (if path_exists w SETTINGS_FILE then
        (case read_json w SETTINGS_FILE of
           Inl e \<Rightarrow> (Some (Raises e), w)
         | Inr settings \<Rightarrow>
             (case validate_settings w settings of
                Inl e \<Rightarrow> (Some (Raises e), w)
              | Inr s \<Rightarrow> (case ensure_directory w s of (out, w') \<Rightarrow> (Some out, w'))))
      else (None, w))"

text \<open>The handler at line 47 catches \<^verbatim>\<open>JSONDecodeError\<close> and \<^verbatim>\<open>OSError\<close> (of which
  \<^verbatim>\<open>FileNotFoundError\<close> is a subclass) and nothing else.\<close>

definition load_settings :: "world \<Rightarrow> json outcome \<times> world" where
  "load_settings w =
     (case try_load w of
        (None, w1) \<Rightarrow> ensure_default w1 (default_settings w1)
      | (Some (Raises e), w1) \<Rightarrow>
          if e = JSONDecodeError \<or> e = OSError then ensure_default w1 (default_settings w1)
          else (Raises e, w1)
      | (Some out, w1) \<Rightarrow> (out, w1))"

section \<open>The installation worker: \<^verbatim>\<open>InstallThread\<close>\<close>

text \<open>
  A formatted string literal is kept as its fragments: literal text, and a replacement
  field whose text is \<^verbatim>\<open>str\<close> of a value.
\<close>

datatype frag = Lit string | Fmt json

type_synonym fstring = "frag list"

text \<open>The four signals of the thread, with the arguments of an emission.\<close>

datatype signal =
    Progress_update int
  | Progress_max_update int
  | Status_update string
  | Finished_signal bool fstring

record install_thread =
  version_id :: json
  minecraft_dir :: json

definition set_status :: "install_thread \<Rightarrow> string \<Rightarrow> signal list" where
  "set_status self status = [Status_update status]"

definition set_progress :: "install_thread \<Rightarrow> int \<Rightarrow> signal list" where
  "set_progress self v = [Progress_update v]"

definition set_max :: "install_thread \<Rightarrow> int \<Rightarrow> signal list" where
  "set_max self v = [Progress_max_update v]"

text \<open>An entry of the callback dictionary is a bound method, taking a string or an
  integer; calling it yields the signals it emits.\<close>

datatype handler = On_text "string \<Rightarrow> signal list" | On_number "int \<Rightarrow> signal list"

definition callback :: "install_thread \<Rightarrow> (string \<times> handler) list" where
  "callback self =
     [(''setStatus'', On_text (set_status self)),
      (''setProgress'', On_number (set_progress self)),
      (''setMax'', On_number (set_max self))]"

text \<open>
  The library is a black box. One call of \<^verbatim>\<open>install_minecraft_version\<close> is described
  by what it does to its caller: the callbacks it looks up in the dictionary and calls,
  in order, and how the call ends: it returns, it raises an exception derived from
  \<^verbatim>\<open>Exception\<close>, or it raises one that is not (\<^verbatim>\<open>SystemExit\<close>,
  \<^verbatim>\<open>KeyboardInterrupt\<close>, \<^verbatim>\<open>GeneratorExit\<close>). An exception carries its text.
\<close>

datatype notification = Text_to string string | Number_to string int

datatype ending = Completed | Raised string | Raised_base string

record library_call =
  notifications :: "notification list"
  ending :: ending

text \<open>The library calls the entry under a key; an entry that is absent or takes the other
  kind of argument emits nothing.\<close>

fun notify :: "(string \<times> handler) list \<Rightarrow> notification \<Rightarrow> signal list" where
  "notify cb (Text_to k s) = (case map_of cb k of Some (On_text f) \<Rightarrow> f s | _ \<Rightarrow> [])"
| "notify cb (Number_to k v) = (case map_of cb k of Some (On_number f) \<Rightarrow> f v | _ \<Rightarrow> [])"

text \<open>What one execution of \<^verbatim>\<open>run\<close> leaves behind: the calls it made to the library
  (version and directory passed), the signals emitted in order, the lines printed, and
  the exception that left \<^verbatim>\<open>run\<close>, if any.\<close>

record run_trace =
  library_calls :: "(json \<times> json) list"
  emitted :: "signal list"
  printed :: "fstring list"
  escaped :: "string option"

definition run :: "install_thread \<Rightarrow> library_call \<Rightarrow> run_trace" where
  "run self lib =
     (let relayed = concat (map (notify (callback self)) (notifications lib));
          called = [(version_id self, minecraft_dir self)]
      in case ending lib of
           Completed \<Rightarrow>
             \<lparr>library_calls = called,
              emitted = relayed @
                [Finished_signal True
                   [Lit ''Version '', Fmt (version_id self), Lit '' installed successfully!'']],
              printed = [],
              escaped = None\<rparr>
         | Raised e \<Rightarrow>
             (let error_message =
                    [Lit ''Failed to install '', Fmt (version_id self), Lit '': '', Lit e]
              in \<lparr>library_calls = called,
                  emitted = relayed @ [Finished_signal False error_message],
                  printed = [error_message],
                  escaped = None\<rparr>)
         | Raised_base e \<Rightarrow>
             \<lparr>library_calls = called, emitted = relayed, printed = [], escaped = Some e\<rparr>)"

text \<open>The emissions of \<^verbatim>\<open>finished_signal\<close> among a list of signals.\<close>

fun is_finished :: "signal \<Rightarrow> bool" where
  "is_finished (Finished_signal ok msg) = True"
| "is_finished s = False"

definition finished_emissions :: "signal list \<Rightarrow> signal list" where
  "finished_emissions sigs = filter is_finished sigs"

section \<open>The offline-mode patch: \<^verbatim>\<open>configure_offline_mode\<close>\<close>

definition LOOPBACK :: string where
  "LOOPBACK = ''http://127.0.0.1:8080''"

definition SKIP_WARNING :: string where
  "SKIP_WARNING = ''--skipMultiplayerWarning''"

text \<open>The value a nested dictionary holds after \<^verbatim>\<open>x[k] = v\<close> was executed on it in
  place; only dictionaries reach this point.\<close>

fun store :: "json \<Rightarrow> string \<Rightarrow> json \<Rightarrow> json" where
  "store (JObj kvs) k v = JObj (AList.update k v kvs)"
| "store x k v = x"

text \<open>\<^verbatim>\<open>x.append(v)\<close>: only lists have the method.\<close>

fun py_append :: "json \<Rightarrow> json \<Rightarrow> py_error + json" where
  "py_append (JList xs) v = Inr (JList (xs @ [v]))"
| "py_append x v = Inl AttributeError"

text \<open>Lines 513 to 516: the one offline argument is appended unless
  \<^verbatim>\<open>arg in game_args\<close> holds.\<close>

definition append_offline_args :: "json \<Rightarrow> py_error + json" where
  "append_offline_args game_args =
     and_then (py_in SKIP_WARNING game_args) (\<lambda>present.
       if \<not> present then py_append game_args (JStr SKIP_WARNING) else Inr game_args)"

text \<open>Lines 508 to 516.\<close>

definition patch_arguments :: "json \<Rightarrow> py_error + json" where
  "patch_arguments version_data =
     and_then (py_in ''arguments'' version_data) (\<lambda>has_arguments.
       if \<not> has_arguments then Inr version_data
       else
         and_then (py_getitem version_data ''arguments'') (\<lambda>arguments.
         and_then (py_in ''game'' arguments) (\<lambda>has_game.
           if \<not> has_game then Inr version_data
           else
             and_then (py_getitem arguments ''game'') (\<lambda>game_args.
             and_then (append_offline_args game_args) (\<lambda>game_args'.
               Inr (store version_data ''arguments''
                      (store arguments ''game'' game_args')))))))"

text \<open>The test of line 524 on one value, and the value the entry holds afterwards.\<close>

fun names_auth_server :: "json \<Rightarrow> bool" where
  "names_auth_server (JStr s) = (str_contains ''mojang'' s \<or> str_contains ''minecraft'' s)"
| "names_auth_server v = False"

definition redirect :: "json \<Rightarrow> json" where
  "redirect v = (if names_auth_server v then JStr LOOPBACK else v)"

text \<open>An element of a list used as its index: integers and booleans index a list,
  negative indices count from the end, and an index out of range raises.\<close>

fun list_index :: "json \<Rightarrow> int option" where
  "list_index (JInt n) = Some n"
| "list_index (JBool b) = Some (if b then 1 else 0)"
| "list_index v = None"

definition py_list_pos :: "nat \<Rightarrow> json \<Rightarrow> py_error + nat" where
  "py_list_pos n key =
     (case list_index key of
        None \<Rightarrow> Inl TypeError
      | Some i \<Rightarrow>
          (let j = (if i < 0 then i + int n else i)
           in if 0 \<le> j \<and> j < int n then Inr (nat j) else Inl IndexError))"

text \<open>Lines 523 to 525 when \<^verbatim>\<open>net_servers\<close> is a list: the loop variable is the element
  at position \<^verbatim>\<open>i\<close> of the list as it is then, and is used as an index.\<close>

definition redirect_list_step :: "nat \<Rightarrow> json list \<Rightarrow> py_error + json list" where
  "redirect_list_step i xs =
     and_then (py_list_pos (length xs) (xs ! i)) (\<lambda>j. Inr (xs[j := redirect (xs ! j)]))"

fun redirect_list_from :: "nat list \<Rightarrow> json list \<Rightarrow> py_error + json list" where
  "redirect_list_from [] xs = Inr xs"
| "redirect_list_from (i # rest) xs =
     and_then (redirect_list_step i xs) (redirect_list_from rest)"

text \<open>Lines 523 to 525: a dictionary has each of its entries tested and replaced (its keys
  do not change during the loop); a list is indexed by its own elements; a string that
  is not empty raises at its first character, and nothing else can be iterated. An
  empty string never reaches the loop.\<close>

fun redirect_servers :: "json \<Rightarrow> py_error + json" where
  "redirect_servers (JObj kvs) = Inr (JObj (map (\<lambda>(k, v). (k, redirect v)) kvs))"
| "redirect_servers (JList xs) =
     and_then (redirect_list_from [0..<length xs] xs) (\<lambda>ys. Inr (JList ys))"
| "redirect_servers (JStr s) = (if s = [] then Inr (JStr s) else Inl TypeError)"
| "redirect_servers JNull = Inl TypeError"
| "redirect_servers (JBool b) = Inl TypeError"
| "redirect_servers (JInt n) = Inl TypeError"
| "redirect_servers (JFloat r) = Inl TypeError"

text \<open>Lines 520 to 525.\<close>

definition patch_servers :: "json \<Rightarrow> py_error + json" where
  "patch_servers version_data =
     and_then (py_get version_data ''net'' (JObj [])) (\<lambda>net.
     and_then (py_get net ''server'' (JObj [])) (\<lambda>server.
       if truthy server then
         and_then (redirect_servers server) (\<lambda>net_servers.
           Inr (store version_data ''net'' (store net ''server'' net_servers)))
       else Inr version_data))"

text \<open>Lines 528 to 530.\<close>

definition patch_authentication :: "json \<Rightarrow> py_error + json" where
  "patch_authentication version_data =
     and_then (py_in ''authenticationService'' version_data) (\<lambda>has_service.
       if \<not> has_service then Inr version_data
       else
         and_then (py_getitem version_data ''authenticationService'') (\<lambda>service.
         and_then (py_in ''baseUrl'' service) (\<lambda>has_url.
           if \<not> has_url then Inr version_data
           else
             and_then (py_setitem service ''baseUrl'' (JStr LOOPBACK)) (\<lambda>service'.
               Inr (store version_data ''authenticationService'' service')))))"

text \<open>Lines 532 and 533.\<close>

definition patch_services :: "json \<Rightarrow> py_error + json" where
  "patch_services version_data =
     and_then (py_in ''servicesBaseUrl'' version_data) (\<lambda>has_url.
       if \<not> has_url then Inr version_data
       else py_setitem version_data ''servicesBaseUrl'' (JStr LOOPBACK))"

text \<open>Lines 508 to 533: what is done to the loaded document before it is written back.\<close>

definition patch_version_data :: "json \<Rightarrow> py_error + json" where
  "patch_version_data version_data =
     and_then (patch_arguments version_data) (\<lambda>v1.
     and_then (patch_servers v1) (\<lambda>v2.
     and_then (patch_authentication v2) patch_services))"

text \<open>\<^verbatim>\<open>os.path.join\<close> raises \<^verbatim>\<open>TypeError\<close> on a component that is not a string.\<close>

definition version_json_path :: "json \<Rightarrow> json \<Rightarrow> py_error + string" where
  "version_json_path mc_dir vid =
     (case (mc_dir, vid) of
        (JStr d, JStr v) \<Rightarrow>
          Inr (path_join (path_join (path_join d ''versions'') v) (v @ ''.json''))
      | _ \<Rightarrow> Inl TypeError)"

text \<open>\<^verbatim>\<open>shutil.copy2\<close> of a regular file that can be read.\<close>

definition copy2 :: "world \<Rightarrow> string \<Rightarrow> string \<Rightarrow> py_error + world" where
  "copy2 w src dst =
     (case nodes w src of
        Some (File c) \<Rightarrow>
          if c \<noteq> Unreadable \<and> copy_ok w dst then Inr (w\<lparr>nodes := (nodes w)(dst \<mapsto> File c)\<rparr>)
          else Inl OSError
      | _ \<Rightarrow> Inl OSError)"

text \<open>\<^verbatim>\<open>open(p, 'w')\<close> followed by \<^verbatim>\<open>json.dump\<close>: the file holds the document; or the
  file cannot be opened and stays as it is; or it is opened, which truncates it, and
  the dump fails, which leaves text that is not JSON.\<close>

definition write_json :: "world \<Rightarrow> string \<Rightarrow> json \<Rightarrow> py_error + world" where
  "write_json w p v =
     (case write_result w p of
        WriteOk \<Rightarrow> Inr (w\<lparr>nodes := (nodes w)(p \<mapsto> File (Json v))\<rparr>)
      | OpenFails \<Rightarrow> Inl OSError
      | DumpFails \<Rightarrow> Inl OSError)"

definition after_failed_write :: "world \<Rightarrow> string \<Rightarrow> world" where
  "after_failed_write w p =
     (case write_result w p of
        DumpFails \<Rightarrow> w\<lparr>nodes := (nodes w)(p \<mapsto> File Malformed)\<rparr>
      | _ \<Rightarrow> w)"

text \<open>Lines 497 to 501: the manifest is copied to the backup path unless a backup
  exists or there is no manifest.\<close>

definition backup_manifest :: "world \<Rightarrow> string \<Rightarrow> py_error + world" where
  "backup_manifest w path =
     (if \<not> path_exists w (path @ ''.backup'') \<and> path_exists w path
      then copy2 w path (path @ ''.backup'') else Inr w)"

text \<open>Lines 504 to 539: the manifest is read, patched in memory and written back.\<close>

definition rewrite_manifest :: "world \<Rightarrow> string \<Rightarrow> bool \<times> world" where
  "rewrite_manifest w path =
     (case read_json w path of
        Inl e \<Rightarrow> (False, w)
      | Inr version_data \<Rightarrow>
          (case patch_version_data version_data of
             Inl e \<Rightarrow> (False, w)
           | Inr patched \<Rightarrow>
               (case write_json w path patched of
                  Inl e \<Rightarrow> (False, after_failed_write w path)
                | Inr w' \<Rightarrow> (True, w'))))"

text \<open>
  \<^verbatim>\<open>configure_offline_mode\<close>, for the window's directory and a version identifier: the
  result and the file system afterwards. Every exception is caught by the handler at
  line 540, which returns \<^verbatim>\<open>False\<close>; the messages shown are left out.
\<close>

definition configure_offline_mode :: "json \<Rightarrow> json \<Rightarrow> world \<Rightarrow> bool \<times> world" where
  "configure_offline_mode mc_dir vid w =
     (case version_json_path mc_dir vid of
        Inl e \<Rightarrow> (False, w)
      | Inr path \<Rightarrow>
          (case backup_manifest w path of
             Inl e \<Rightarrow> (False, w)
           | Inr w1 \<Rightarrow> rewrite_manifest w1 path))"

section \<open>The offline-mode patch as the specification words it\<close>

text \<open>
  The specification's four sentences, each as a function on the manifest: every string
  value under \<^verbatim>\<open>net.server\<close> that contains \<^verbatim>\<open>mojang\<close> or \<^verbatim>\<open>minecraft\<close> becomes the
  loopback URL; \<^verbatim>\<open>authenticationService.baseUrl\<close> and \<^verbatim>\<open>servicesBaseUrl\<close>, when
  present, become the loopback URL; \<^verbatim>\<open>--skipMultiplayerWarning\<close> is appended to
  \<^verbatim>\<open>arguments.game\<close> when not already present; nothing else changes.
\<close>

definition member2 :: "json \<Rightarrow> string \<Rightarrow> string \<Rightarrow> json option" where
  "member2 v a b =
     (case v of
        JObj kvs \<Rightarrow>
          (case map_of kvs a of
             Some (JObj inner) \<Rightarrow> map_of inner b
           | _ \<Rightarrow> None)
      | _ \<Rightarrow> None)"

definition with_member2 :: "json \<Rightarrow> string \<Rightarrow> string \<Rightarrow> json \<Rightarrow> json" where
  "with_member2 v a b x =
     (case v of
        JObj kvs \<Rightarrow>
          (case map_of kvs a of
             Some (JObj inner) \<Rightarrow> JObj (AList.update a (JObj (AList.update b x inner)) kvs)
           | _ \<Rightarrow> v)
      | _ \<Rightarrow> v)"

definition spec_game_args :: "json \<Rightarrow> json" where
  "spec_game_args v =
     (case member2 v ''arguments'' ''game'' of
        Some (JList gs) \<Rightarrow>
          if JStr SKIP_WARNING \<in> set gs then v
          else with_member2 v ''arguments'' ''game'' (JList (gs @ [JStr SKIP_WARNING]))
      | _ \<Rightarrow> v)"

definition spec_servers :: "json \<Rightarrow> json" where
  "spec_servers v =
     (case member2 v ''net'' ''server'' of
        Some (JObj kvs) \<Rightarrow>
          with_member2 v ''net'' ''server'' (JObj (map (\<lambda>(k, x). (k, redirect x)) kvs))
      | Some (JList xs) \<Rightarrow> with_member2 v ''net'' ''server'' (JList (map redirect xs))
      | _ \<Rightarrow> v)"

definition spec_authentication :: "json \<Rightarrow> json" where
  "spec_authentication v =
     (case member2 v ''authenticationService'' ''baseUrl'' of
        Some x \<Rightarrow> with_member2 v ''authenticationService'' ''baseUrl'' (JStr LOOPBACK)
      | None \<Rightarrow> v)"

definition spec_services :: "json \<Rightarrow> json" where
  "spec_services v =
     (case v of
        JObj kvs \<Rightarrow>
          (case map_of kvs ''servicesBaseUrl'' of
             Some x \<Rightarrow> JObj (AList.update ''servicesBaseUrl'' (JStr LOOPBACK) kvs)
           | None \<Rightarrow> v)
      | _ \<Rightarrow> v)"

definition spec_offline_patch :: "json \<Rightarrow> json" where
  "spec_offline_patch v =
     spec_services (spec_authentication (spec_servers (spec_game_args v)))"

section \<open>The patch, one top-level key at a time\<close>

text \<open>
  Each of the four steps of the patch reads one key of the manifest and changes the
  value under that key only. These functions state that: what a step does to the value
  under its key, and how a function on one key acts on a dictionary. They serve the
  proofs; the steps themselves are the definitions above.
\<close>

definition at_key :: "string \<Rightarrow> (json \<Rightarrow> py_error + json) \<Rightarrow> (string \<times> json) list \<Rightarrow> py_error + json" where
  "at_key K T kvs =
     (case map_of kvs K of
        None \<Rightarrow> Inr (JObj kvs)
      | Some a \<Rightarrow> and_then (T a) (\<lambda>a'. Inr (JObj (AList.update K a' kvs))))"

definition arguments_value :: "json \<Rightarrow> py_error + json" where
  "arguments_value arguments =
     and_then (py_in ''game'' arguments) (\<lambda>has_game.
       if \<not> has_game then Inr arguments
       else
         and_then (py_getitem arguments ''game'') (\<lambda>game_args.
         and_then (append_offline_args game_args) (\<lambda>game_args'.
           Inr (store arguments ''game'' game_args'))))"

definition net_value :: "json \<Rightarrow> py_error + json" where
  "net_value net =
     and_then (py_get net ''server'' (JObj [])) (\<lambda>server.
       if truthy server then
         and_then (redirect_servers server) (\<lambda>net_servers.
           Inr (store net ''server'' net_servers))
       else Inr net)"

definition service_value :: "json \<Rightarrow> py_error + json" where
  "service_value service =
     and_then (py_in ''baseUrl'' service) (\<lambda>has_url.
       if \<not> has_url then Inr service else py_setitem service ''baseUrl'' (JStr LOOPBACK))"

definition services_url_value :: "json \<Rightarrow> py_error + json" where
  "services_url_value x = Inr (JStr LOOPBACK)"

text \<open>A function on values that, where it succeeds, returns a value it leaves alone.\<close>

definition settles :: "(json \<Rightarrow> py_error + json) \<Rightarrow> bool" where
  "settles T = (\<forall>a a'. T a = Inr a' \<longrightarrow> T a' = Inr a')"

section \<open>More of Python: equality, \<^verbatim>\<open>str.lower\<close>, \<^verbatim>\<open>str.strip\<close>, comprehensions\<close>

text \<open>\<^verbatim>\<open>x == y\<close> on JSON values: numbers and booleans compare by value, lists element by
  element, dictionaries by their sets of entries whatever the order.\<close>

fun number_of :: "json \<Rightarrow> rat option" where
  "number_of (JInt n) = Some (of_int n)"
| "number_of (JBool b) = Some (if b then 1 else 0)"
| "number_of (JFloat r) = Some r"
| "number_of v = None"

fun py_eq :: "json \<Rightarrow> json \<Rightarrow> bool" where
  "py_eq (JStr s) y = (y = JStr s)"
| "py_eq JNull y = (y = JNull)"
| "py_eq (JList xs) y = (case y of JList ys \<Rightarrow> list_all2 py_eq xs ys | _ \<Rightarrow> False)"
| "py_eq (JObj kvs) y =
     (case y of
        JObj kvs' \<Rightarrow>
          length kvs = length kvs' \<and>
          list_all (\<lambda>kv. case map_of kvs' (fst kv) of
                            None \<Rightarrow> False
                          | Some v' \<Rightarrow> py_eq (snd kv) v') kvs
      | _ \<Rightarrow> False)"
| "py_eq x y = (number_of x \<noteq> None \<and> number_of x = number_of y)"

text \<open>\<^verbatim>\<open>str.lower\<close> and \<^verbatim>\<open>str.strip\<close> on ASCII text: the letters A to Z are lowered, and
  the characters Python counts as white space are stripped from both ends.\<close>

definition lower_char :: "char \<Rightarrow> char" where
  "lower_char c =
     (let n = (of_char c :: nat) in if 65 \<le> n \<and> n \<le> 90 then char_of (n + 32) else c)"

definition py_lower :: "string \<Rightarrow> string" where
  "py_lower s = map lower_char s"

definition is_space :: "char \<Rightarrow> bool" where
  "is_space c = ((of_char c :: nat) \<in> {9, 10, 11, 12, 13, 28, 29, 30, 31, 32})"

definition py_strip :: "string \<Rightarrow> string" where
  "py_strip s = rev (dropWhile is_space (rev (dropWhile is_space s)))"

text \<open>A list comprehension whose body may raise: the first exception ends it.\<close>

fun collect :: "('a \<Rightarrow> py_error + 'b) \<Rightarrow> 'a list \<Rightarrow> py_error + 'b list" where
  "collect f [] = Inr []"
| "collect f (x # xs) = and_then (f x) (\<lambda>y. and_then (collect f xs) (\<lambda>ys. Inr (y # ys)))"

text \<open>The position of the first element that passes a test, as a loop with \<^verbatim>\<open>break\<close>
  finds it.\<close>

fun first_index :: "('a \<Rightarrow> bool) \<Rightarrow> 'a list \<Rightarrow> nat option" where
  "first_index P [] = None"
| "first_index P (x # xs) = (if P x then Some 0 else map_option Suc (first_index P xs))"

text \<open>\<^verbatim>\<open>list.remove(x)\<close>: the first element equal to \<^verbatim>\<open>x\<close> goes; \<^verbatim>\<open>ValueError\<close> when
  there is none.\<close>

definition py_remove :: "json list \<Rightarrow> json \<Rightarrow> py_error + json list" where
  "py_remove xs x =
     (case first_index (\<lambda>item. py_eq item x) xs of
        None \<Rightarrow> Inl ValueError
      | Some j \<Rightarrow> Inr (take j xs @ drop (Suc j) xs))"

section \<open>The spin box of Qt\<close>

text \<open>
  \<^verbatim>\<open>QSpinBox\<close> is not code of the launcher. As Qt documents it, a spin box starts with
  the range 0 to 99 and the value 0, \<^verbatim>\<open>setRange\<close> and \<^verbatim>\<open>setValue\<close> force the value into
  the range, and what the user enters is treated like a call of \<^verbatim>\<open>setValue\<close>.
\<close>

record spinbox =
  minimum :: int
  maximum :: int
  spin_value :: int

definition QSpinBox :: spinbox where
  "QSpinBox = \<lparr>minimum = 0, maximum = 99, spin_value = 0\<rparr>"

definition bounded :: "int \<Rightarrow> int \<Rightarrow> int \<Rightarrow> int" where
  "bounded lo hi v = max lo (min hi v)"

definition setRange :: "int \<Rightarrow> int \<Rightarrow> spinbox \<Rightarrow> spinbox" where
  "setRange lo hi sb =
     \<lparr>minimum = lo, maximum = max lo hi, spin_value = bounded lo (max lo hi) (spin_value sb)\<rparr>"

definition setValue :: "int \<Rightarrow> spinbox \<Rightarrow> spinbox" where
  "setValue v sb = sb\<lparr>spin_value := bounded (minimum sb) (maximum sb) v\<rparr>"

section \<open>The profile dialog\<close>

text \<open>
  What the user did in a \<^verbatim>\<open>ProfileDialog\<close> before it closed: the texts left in the two
  line edits, the version chosen in the combo box (none when its index is -1), the
  values entered into the memory spin box in order, and whether the dialog was left
  with Save or with Cancel.
\<close>

record dialog_input =
  entered_name :: string
  chosen_version :: "string option"
  entered_username :: string
  entered_memory :: "int list"
  save_pressed :: bool

text \<open>Lines 149 and 150, line 167 when a profile is edited, and the user's entries.\<close>

definition memory_spinbox :: "int option \<Rightarrow> int list \<Rightarrow> spinbox" where
  "memory_spinbox existing entries =
     foldl (\<lambda>sb v. setValue v sb) (setRange 1 16 QSpinBox)
       ((case existing of None \<Rightarrow> [] | Some m \<Rightarrow> [m]) @ entries)"

text \<open>\<^verbatim>\<open>get_profile_data\<close>: no data when the name or the version is empty.\<close>

definition get_profile_data :: "int option \<Rightarrow> dialog_input \<Rightarrow> json option" where
  "get_profile_data existing d =
     (let name = py_strip (entered_name d);
          version = chosen_version d;
          username = (if py_strip (entered_username d) = [] then ''Player''
                      else py_strip (entered_username d));
          memory = spin_value (memory_spinbox existing (entered_memory d))
      in if name = [] then None
         else (case version of
                 None \<Rightarrow> None
               | Some v \<Rightarrow>
                   if v = [] then None
                   else Some (JObj [(''name'', JStr name), (''version_id'', JStr v),
                                    (''username'', JStr username), (''memory_gb'', JInt memory)])))"

text \<open>\<^verbatim>\<open>dialog.exec()\<close>: \<^verbatim>\<open>accept\<close> closes the dialog only on valid data, so the dialog
  is accepted exactly when Save was pressed on valid data.\<close>

definition accepted :: "int option \<Rightarrow> dialog_input \<Rightarrow> bool" where
  "accepted existing d = (save_pressed d \<and> get_profile_data existing d \<noteq> None)"

text \<open>Lines 163 to 167: the fields are filled from the profile being edited. The texts
  must be strings and the memory an integer, or the setter raises \<^verbatim>\<open>TypeError\<close>; the
  result is the memory value passed to the spin box.\<close>

fun int_argument :: "json \<Rightarrow> py_error + int" where
  "int_argument (JInt n) = Inr n"
| "int_argument (JBool b) = Inr (if b then 1 else 0)"
| "int_argument v = Inl TypeError"

fun str_argument :: "json \<Rightarrow> py_error + string" where
  "str_argument (JStr s) = Inr s"
| "str_argument v = Inl TypeError"

definition populate :: "json \<Rightarrow> py_error + int" where
  "populate existing_profile =
     and_then (py_get existing_profile ''name'' (JStr [])) (\<lambda>name.
     and_then (str_argument name) (\<lambda>name_text.
     and_then (py_get existing_profile ''username'' (JStr ''Player'')) (\<lambda>username.
     and_then (str_argument username) (\<lambda>username_text.
     and_then (py_get existing_profile ''memory_gb'' (JInt 2)) int_argument))))"

section \<open>The main window\<close>

text \<open>
  The fields of \<^verbatim>\<open>MainWindow\<close> that the profile operations, the persistence and the
  installation guard read and write. \<^verbatim>\<open>self.profiles\<close> is the very list object stored
  under \<^verbatim>\<open>'profiles'\<close> in \<^verbatim>\<open>self.settings\<close> (line 229; \<^verbatim>\<open>load_settings\<close> always leaves
  a list there), so the list is kept once, in \<^verbatim>\<open>profiles\<close>, and \<^verbatim>\<open>python_settings\<close>
  is the dictionary as Python sees it. \<^verbatim>\<open>self.current_selected_profile\<close> refers to one
  of the dictionaries in that list, or is \<^verbatim>\<open>None\<close>: it is kept as the position of that
  dictionary. The combo box is its list of item texts and its current index. A worker
  is an \<^verbatim>\<open>InstallThread\<close> object with what \<^verbatim>\<open>isRunning()\<close> answers;
  \<^verbatim>\<open>self.install_thread\<close> refers to one of them, or is \<^verbatim>\<open>None\<close>. The message boxes
  shown and the finished signals emitted but not yet delivered are kept as lists. Of
  the other widgets, the line edit of the user name is its text and the memory spin box
  its range and value; \<^verbatim>\<open>fields_connected\<close> tells whether the connections of lines 422
  and 423 have been made. A message box or a dialog is taken to return without another
  event of the window being handled while it is open.
\<close>

datatype box = Warning_box | Critical_box | Information_box | Question_box

record worker =
  thread :: install_thread
  is_running :: bool

record window =
  settings :: json
  window_dir :: json
  profiles :: "json list"
  last_selected_profile_name :: json
  current_selected_profile :: "nat option"
  combo_items :: "string list"
  combo_index :: "nat option"
  username_input :: string
  window_spinbox :: spinbox
  fields_connected :: bool
  install_thread_ref :: "nat option"
  workers :: "worker list"
  queued :: "(bool \<times> fstring) list"
  shown :: "(box \<times> string \<times> fstring) list"
  close_accepted :: bool
  files :: world

definition python_settings :: "window \<Rightarrow> json" where
  "python_settings s = store (settings s) ''profiles'' (JList (profiles s))"

text \<open>The dictionary \<^verbatim>\<open>self.current_selected_profile\<close> refers to, with its position.\<close>

definition selected :: "window \<Rightarrow> (nat \<times> json) option" where
  "selected s =
     (case current_selected_profile s of
        None \<Rightarrow> None
      | Some i \<Rightarrow> if i < length (profiles s) then Some (i, profiles s ! i) else None)"

text \<open>\<^verbatim>\<open>save_settings\<close>: the settings as they are after the check of line 63, and the file
  system after the write; \<^verbatim>\<open>OSError\<close> is caught, anything else leaves the function.\<close>

definition save_settings :: "json \<Rightarrow> world \<Rightarrow> py_error + (json \<times> world)" where
  "save_settings st w =
     and_then (py_in ''profiles'' st) (\<lambda>has_profiles.
     and_then (if \<not> has_profiles then Inr True
               else and_then (py_getitem st ''profiles'') (\<lambda>ps. Inr (\<not> is_list ps))) (\<lambda>reset.
     and_then (if reset then py_setitem st ''profiles'' (JList []) else Inr st) (\<lambda>st'.
       (case write_json w SETTINGS_FILE st' of
          Inr w' \<Rightarrow> Inr (st', w')
        | Inl e \<Rightarrow> Inr (st', after_failed_write w SETTINGS_FILE)))))"

text \<open>\<^verbatim>\<open>update_profile_field\<close>: the field of the selected profile is set, and the settings
  are saved.\<close>

definition update_profile_field :: "string \<Rightarrow> json \<Rightarrow> window \<Rightarrow> py_error + window" where
  "update_profile_field field v s =
     (case selected s of
        None \<Rightarrow> Inr s
      | Some (i, profile) \<Rightarrow>
          if \<not> truthy profile then Inr s
          else
            and_then (py_setitem profile field v) (\<lambda>profile'.
              (let s1 = s\<lparr>profiles := (profiles s)[i := profile']\<rparr>
               in and_then (save_settings (python_settings s1) (files s1)) (\<lambda>(st, w).
                    Inr (s1\<lparr>settings := st, files := w\<rparr>)))))"

text \<open>
  \<^verbatim>\<open>self.username_input.setText\<close> and \<^verbatim>\<open>self.memory_spinbox.setValue\<close>. Qt emits
  \<^verbatim>\<open>textChanged\<close> and \<^verbatim>\<open>valueChanged\<close> when what the widget holds changes, whether the
  user or the program changed it; once the connections of lines 422 and 423 are made,
  \<^verbatim>\<open>update_profile_field\<close> runs inside the call. An exception of the slot is given as
  the outcome of the call.
\<close>

definition username_input_setText :: "string \<Rightarrow> window \<Rightarrow> py_error + window" where
  "username_input_setText entry s =
     (let s1 = s\<lparr>username_input := entry\<rparr>
      in if entry \<noteq> username_input s \<and> fields_connected s
         then update_profile_field ''username'' (JStr entry) s1
         else Inr s1)"

definition memory_spinbox_setValue :: "int \<Rightarrow> window \<Rightarrow> py_error + window" where
  "memory_spinbox_setValue entry s =
     (let sb = setValue entry (window_spinbox s);
          s1 = s\<lparr>window_spinbox := sb\<rparr>
      in if spin_value sb \<noteq> spin_value (window_spinbox s) \<and> fields_connected s
         then update_profile_field ''memory_gb'' (JInt (spin_value sb)) s1
         else Inr s1)"

text \<open>The loops of lines 337 and 379: the position of the first profile whose
  \<^verbatim>\<open>get('name')\<close> equals a value; the profiles after it are not looked at.\<close>

fun find_named :: "json \<Rightarrow> json list \<Rightarrow> py_error + nat option" where
  "find_named name [] = Inr None"
| "find_named name (p # ps) =
     and_then (py_get p ''name'' JNull) (\<lambda>n.
       if py_eq n name then Inr (Some 0)
       else and_then (find_named name ps) (\<lambda>r. Inr (map_option Suc r)))"

text \<open>\<^verbatim>\<open>self.profile_combo.currentText()\<close>: empty when there is no current item.\<close>

definition currentText :: "window \<Rightarrow> string" where
  "currentText s =
     (case combo_index s of
        None \<Rightarrow> []
      | Some i \<Rightarrow> if i < length (combo_items s) then combo_items s ! i else [])"

text \<open>
  \<^verbatim>\<open>on_profile_selected\<close>. For the index -1 nothing is selected and the two fields are
  reset. Otherwise the first profile named as the current text of the combo box is
  looked for; when there is one it becomes the selected profile, the two fields are
  set from it, the connections are made, and the path of its version manifest is
  built (lines 426 to 436), which raises \<^verbatim>\<open>TypeError\<close> on a version that is not a string.
\<close>

definition on_profile_selected :: "nat option \<Rightarrow> window \<Rightarrow> py_error + window" where
  "on_profile_selected index s =
     (case index of
        None \<Rightarrow>
          and_then (username_input_setText [] (s\<lparr>current_selected_profile := None\<rparr>))
            (memory_spinbox_setValue 2)
      | Some i \<Rightarrow>
          and_then (find_named (JStr (currentText s)) (profiles s)) (\<lambda>found.
            case found of
              None \<Rightarrow> Inr (s\<lparr>current_selected_profile := None\<rparr>)
            | Some k \<Rightarrow>
                and_then (py_get (profiles s ! k) ''username'' (JStr ''Player'')) (\<lambda>username.
                and_then (str_argument username) (\<lambda>entry.
                and_then (username_input_setText entry
                            (s\<lparr>current_selected_profile := Some k\<rparr>)) (\<lambda>s1.
                and_then (py_get (profiles s1 ! k) ''memory_gb'' (JInt 2)) (\<lambda>memory.
                and_then (int_argument memory) (\<lambda>gb.
                and_then (memory_spinbox_setValue gb s1) (\<lambda>s2.
                and_then (py_get (profiles s2 ! k) ''version_id'' JNull) (\<lambda>vid.
                  if \<not> truthy vid then Inr (s2\<lparr>fields_connected := True\<rparr>)
                  else
                    and_then (version_json_path (window_dir s2) vid) (\<lambda>path.
                      Inr (s2\<lparr>fields_connected := True\<rparr>)))))))))))"

text \<open>\<^verbatim>\<open>addItem\<close> takes a string.\<close>

definition item_text :: "json \<Rightarrow> py_error + string" where
  "item_text p = and_then (py_get p ''name'' (JStr ''Unknown'')) str_argument"

text \<open>Lines 331 to 341: the index the combo box is set to.\<close>

definition index_to_select :: "window \<Rightarrow> py_error + nat" where
  "index_to_select s =
     (if truthy (last_selected_profile_name s) then
        and_then (find_named (last_selected_profile_name s) (profiles s)) (\<lambda>found.
          Inr (case found of None \<Rightarrow> 0 | Some i \<Rightarrow> i))
      else Inr 0)"

definition update_profile_list :: "window \<Rightarrow> py_error + window" where
  "update_profile_list s =
     and_then (collect item_text (profiles s)) (\<lambda>items.
       if profiles s \<noteq> [] then
         and_then (index_to_select s) (\<lambda>i.
           on_profile_selected (Some i) (s\<lparr>combo_items := items, combo_index := Some i\<rparr>))
       else on_profile_selected None (s\<lparr>combo_items := items, combo_index := None\<rparr>))"

text \<open>\<^verbatim>\<open>p.get('name', '').lower()\<close>: only strings have \<^verbatim>\<open>lower\<close>.\<close>

definition lowered_name :: "json \<Rightarrow> py_error + string" where
  "lowered_name p =
     and_then (py_get p ''name'' (JStr [])) (\<lambda>n.
       case n of JStr name \<Rightarrow> Inr (py_lower name) | _ \<Rightarrow> Inl AttributeError)"

text \<open>The name in the data a dialog returns.\<close>

definition data_name :: "json \<Rightarrow> string" where
  "data_name d = (case py_getitem d ''name'' of Inr (JStr name) \<Rightarrow> name | _ \<Rightarrow> [])"

definition add_profile :: "dialog_input \<Rightarrow> window \<Rightarrow> py_error + window" where
  "add_profile d s =
     (if accepted None d then
        (case get_profile_data None d of
           None \<Rightarrow> Inr s
         | Some new_data \<Rightarrow>
             and_then (collect lowered_name (profiles s)) (\<lambda>existing_names.
               if py_lower (data_name new_data) \<in> set existing_names then
                 Inr (s\<lparr>shown := shown s @
                       [(Warning_box, ''Error'',
                         [Lit ''A profile named '', Fmt (JStr (data_name new_data)),
                          Lit '' already exists.''])]\<rparr>)
               else
                 update_profile_list
                   (s\<lparr>profiles := profiles s @ [new_data],
                      last_selected_profile_name := JStr (data_name new_data)\<rparr>)))
      else Inr s)"

text \<open>The profiles other than the one at a position: \<^verbatim>\<open>p is not profile_to_edit\<close>.\<close>

definition others :: "nat \<Rightarrow> 'a list \<Rightarrow> 'a list" where
  "others i xs = take i xs @ drop (Suc i) xs"

definition edit_profile :: "dialog_input \<Rightarrow> window \<Rightarrow> py_error + window" where
  "edit_profile d s =
     (case selected s of
        None \<Rightarrow> Inr s
      | Some (i, profile_to_edit) \<Rightarrow>
          if \<not> truthy profile_to_edit then Inr s
          else
            and_then (py_get profile_to_edit ''name'' JNull) (\<lambda>profile_original_name.
            and_then (populate profile_to_edit) (\<lambda>memory.
              if accepted (Some memory) d then
                (case get_profile_data (Some memory) d of
                   None \<Rightarrow> Inr s
                 | Some updated_data \<Rightarrow>
                     and_then (case profile_original_name of
                                 JStr name \<Rightarrow> Inr (py_lower name)
                               | _ \<Rightarrow> Inl AttributeError) (\<lambda>original_lower.
                     and_then (if py_lower (data_name updated_data) \<noteq> original_lower
                               then and_then (collect lowered_name (others i (profiles s)))
                                      (\<lambda>existing_names.
                                         Inr (py_lower (data_name updated_data) \<in> set existing_names))
                               else Inr False) (\<lambda>collides.
                       if collides then
                         Inr (s\<lparr>shown := shown s @
                               [(Warning_box, ''Error'',
                                 [Lit ''Another profile named '',
                                  Fmt (JStr (data_name updated_data)),
                                  Lit '' already exists.''])]\<rparr>)
                       else
                         update_profile_list
                           (s\<lparr>profiles := (profiles s)[i := updated_data],
                              last_selected_profile_name := JStr (data_name updated_data)\<rparr>))))
              else Inr s)))"

text \<open>\<^verbatim>\<open>delete_profile\<close>, with the answer to the question box.\<close>

definition delete_profile :: "bool \<Rightarrow> window \<Rightarrow> py_error + window" where
  "delete_profile yes s =
     (case selected s of
        None \<Rightarrow> Inr s
      | Some (i, profile) \<Rightarrow>
          if \<not> truthy profile then Inr s
          else
            and_then (py_get profile ''name'' JNull) (\<lambda>profile_name.
              (let asked = s\<lparr>shown := shown s @
                     [(Question_box, ''Delete Profile'',
                       [Lit ''Are you sure you want to delete the profile '',
                        Fmt profile_name, Lit ''?''])]\<rparr>
               in if yes then
                    and_then (py_remove (profiles s) profile) (\<lambda>remaining.
                    and_then (update_profile_list
                                (asked\<lparr>profiles := remaining,
                                       current_selected_profile := None,
                                       last_selected_profile_name := JNull\<rparr>)) (\<lambda>s'.
                      on_profile_selected (combo_index s') s'))
                  else Inr asked)))"

text \<open>What the user does to the two fields and to the combo box: a new text in the
  line edit, a new value in the spin box, another item chosen
  (\<^verbatim>\<open>currentIndexChanged\<close>, line 282).\<close>

definition username_edited :: "string \<Rightarrow> window \<Rightarrow> py_error + window" where
  "username_edited entry s = username_input_setText entry s"

definition memory_edited :: "int \<Rightarrow> window \<Rightarrow> py_error + window" where
  "memory_edited entry s = memory_spinbox_setValue entry s"

definition profile_chosen :: "nat \<Rightarrow> window \<Rightarrow> py_error + window" where
  "profile_chosen i s =
     (if i < length (combo_items s) \<and> combo_index s \<noteq> Some i
      then on_profile_selected (Some i) (s\<lparr>combo_index := Some i\<rparr>)
      else Inr s)"

text \<open>\<^verbatim>\<open>closeEvent\<close>.\<close>

definition closeEvent :: "window \<Rightarrow> py_error + window" where
  "closeEvent s =
     and_then (case selected s of
                 None \<Rightarrow> Inr JNull
               | Some (i, profile) \<Rightarrow>
                   if truthy profile then py_get profile ''name'' JNull else Inr JNull) (\<lambda>last.
     and_then (py_setitem (python_settings s) ''last_selected_profile'' last) (\<lambda>st1.
     and_then (py_setitem st1 ''profiles'' (JList (profiles s))) (\<lambda>st2.
     and_then (save_settings st2 (files s)) (\<lambda>(st, w).
       Inr (s\<lparr>settings := st, files := w, close_accepted := True\<rparr>)))))"

section \<open>The installation guard\<close>

text \<open>\<^verbatim>\<open>on_install_finished\<close>: the reference to the thread is reset and the message is
  shown.\<close>

definition on_install_finished :: "bool \<Rightarrow> fstring \<Rightarrow> window \<Rightarrow> window" where
  "on_install_finished success message s =
     s\<lparr>install_thread_ref := None,
       shown := shown s @
         [if success then (Information_box, ''Installation Complete'', message)
          else (Critical_box, ''Installation Failed'', message)]\<rparr>"

text \<open>The finished signals that wait in the event queue are delivered, oldest first.\<close>

fun deliver_all :: "(bool \<times> fstring) list \<Rightarrow> window \<Rightarrow> window" where
  "deliver_all [] s = s"
| "deliver_all ((success, message) # rest) s = deliver_all rest (on_install_finished success message s)"

definition deliver_queued :: "window \<Rightarrow> window" where
  "deliver_queued s = deliver_all (queued s) (s\<lparr>queued := []\<rparr>)"

text \<open>\<^verbatim>\<open>self.install_thread and self.install_thread.isRunning()\<close>.\<close>

definition busy :: "window \<Rightarrow> bool" where
  "busy s =
     (case install_thread_ref s of
        None \<Rightarrow> False
      | Some t \<Rightarrow> t < length (workers s) \<and> is_running (workers s ! t))"

text \<open>
  \<^verbatim>\<open>start_installation_for_profile\<close>. The call of \<^verbatim>\<open>QApplication.processEvents()\<close> at
  line 652 delivers the finished signals that wait, and handles the user events that
  wait: these are the second argument, what the window does with them.
\<close>

definition start_installation_for_profile ::
    "json \<Rightarrow> (window \<Rightarrow> py_error + window) \<Rightarrow> window \<Rightarrow> py_error + window" where
  "start_installation_for_profile profile process_events s =
     (if busy s then
        Inr (s\<lparr>shown := shown s @
              [(Warning_box, ''Busy'', [Lit ''Another installation is already in progress.''])]\<rparr>)
      else
        and_then (py_get profile ''version_id'' JNull) (\<lambda>vid.
        and_then (py_get profile ''name'' (JStr ''Unknown'')) (\<lambda>profile_name.
          if \<not> truthy vid then
            Inr (s\<lparr>shown := shown s @
                  [(Critical_box, ''Error'',
                    [Lit ''Profile '', Fmt profile_name, Lit '' has no version selected!''])]\<rparr>)
          else
            and_then (process_events (deliver_queued s)) (\<lambda>s1.
              Inr (s1\<lparr>workers := workers s1 @
                        [\<lparr>thread = \<lparr>version_id = vid, minecraft_dir = window_dir s1\<rparr>,
                          is_running = True\<rparr>],
                      install_thread_ref := Some (length (workers s1))\<rparr>)))))"

text \<open>A worker that runs comes to the end of \<^verbatim>\<open>run\<close>: the finished signals it has emitted
  wait in the queue of the window's thread, and the worker no longer runs.\<close>

fun finished_arguments :: "signal list \<Rightarrow> (bool \<times> fstring) list" where
  "finished_arguments [] = []"
| "finished_arguments (Finished_signal ok msg # rest) = (ok, msg) # finished_arguments rest"
| "finished_arguments (other # rest) = finished_arguments rest"

definition worker_finishes :: "nat \<Rightarrow> library_call \<Rightarrow> window \<Rightarrow> window" where
  "worker_finishes t lib s =
     (if t < length (workers s) \<and> is_running (workers s ! t) then
        s\<lparr>workers := (workers s)[t := (workers s ! t)\<lparr>is_running := False\<rparr>],
          queued := queued s @ finished_arguments (emitted (run (thread (workers s ! t)) lib))\<rparr>
      else s)"

section \<open>The window from start to close\<close>

text \<open>Lines 226 to 235 and 317 of \<^verbatim>\<open>__init__\<close>. \<^verbatim>\<open>load_settings\<close> returns a dictionary with
  a list under \<^verbatim>\<open>'profiles'\<close>; the other case is not reached.\<close>

definition new_window :: "json \<Rightarrow> world \<Rightarrow> window" where
  "new_window st w =
     \<lparr>settings = st,
      window_dir = (case py_get st ''minecraft_directory'' (JStr (DEFAULT_MINECRAFT_DIR w)) of
                      Inr d \<Rightarrow> d | Inl e \<Rightarrow> JNull),
      profiles = (case py_get st ''profiles'' (JList []) of Inr (JList ps) \<Rightarrow> ps | _ \<Rightarrow> []),
      last_selected_profile_name =
        (case py_get st ''last_selected_profile'' JNull of Inr n \<Rightarrow> n | Inl e \<Rightarrow> JNull),
      current_selected_profile = None,
      combo_items = [],
      combo_index = None,
      username_input = [],
      window_spinbox = setRange 1 16 QSpinBox,
      fields_connected = False,
      install_thread_ref = None,
      workers = [],
      queued = [],
      shown = [],
      close_accepted = False,
      files = w\<rparr>"

definition MainWindow :: "world \<Rightarrow> window outcome" where
  "MainWindow w =
     (case load_settings w of
        (Returns st, w') \<Rightarrow>
          (case update_profile_list (new_window st w') of
             Inr s \<Rightarrow> Returns s
           | Inl e \<Rightarrow> Raises e)
      | (Raises e, w') \<Rightarrow> Raises e
      | (Exits n, w') \<Rightarrow> Exits n)"

text \<open>
  What happens to a window: the user adds, edits or deletes a profile, chooses another
  profile in the combo box, edits one of the two fields, asks for an installation or
  closes the window; a worker ends; a finished signal is delivered. An installation
  request is a call of \<^verbatim>\<open>start_installation_for_profile\<close> with the selected profile, as
  \<^verbatim>\<open>start_launch\<close> (line 562) and \<^verbatim>\<open>fix_version_for_offline\<close> (line 765) make it; it
  carries the events handled inside its call of \<^verbatim>\<open>processEvents\<close>. The button of
  \<^verbatim>\<open>fix_version_for_offline\<close> is not among the widgets disabled before that call
  (lines 639 to 644).
\<close>

datatype event =
    Add dialog_input
  | Edit dialog_input
  | Delete bool
  | Select nat
  | Username string
  | Memory int
  | Close
  | Install "event list"
  | Worker_ends nat library_call
  | Deliver

fun step :: "event \<Rightarrow> window \<Rightarrow> py_error + window"
  and steps :: "event list \<Rightarrow> window \<Rightarrow> py_error + window" where
  "step (Add d) s = add_profile d s"
| "step (Edit d) s = edit_profile d s"
| "step (Delete yes) s = delete_profile yes s"
| "step (Select i) s = profile_chosen i s"
| "step (Username entry) s = username_edited entry s"
| "step (Memory entry) s = memory_edited entry s"
| "step Close s = closeEvent s"
| "step (Install nested) s =
     (case selected s of
        None \<Rightarrow> Inr s
      | Some (i, profile) \<Rightarrow>
          if truthy profile
          then start_installation_for_profile profile (\<lambda>s'. steps nested s') s
          else Inr s)"
| "step (Worker_ends t lib) s = Inr (worker_finishes t lib s)"
| "step Deliver s = Inr (deliver_queued s)"
| "steps [] s = Inr s"
| "steps (e # es) s = and_then (step e s) (\<lambda>s'. steps es s')"

text \<open>The workers that run.\<close>

definition running :: "window \<Rightarrow> nat" where
  "running s = length (filter is_running (workers s))"

text \<open>Whether an installation is asked for inside the \<^verbatim>\<open>processEvents\<close> call of another
  request.\<close>

fun asks_install :: "event \<Rightarrow> bool" where
  "asks_install (Install nested) = True"
| "asks_install e = False"

fun flat :: "event \<Rightarrow> bool" where
  "flat (Install nested) = (\<forall>e \<in> set nested. \<not> asks_install e \<and> flat e)"
| "flat e = True"

section \<open>Predicates used in the statements\<close>

text \<open>A path without an embedded NUL character.\<close>

definition plain_path :: "string \<Rightarrow> bool" where
  "plain_path p = (CHR 0x00 \<notin> set p)"

text \<open>A JSON object whose \<^verbatim>\<open>minecraft_directory\<close>, when present, is such a path.\<close>

definition object_with_path :: "json \<Rightarrow> bool" where
  "object_with_path v =
     (case v of
        JObj kvs \<Rightarrow>
          (case map_of kvs ''minecraft_directory'' of
             None \<Rightarrow> True
           | Some d \<Rightarrow> (case d of JStr p \<Rightarrow> plain_path p | _ \<Rightarrow> False))
      | _ \<Rightarrow> False)"

text \<open>The settings files on which \<^verbatim>\<open>load_settings\<close> raises no exception: the file is
  missing, is a directory, cannot be opened, holds text that is not a JSON document
  (\<^verbatim>\<open>json.JSONDecodeError\<close>), or holds such an object; and the default directory is a
  path without NUL. A file whose bytes do not decode as text is not among them:
  \<^verbatim>\<open>json.load\<close> raises \<^verbatim>\<open>UnicodeDecodeError\<close> on it, which is not caught.\<close>

definition settings_file_covered :: "world \<Rightarrow> bool" where
  "settings_file_covered w =
     (plain_path (DEFAULT_MINECRAFT_DIR w) \<and>
      (case nodes w SETTINGS_FILE of
         None \<Rightarrow> True
       | Some Dir \<Rightarrow> True
       | Some (File c) \<Rightarrow>
           (case c of Unreadable \<Rightarrow> True | Undecodable \<Rightarrow> False | Malformed \<Rightarrow> True
            | Json v \<Rightarrow> object_with_path v)))"

text \<open>No two profiles have names that are equal up to lower case: every profile is a
  dictionary whose name, when present, is a string, and the lowered names (the empty
  string for a profile without name) are pairwise different.\<close>

definition unique_names :: "json list \<Rightarrow> bool" where
  "unique_names ps =
     (case collect lowered_name ps of Inr names \<Rightarrow> distinct names | Inl e \<Rightarrow> False)"

text \<open>Every profile has an integer from 1 to 16 under \<^verbatim>\<open>memory_gb\<close>.\<close>

definition memory_in_range :: "json \<Rightarrow> bool" where
  "memory_in_range p =
     (case py_getitem p ''memory_gb'' of
        Inr v \<Rightarrow> (case v of JInt n \<Rightarrow> 1 \<le> n \<and> n \<le> 16 | _ \<Rightarrow> False)
      | Inl e \<Rightarrow> False)"

definition memory_bounded :: "json list \<Rightarrow> bool" where
  "memory_bounded ps = list_all memory_in_range ps"

text \<open>A spin box has the range of line 254, and its value lies in it.\<close>

definition ranged :: "spinbox \<Rightarrow> bool" where
  "ranged sb =
     (minimum sb = 1 \<and> maximum sb = 16 \<and> 1 \<le> spin_value sb \<and> spin_value sb \<le> 16)"

text \<open>
  What a selection does to a window, step by step: the selected profile, the two
  fields, the connections and the combo box are set, and the slot of a field that has
  changed writes the field's value to the selected profile.
\<close>

inductive refresh :: "window \<Rightarrow> window \<Rightarrow> bool" where
  same: "refresh s s"
| selection: "refresh s s1 \<Longrightarrow> refresh s (s1\<lparr>current_selected_profile := c\<rparr>)"
| line_edit: "refresh s s1 \<Longrightarrow> refresh s (s1\<lparr>username_input := entry\<rparr>)"
| spin: "refresh s s1 \<Longrightarrow> refresh s (s1\<lparr>window_spinbox := setValue v (window_spinbox s1)\<rparr>)"
| connection: "refresh s s1 \<Longrightarrow> refresh s (s1\<lparr>fields_connected := b\<rparr>)"
| combo: "refresh s s1 \<Longrightarrow> refresh s (s1\<lparr>combo_items := items, combo_index := i\<rparr>)"
| username: "refresh s s1 \<Longrightarrow> update_profile_field ''username'' (JStr entry) s1 = Inr s'
             \<Longrightarrow> refresh s s'"
| memory: "refresh s s1
           \<Longrightarrow> update_profile_field ''memory_gb'' (JInt (spin_value (window_spinbox s1))) s1
                 = Inr s'
           \<Longrightarrow> refresh s s'"

section \<open>Concrete environments\<close>

text \<open>An empty file system in which every directory can be created and every write
  succeeds, the same with a settings file holding a given JSON document, and one in
  which no directory can be created.\<close>

definition example_world :: world where
  "example_world =
     \<lparr>nodes = Map.empty, makedirs_ok = (\<lambda>p. True), exists_nonpath = (\<lambda>v. Inl TypeError),
      write_result = (\<lambda>p. WriteOk), copy_ok = (\<lambda>p. True), cwd = ''/home/user''\<rparr>"

definition world_with_settings :: "json \<Rightarrow> world" where
  "world_with_settings v = example_world\<lparr>nodes := [SETTINGS_FILE \<mapsto> File (Json v)]\<rparr>"

definition locked_world :: world where
  "locked_world = example_world\<lparr>makedirs_ok := (\<lambda>p. False)\<rparr>"

text \<open>A version manifest with every part the patch looks at, and a file system that holds
  it as the manifest of version 1.20.1 under the directory \<^verbatim>\<open>/mc\<close>.\<close>

definition example_manifest :: json where
  "example_manifest =
     JObj [(''id'', JStr ''1.20.1''),
           (''arguments'', JObj [(''game'', JList [JStr ''--username''])]),
           (''net'', JObj [(''server'',
              JObj [(''auth'', JStr ''https://authserver.mojang.com''),
                    (''docs'', JStr ''https://example.org'')])]),
           (''authenticationService'', JObj [(''baseUrl'', JStr ''https://auth.example.org'')]),
           (''servicesBaseUrl'', JStr ''https://api.minecraftservices.com'')]"

definition patched_manifest :: json where
  "patched_manifest =
     JObj [(''id'', JStr ''1.20.1''),
           (''arguments'',
              JObj [(''game'', JList [JStr ''--username'', JStr ''--skipMultiplayerWarning''])]),
           (''net'', JObj [(''server'',
              JObj [(''auth'', JStr ''http://127.0.0.1:8080''),
                    (''docs'', JStr ''https://example.org'')])]),
           (''authenticationService'', JObj [(''baseUrl'', JStr ''http://127.0.0.1:8080'')]),
           (''servicesBaseUrl'', JStr ''http://127.0.0.1:8080'')]"

definition manifest_path :: string where
  "manifest_path = ''/mc/versions/1.20.1/1.20.1.json''"

definition world_with_manifest :: "json \<Rightarrow> world" where
  "world_with_manifest v = example_world\<lparr>nodes := [manifest_path \<mapsto> File (Json v)]\<rparr>"

text \<open>Profiles, settings files, dialog entries and a window for the examples.\<close>

definition profile_alpha :: json where
  "profile_alpha =
     JObj [(''name'', JStr ''Alpha''), (''version_id'', JStr ''1.20.1''),
           (''username'', JStr ''Steve''), (''memory_gb'', JInt 4)]"

definition profile_alpha_lower :: json where
  "profile_alpha_lower =
     JObj [(''name'', JStr ''alpha''), (''version_id'', JStr ''1.20.1''),
           (''username'', JStr ''Alex''), (''memory_gb'', JInt 2)]"

definition profile_greedy :: json where
  "profile_greedy =
     JObj [(''name'', JStr ''Greedy''), (''version_id'', JStr ''1.20.1''),
           (''username'', JStr ''Steve''), (''memory_gb'', JInt 64)]"

definition profile_beta :: json where
  "profile_beta =
     JObj [(''name'', JStr ''Beta''), (''version_id'', JStr ''1.20.1''),
           (''username'', JStr ''Player''), (''memory_gb'', JInt 16)]"

definition settings_with :: "json list \<Rightarrow> json" where
  "settings_with ps =
     JObj [(''minecraft_directory'', JStr ''/games/mc''), (''profiles'', JList ps),
           (''last_selected_profile'', JNull)]"

definition dialog_beta :: dialog_input where
  "dialog_beta =
     \<lparr>entered_name = '' Beta '', chosen_version = Some ''1.20.1'', entered_username = [],
      entered_memory = [64], save_pressed = True\<rparr>"

definition dialog_ALPHA :: dialog_input where
  "dialog_ALPHA =
     \<lparr>entered_name = ''ALPHA'', chosen_version = Some ''1.20.1'', entered_username = ''Steve'',
      entered_memory = [8], save_pressed = True\<rparr>"

definition window_with :: "json list \<Rightarrow> nat option \<Rightarrow> window" where
  "window_with ps cur =
     \<lparr>settings = settings_with ps,
      window_dir = JStr ''/games/mc'',
      profiles = ps,
      last_selected_profile_name = JNull,
      current_selected_profile = cur,
      combo_items = [],
      combo_index = cur,
      username_input = [],
      window_spinbox = setRange 1 16 QSpinBox,
      fields_connected = True,
      install_thread_ref = None,
      workers = [],
      queued = [],
      shown = [],
      close_accepted = False,
      files = example_world\<rparr>"

text \<open>The value a call returns, if it returns.\<close>

definition returned :: "'a outcome \<Rightarrow> 'a option" where
  "returned out = (case out of Returns x \<Rightarrow> Some x | _ \<Rightarrow> None)"

section \<open>Properties of \<^verbatim>\<open>load_settings\<close>\<close>

lemmas settings_defs =
  load_settings_def try_load_def ensure_directory_def ensure_default_def validate_settings_def
  read_json_def os_makedirs_def os_path_exists_def path_exists_def default_settings_def
  DEFAULT_MINECRAFT_DIR_def path_join_def SETTINGS_FILE_def and_then_def

lemmas example_defs = example_world_def world_with_settings_def locked_world_def

lemma settings_file_plain: "CHR 0x00 \<notin> set SETTINGS_FILE"
  by (simp add: SETTINGS_FILE_def)

lemma is_list_iff: "is_list v \<longleftrightarrow> (\<exists>xs. v = JList xs)"
  by (cases v) auto

lemma is_str_iff: "is_str v \<longleftrightarrow> (\<exists>s. v = JStr s)"
  by (cases v) auto

lemma getitem_setitem: "py_setitem x k v = Inr s \<Longrightarrow> py_getitem s k = Inr v"
  by (cases x) (auto simp: update_conv')

text \<open>On a JSON object the validation never raises: it keeps a directory entry that is
  there, and leaves all three keys present, with a list under \<^verbatim>\<open>profiles\<close>.\<close>

lemma validate_settings_JObj:
  "\<exists>kvs'. validate_settings w (JObj kvs) = Inr (JObj kvs')
     \<and> map_of kvs' ''minecraft_directory'' =
         Some (case map_of kvs ''minecraft_directory'' of
                 None \<Rightarrow> JStr (DEFAULT_MINECRAFT_DIR w) | Some v \<Rightarrow> v)
     \<and> (\<exists>ps. map_of kvs' ''profiles'' = Some (JList ps))
     \<and> map_of kvs' ''last_selected_profile'' \<noteq> None"
  by (auto simp: validate_settings_def and_then_def update_conv' is_list_iff split: option.splits)

lemma ensure_default_Returns:
  assumes "ensure_default w r = (Returns s, w')"
  shows "s = r \<and> path_exists w' (DEFAULT_MINECRAFT_DIR w) \<and> cwd w' = cwd w
     \<and> (\<not> path_exists w (DEFAULT_MINECRAFT_DIR w) \<longrightarrow> nodes w' (DEFAULT_MINECRAFT_DIR w) = Some Dir)"
  using assms
  by (auto simp: ensure_default_def os_makedirs_def path_exists_def split: if_splits sum.splits)

lemma ensure_default_Raises: "ensure_default w r = (Raises e, w') \<Longrightarrow> w' = w"
  by (auto simp: ensure_default_def split: if_splits sum.splits)

lemma ensure_default_Exits:
  "ensure_default w r = (Exits n, w') \<Longrightarrow>
     n = 1 \<and> w' = w \<and> \<not> path_exists w (DEFAULT_MINECRAFT_DIR w)
     \<and> os_makedirs w (JStr (DEFAULT_MINECRAFT_DIR w)) = Inl OSError"
  by (auto simp: ensure_default_def split: if_splits sum.splits)

lemma ensure_default_total:
  "plain_path (DEFAULT_MINECRAFT_DIR w) \<Longrightarrow> fst (ensure_default w r) \<noteq> Raises e"
  by (auto simp: ensure_default_def os_makedirs_def plain_path_def split: if_splits sum.splits)

lemma ensure_directory_Raises: "ensure_directory w x = (Raises e, w') \<Longrightarrow> w' = w"
  by (auto simp: ensure_directory_def split: if_splits sum.splits dest: ensure_default_Raises)

lemma ensure_directory_Exits:
  "ensure_directory w x = (Exits n, w') \<Longrightarrow>
     n = 1 \<and> w' = w \<and> \<not> path_exists w (DEFAULT_MINECRAFT_DIR w)
     \<and> os_makedirs w (JStr (DEFAULT_MINECRAFT_DIR w)) = Inl OSError"
  by (auto simp: ensure_directory_def split: if_splits sum.splits dest: ensure_default_Exits)

lemma ensure_directory_Returns:
  assumes "ensure_directory w x = (Returns s, w')"
    and "py_getitem s ''minecraft_directory'' = Inr (JStr p)"
  shows "path_exists w' p \<and> (\<not> path_exists w p \<longrightarrow> nodes w' p = Some Dir)"
proof (cases "py_getitem x ''minecraft_directory''")
  case (Inl e)
  with assms show ?thesis by (simp add: ensure_directory_def)
next
  case (Inr mc_dir)
  show ?thesis
  proof (cases "os_path_exists w mc_dir")
    case (Inl e)
    with Inr assms show ?thesis by (simp add: ensure_directory_def)
  next
    case ex: (Inr ex)
    show ?thesis
    proof (cases ex)
      case True
      with Inr ex assms have "s = x" "w' = w" by (simp_all add: ensure_directory_def)
      with Inr assms(2) have "mc_dir = JStr p" by simp
      with ex True \<open>w' = w\<close> show ?thesis by (simp add: os_path_exists_def)
    next
      case False
      show ?thesis
      proof (cases "os_makedirs w mc_dir")
        case mk: (Inr w1)
        with Inr ex False assms have "s = x" "w' = w1" by (simp_all add: ensure_directory_def)
        with Inr assms(2) have "mc_dir = JStr p" by simp
        with mk \<open>w' = w1\<close> show ?thesis
          by (auto simp: os_makedirs_def path_exists_def split: if_splits)
      next
        case mk: (Inl e)
        with Inr ex False assms obtain s1 where
          s1: "py_setitem x ''minecraft_directory'' (JStr (DEFAULT_MINECRAFT_DIR w)) = Inr s1"
          and d: "ensure_default w s1 = (Returns s, w')"
          by (auto simp: ensure_directory_def split: if_splits sum.splits)
        from ensure_default_Returns [OF d] getitem_setitem [OF s1] assms(2)
        show ?thesis by auto
      qed
    qed
  qed
qed

lemma ensure_directory_total:
  assumes "plain_path (DEFAULT_MINECRAFT_DIR w)"
    and "map_of kvs ''minecraft_directory'' = Some (JStr d)" and "plain_path d"
  shows "fst (ensure_directory w (JObj kvs)) \<noteq> Raises e"
  using assms ensure_default_total [OF assms(1)]
  by (auto simp: ensure_directory_def os_path_exists_def os_makedirs_def plain_path_def
      split: if_splits sum.splits)

lemma ensure_directory_choice:
  assumes "ensure_directory w (JObj kvs) = (Returns s, w')"
    and "map_of kvs ''minecraft_directory'' = Some (JStr d)"
  shows "py_getitem s ''minecraft_directory'' =
           Inr (JStr (if path_exists w d \<or> (\<exists>w1. os_makedirs w (JStr d) = Inr w1)
                      then d else DEFAULT_MINECRAFT_DIR w))"
  using assms
  by (auto simp: ensure_directory_def os_path_exists_def update_conv'
      split: if_splits sum.splits dest!: ensure_default_Returns)

lemma try_load_Exits:
  "try_load w = (Some (Exits n), w') \<Longrightarrow>
     n = 1 \<and> w' = w \<and> \<not> path_exists w (DEFAULT_MINECRAFT_DIR w)
     \<and> os_makedirs w (JStr (DEFAULT_MINECRAFT_DIR w)) = Inl OSError"
  by (auto simp: try_load_def split: if_splits sum.splits prod.splits dest: ensure_directory_Exits)

lemma try_load_unchanged:
  "try_load w = (r, w') \<Longrightarrow> r = None \<or> (\<exists>e. r = Some (Raises e)) \<Longrightarrow> w' = w"
  by (auto simp: try_load_def split: if_splits sum.splits prod.splits dest: ensure_directory_Raises)

text \<open>When \<^verbatim>\<open>load_settings\<close> returns, a string under \<^verbatim>\<open>minecraft_directory\<close> names
  a path that exists, and that path is a directory when it did not exist before.\<close>

lemma load_settings_Returns:
  assumes "load_settings w = (Returns s, w')"
    and "py_getitem s ''minecraft_directory'' = Inr (JStr p)"
  shows "path_exists w' p \<and> (\<not> path_exists w p \<longrightarrow> nodes w' p = Some Dir)"
proof -
  have dflt: "path_exists w' p \<and> (\<not> path_exists w p \<longrightarrow> nodes w' p = Some Dir)"
    if "ensure_default w (default_settings w) = (Returns s, w')"
    using ensure_default_Returns [OF that] assms(2) by (auto simp: default_settings_def)
  show ?thesis
  proof (cases "try_load w")
    case (Pair r w1)
    have w1: "r = None \<or> (\<exists>e. r = Some (Raises e)) \<Longrightarrow> w1 = w"
      using Pair by (rule try_load_unchanged)
    show ?thesis
    proof (cases r)
      case None
      with Pair assms(1) w1 have "ensure_default w (default_settings w) = (Returns s, w')"
        by (simp add: load_settings_def)
      then show ?thesis by (rule dflt)
    next
      case (Some out)
      show ?thesis
      proof (cases out)
        case (Returns s0)
        with Some Pair assms(1) have eq: "s0 = s" "w1 = w'" by (simp_all add: load_settings_def)
        with Returns Some Pair obtain x where "ensure_directory w x = (Returns s, w')"
          by (auto simp: try_load_def split: if_splits sum.splits prod.splits)
        from ensure_directory_Returns [OF this assms(2)] show ?thesis .
      next
        case (Raises e)
        with Some Pair assms(1) w1 have "ensure_default w (default_settings w) = (Returns s, w')"
          by (auto simp: load_settings_def split: if_splits)
        then show ?thesis by (rule dflt)
      next
        case (Exits n)
        with Some Pair assms(1) show ?thesis by (simp add: load_settings_def)
      qed
    qed
  qed
qed

text \<open>The process exits only with status 1, and only when the default directory is absent
  and cannot be created.\<close>

lemma load_settings_Exits:
  assumes "load_settings w = (Exits n, w')"
  shows "n = 1 \<and> w' = w \<and> \<not> path_exists w (DEFAULT_MINECRAFT_DIR w)
     \<and> os_makedirs w (JStr (DEFAULT_MINECRAFT_DIR w)) = Inl OSError"
proof (cases "try_load w")
  case (Pair r w1)
  show ?thesis
  proof (cases "r = None \<or> (\<exists>e. r = Some (Raises e))")
    case True
    with Pair have "w1 = w" by (rule try_load_unchanged)
    with True Pair assms have "ensure_default w (default_settings w) = (Exits n, w')"
      by (auto simp: load_settings_def split: if_splits)
    then show ?thesis by (rule ensure_default_Exits)
  next
    case False
    with Pair assms have "try_load w = (Some (Exits n), w')"
      by (cases r; cases "the r") (auto simp: load_settings_def)
    then show ?thesis by (rule try_load_Exits)
  qed
qed

text \<open>No exception leaves \<^verbatim>\<open>load_settings\<close> when the settings file is missing, cannot
  be opened, holds text that is not a JSON document, or holds a JSON object with a
  string for the directory. On a file whose bytes do not decode as text it raises
  \<^verbatim>\<open>UnicodeDecodeError\<close>, which the handler of line 47 does not catch.\<close>

lemma load_settings_raises_on_undecodable:
  assumes "nodes w SETTINGS_FILE = Some (File Undecodable)"
  shows "load_settings w = (Raises UnicodeDecodeError, w)"
  using assms by (simp add: settings_defs settings_file_plain)

lemma load_settings_total:
  assumes "settings_file_covered w"
  shows "fst (load_settings w) \<noteq> Raises e"
proof -
  from assms have pd: "plain_path (DEFAULT_MINECRAFT_DIR w)"
    by (simp add: settings_file_covered_def)
  note dflt = ensure_default_total [OF pd]
  show ?thesis
  proof (cases "path_exists w SETTINGS_FILE")
    case False
    then show ?thesis using dflt by (simp add: load_settings_def try_load_def)
  next
    case True
    show ?thesis
    proof (cases "read_json w SETTINGS_FILE")
      case (Inl e')
      with assms have "e' = OSError \<or> e' = JSONDecodeError"
        by (auto simp: read_json_def settings_file_covered_def settings_file_plain
            split: option.splits node.splits file_content.splits)
      with True Inl show ?thesis using dflt
        by (auto simp: load_settings_def try_load_def)
    next
      case (Inr v)
      with assms have "object_with_path v"
        by (auto simp: read_json_def settings_file_covered_def settings_file_plain
            split: option.splits node.splits file_content.splits)
      then obtain kvs where v: "v = JObj kvs"
        and dir: "case map_of kvs ''minecraft_directory'' of None \<Rightarrow> True
                   | Some d \<Rightarrow> (case d of JStr p \<Rightarrow> plain_path p | _ \<Rightarrow> False)"
        by (cases v) (auto simp: object_with_path_def)
      from validate_settings_JObj [of w kvs] obtain kvs' where
        val: "validate_settings w (JObj kvs) = Inr (JObj kvs')"
        and d: "map_of kvs' ''minecraft_directory'' =
                 Some (case map_of kvs ''minecraft_directory'' of
                         None \<Rightarrow> JStr (DEFAULT_MINECRAFT_DIR w) | Some v \<Rightarrow> v)"
        by blast
      from d dir pd obtain p where
        "map_of kvs' ''minecraft_directory'' = Some (JStr p)" "plain_path p"
        by (auto split: option.splits json.splits)
      from ensure_directory_total [OF pd this]
      have "\<And>e'. fst (ensure_directory w (JObj kvs')) \<noteq> Raises e'" .
      with True Inr v val show ?thesis
        by (cases "ensure_directory w (JObj kvs')"; cases "fst (ensure_directory w (JObj kvs'))")
           (auto simp: load_settings_def try_load_def)
    qed
  qed
qed

text \<open>The configured directory is kept when it exists or can be created; otherwise the
  settings name the default directory.\<close>

lemma load_settings_choice:
  assumes "nodes w SETTINGS_FILE = Some (File (Json (JObj kvs)))"
    and "map_of kvs ''minecraft_directory'' = Some (JStr d)"
    and "load_settings w = (Returns s, w')"
  shows "py_getitem s ''minecraft_directory'' =
           Inr (JStr (if path_exists w d \<or> (\<exists>w1. os_makedirs w (JStr d) = Inr w1)
                      then d else DEFAULT_MINECRAFT_DIR w))"
proof -
  from validate_settings_JObj [of w kvs] assms(2) obtain kvs' where
    val: "validate_settings w (JObj kvs) = Inr (JObj kvs')"
    and d: "map_of kvs' ''minecraft_directory'' = Some (JStr d)"
    by auto
  have ex: "path_exists w SETTINGS_FILE"
    using assms(1) by (simp add: path_exists_def SETTINGS_FILE_def)
  have rd: "read_json w SETTINGS_FILE = Inr (JObj kvs)"
    using assms(1) by (simp add: read_json_def settings_file_plain)
  obtain out w1 where ed: "ensure_directory w (JObj kvs') = (out, w1)"
    by (cases "ensure_directory w (JObj kvs')")
  have tl: "try_load w = (Some out, w1)"
    using ex rd val ed by (simp add: try_load_def)
  have nr: "out \<noteq> Raises OSError" "out \<noteq> Raises JSONDecodeError"
    using ed d by (auto simp: ensure_directory_def os_path_exists_def os_makedirs_def ensure_default_def
        split: if_splits sum.splits)
  from tl nr assms(3) have "out = Returns s \<and> w1 = w'"
    by (cases out) (auto simp: load_settings_def split: if_splits)
  with ed have "ensure_directory w (JObj kvs') = (Returns s, w')" by simp
  from ensure_directory_choice [OF this d] show ?thesis .
qed

text \<open>
  What \<^verbatim>\<open>load_settings\<close> does guarantee. Whenever it returns settings whose
  \<^verbatim>\<open>minecraft_directory\<close> is a string, that string names a path that exists at return
  time, and a path that did not exist before the call is a directory afterwards: it was
  created. For a JSON object with a string directory, the configured directory is
  returned when it exists or can be created, and the default directory otherwise. The
  process exits only when the default directory is absent and its creation fails with
  \<^verbatim>\<open>OSError\<close>. No exception is raised on the settings files of
  \<^verbatim>\<open>settings_file_covered\<close>; among the files left out of it are a file of bytes that do
  not decode and a JSON document that is not an object, on which an exception is raised
  (\<^verbatim>\<open>load_settings_raises_on_undecodable\<close>, \<^verbatim>\<open>load_settings_raises_on_list\<close>).
\<close>

lemma load_settings_path_exists:
  "(\<forall>s w' p. load_settings w = (Returns s, w')
        \<and> py_getitem s ''minecraft_directory'' = Inr (JStr p)
      \<longrightarrow> path_exists w' p \<and> (\<not> path_exists w p \<longrightarrow> nodes w' p = Some Dir))
   \<and> (\<forall>kvs d s w'. nodes w SETTINGS_FILE = Some (File (Json (JObj kvs)))
        \<and> map_of kvs ''minecraft_directory'' = Some (JStr d)
        \<and> load_settings w = (Returns s, w')
      \<longrightarrow> py_getitem s ''minecraft_directory'' =
            Inr (JStr (if path_exists w d \<or> (\<exists>w1. os_makedirs w (JStr d) = Inr w1)
                       then d else DEFAULT_MINECRAFT_DIR w)))
   \<and> (\<forall>n w'. load_settings w = (Exits n, w')
      \<longrightarrow> n = 1 \<and> \<not> path_exists w (DEFAULT_MINECRAFT_DIR w)
          \<and> os_makedirs w (JStr (DEFAULT_MINECRAFT_DIR w)) = Inl OSError)
   \<and> (settings_file_covered w \<longrightarrow> (\<forall>e. fst (load_settings w) \<noteq> Raises e))"
  using load_settings_Returns [of w] load_settings_choice [of w] load_settings_Exits [of w]
    load_settings_total [of w]
  by blast

lemma load_settings_path_exists_example:
  "load_settings (world_with_settings (JObj [(''minecraft_directory'', JStr ''/games/mc'')]))
     = (Returns (JObj [(''minecraft_directory'', JStr ''/games/mc''),
                       (''profiles'', JList []), (''last_selected_profile'', JNull)]),
        (world_with_settings (JObj [(''minecraft_directory'', JStr ''/games/mc'')]))
          \<lparr>nodes := [SETTINGS_FILE \<mapsto> File (Json (JObj [(''minecraft_directory'', JStr ''/games/mc'')])),
                     ''/games/mc'' \<mapsto> Dir]\<rparr>)
   \<and> path_exists
        ((world_with_settings (JObj [(''minecraft_directory'', JStr ''/games/mc'')]))
          \<lparr>nodes := [SETTINGS_FILE \<mapsto> File (Json (JObj [(''minecraft_directory'', JStr ''/games/mc'')])),
                     ''/games/mc'' \<mapsto> Dir]\<rparr>) ''/games/mc''
   \<and> settings_file_covered (world_with_settings (JObj [(''minecraft_directory'', JStr ''/games/mc'')]))
   \<and> fst (load_settings (world_with_settings (JObj [(''minecraft_directory'', JStr ''/games/mc'')])))
       \<noteq> Raises TypeError
   \<and> load_settings locked_world = (Exits 1, locked_world)
   \<and> \<not> path_exists locked_world (DEFAULT_MINECRAFT_DIR locked_world)
   \<and> os_makedirs locked_world (JStr (DEFAULT_MINECRAFT_DIR locked_world)) = Inl OSError"
proof -
  let ?w = "world_with_settings (JObj [(''minecraft_directory'', JStr ''/games/mc'')])"
  let ?s = "JObj [(''minecraft_directory'', JStr ''/games/mc''),
                  (''profiles'', JList []), (''last_selected_profile'', JNull)]"
  let ?w' = "?w\<lparr>nodes := [SETTINGS_FILE \<mapsto> File (Json (JObj [(''minecraft_directory'', JStr ''/games/mc'')])),
                     ''/games/mc'' \<mapsto> Dir]\<rparr>"
  have run: "load_settings ?w = (Returns ?s, ?w')"
    by (simp add: settings_defs example_defs)
  have get: "py_getitem ?s ''minecraft_directory'' = Inr (JStr ''/games/mc'')"
    by simp
  have cov: "settings_file_covered ?w"
    by (simp add: settings_file_covered_def object_with_path_def plain_path_def settings_defs
        example_defs)
  have ex: "load_settings locked_world = (Exits 1, locked_world)"
    by (simp add: settings_defs example_defs)
  from load_settings_path_exists [of ?w] run get cov
  have "path_exists ?w' ''/games/mc''" "fst (load_settings ?w) \<noteq> Raises TypeError"
    by blast+
  moreover from load_settings_path_exists [of locked_world] ex
  have "\<not> path_exists locked_world (DEFAULT_MINECRAFT_DIR locked_world)"
    "os_makedirs locked_world (JStr (DEFAULT_MINECRAFT_DIR locked_world)) = Inl OSError"
    by blast+
  ultimately show ?thesis using run cov ex by simp
qed

text \<open>
  C1. \<^verbatim>\<open>load_settings\<close> is claimed to return settings whose \<^verbatim>\<open>minecraft_directory\<close>
  names a directory that exists, for every content of the settings file; the comment
  of line 32 says \<^verbatim>\<open>Ensure Minecraft directory exists\<close>. The test of line 34 is
  \<^verbatim>\<open>os.path.exists\<close>, which also holds of a regular file: when the configured path
  names one, nothing is created, the fallback to the default directory is not taken,
  and the settings are returned with a path that is not a directory. Here the settings
  name the settings file itself, and after the call that path is still the regular
  file it was.
\<close>

theorem load_settings_returns_regular_file:
  "load_settings (world_with_settings (JObj [(''minecraft_directory'', JStr ''launcher_settings.json'')]))
     = (Returns (JObj [(''minecraft_directory'', JStr ''launcher_settings.json''),
                       (''profiles'', JList []), (''last_selected_profile'', JNull)]),
        world_with_settings (JObj [(''minecraft_directory'', JStr ''launcher_settings.json'')]))
   \<and> nodes (world_with_settings (JObj [(''minecraft_directory'', JStr ''launcher_settings.json'')]))
        ''launcher_settings.json''
       = Some (File (Json (JObj [(''minecraft_directory'', JStr ''launcher_settings.json'')])))
   \<and> nodes (world_with_settings (JObj [(''minecraft_directory'', JStr ''launcher_settings.json'')]))
        ''launcher_settings.json'' \<noteq> Some Dir"
  by (simp add: settings_defs example_defs)

text \<open>
  C8. \<^verbatim>\<open>load_settings\<close> is claimed never to raise and to return the defaults when
  loading fails, as its docstring says of an invalid file. A settings file whose JSON
  document is not an object is such a file, and the code raises on it: for the
  document \<^verbatim>\<open>[]\<close> the test \<^verbatim>\<open>'minecraft_directory' not in settings\<close> holds and the
  assignment \<^verbatim>\<open>settings['minecraft_directory'] = ...\<close> raises \<^verbatim>\<open>TypeError\<close>, which
  the handler at line 47 does not catch.
\<close>

theorem load_settings_raises_on_list:
  "load_settings (world_with_settings (JList [])) = (Raises TypeError, world_with_settings (JList []))"
  by (simp add: settings_defs example_defs)

section \<open>Properties of \<^verbatim>\<open>InstallThread\<close>\<close>

lemma notify_not_finished: "s \<in> set (notify (callback self) n) \<Longrightarrow> \<not> is_finished s"
  by (cases n)
     (auto simp: callback_def set_status_def set_progress_def set_max_def
       split: option.splits handler.splits if_splits)

lemma relayed_not_finished:
  "filter is_finished (concat (map (notify (callback self)) ns)) = []"
  by (induction ns) (auto simp: filter_empty_conv dest: notify_not_finished)


lemma finished_emissions_run:
  "finished_emissions (emitted (run self lib)) =
     (case ending lib of
        Completed \<Rightarrow>
          [Finished_signal True
             [Lit ''Version '', Fmt (version_id self), Lit '' installed successfully!'']]
      | Raised e \<Rightarrow>
          [Finished_signal False
             [Lit ''Failed to install '', Fmt (version_id self), Lit '': '', Lit e]]
      | Raised_base e \<Rightarrow> [])"
  by (cases "ending lib")
     (simp_all add: run_def finished_emissions_def Let_def relayed_not_finished)

text \<open>
  C4, as amended. Every execution of \<^verbatim>\<open>run\<close> calls \<^verbatim>\<open>install_minecraft_version\<close>
  exactly once, with the thread's version and directory. When the call returns,
  \<^verbatim>\<open>finished_signal\<close> is emitted exactly once, with \<^verbatim>\<open>True\<close> and the success message;
  when the call raises an exception derived from \<^verbatim>\<open>Exception\<close>, it is emitted exactly
  once, with \<^verbatim>\<open>False\<close> and a message that contains the exception text; in both cases
  nothing escapes \<^verbatim>\<open>run\<close>. An exception that is not derived from \<^verbatim>\<open>Exception\<close>
  passes the handler: no \<^verbatim>\<open>finished_signal\<close> is emitted and the exception leaves
  \<^verbatim>\<open>run\<close>.
\<close>

theorem run_emits_finished_once:
  "library_calls (run self lib) = [(version_id self, minecraft_dir self)]
   \<and> (case ending lib of
        Completed \<Rightarrow>
          finished_emissions (emitted (run self lib)) =
            [Finished_signal True
               [Lit ''Version '', Fmt (version_id self), Lit '' installed successfully!'']]
          \<and> escaped (run self lib) = None
      | Raised e \<Rightarrow>
          (\<exists>msg. finished_emissions (emitted (run self lib)) = [Finished_signal False msg]
                 \<and> Lit e \<in> set msg)
          \<and> escaped (run self lib) = None
      | Raised_base e \<Rightarrow>
          finished_emissions (emitted (run self lib)) = []
          \<and> escaped (run self lib) = Some e)"
proof -
  have "library_calls (run self lib) = [(version_id self, minecraft_dir self)]"
    by (cases "ending lib") (simp_all add: run_def Let_def)
  moreover have "escaped (run self lib) =
      (case ending lib of Completed \<Rightarrow> None | Raised e \<Rightarrow> None | Raised_base e \<Rightarrow> Some e)"
    by (cases "ending lib") (simp_all add: run_def Let_def)
  ultimately show ?thesis
    by (cases "ending lib") (simp_all add: finished_emissions_run)
qed

text \<open>The claim as stated fails when the library call ends with \<^verbatim>\<open>SystemExit\<close>: the
  handler \<^verbatim>\<open>except Exception\<close> does not catch it, so it escapes \<^verbatim>\<open>run\<close> and no
  \<^verbatim>\<open>finished_signal\<close> is emitted.\<close>

theorem run_base_exception_counterexample:
  "escaped (run \<lparr>version_id = JStr ''1.20.1'', minecraft_dir = JStr ''/home/user/minecraft''\<rparr>
               \<lparr>notifications = [], ending = Raised_base ''SystemExit''\<rparr>) = Some ''SystemExit''
   \<and> finished_emissions
        (emitted (run \<lparr>version_id = JStr ''1.20.1'', minecraft_dir = JStr ''/home/user/minecraft''\<rparr>
                      \<lparr>notifications = [], ending = Raised_base ''SystemExit''\<rparr>)) = []"
  by (simp add: run_def finished_emissions_def)

section \<open>Properties of the offline-mode patch\<close>

lemma loopback_not_auth: "\<not> names_auth_server (JStr LOOPBACK)"
  by (simp add: LOOPBACK_def)

lemma redirect_idem: "redirect (redirect v) = redirect v"
  by (simp add: redirect_def loopback_not_auth)

lemma redirect_non_str: "\<not> is_str v \<Longrightarrow> redirect v = v"
  by (cases v) (simp_all add: redirect_def)

lemma is_str_redirect: "is_str (redirect v) = is_str v"
  by (cases v) (simp_all add: redirect_def)

lemma list_index_str: "is_str v \<Longrightarrow> list_index v = None"
  by (cases v) simp_all

lemma redirect_list_step_shape:
  assumes "redirect_list_step i xs = Inr ys"
  shows "length ys = length xs \<and> (\<forall>j < length xs. is_str (ys ! j) = is_str (xs ! j))
         \<and> \<not> is_str (xs ! i)"
proof -
  from assms obtain j where j: "py_list_pos (length xs) (xs ! i) = Inr j"
    and ys: "ys = xs[j := redirect (xs ! j)]"
    by (auto simp: redirect_list_step_def and_then_def split: sum.splits)
  from j have "list_index (xs ! i) \<noteq> None"
    by (auto simp: py_list_pos_def split: option.splits)
  then have "\<not> is_str (xs ! i)" by (auto dest: list_index_str)
  moreover have "is_str (ys ! k) = is_str (xs ! k)" if "k < length xs" for k
    using that by (cases "j < length xs"; cases "j = k") (simp_all add: ys is_str_redirect)
  ultimately show ?thesis by (simp add: ys)
qed

lemma redirect_list_from_shape:
  "redirect_list_from is xs = Inr ys \<Longrightarrow>
     length ys = length xs \<and> (\<forall>j < length xs. is_str (ys ! j) = is_str (xs ! j))
     \<and> (\<forall>i \<in> set is. i < length xs \<longrightarrow> \<not> is_str (xs ! i))"
proof (induction "is" arbitrary: xs)
  case Nil
  then show ?case by simp
next
  case (Cons i rest)
  from Cons.prems obtain zs where st: "redirect_list_step i xs = Inr zs"
    and rest: "redirect_list_from rest zs = Inr ys"
    by (auto simp: and_then_def split: sum.splits)
  from redirect_list_step_shape [OF st] Cons.IH [OF rest] show ?case by auto
qed

lemma redirect_list_step_plain:
  assumes "redirect_list_step i xs = Inr ys" and "\<forall>x \<in> set xs. \<not> is_str x"
  shows "ys = xs"
proof -
  from assms(1) obtain j where j: "py_list_pos (length xs) (xs ! i) = Inr j"
    and ys: "ys = xs[j := redirect (xs ! j)]"
    by (auto simp: redirect_list_step_def and_then_def split: sum.splits)
  from j have "j < length xs"
    by (auto simp: py_list_pos_def Let_def split: option.splits if_splits)
  with assms(2) have "redirect (xs ! j) = xs ! j" by (simp add: redirect_non_str)
  with ys show ?thesis by simp
qed

lemma redirect_list_from_plain:
  "redirect_list_from is xs = Inr ys \<Longrightarrow> \<forall>x \<in> set xs. \<not> is_str x \<Longrightarrow> ys = xs"
proof (induction "is" arbitrary: xs)
  case Nil
  then show ?case by simp
next
  case (Cons i rest)
  from Cons.prems(1) obtain zs where st: "redirect_list_step i xs = Inr zs"
    and rest: "redirect_list_from rest zs = Inr ys"
    by (auto simp: and_then_def split: sum.splits)
  from redirect_list_step_plain [OF st Cons.prems(2)] have "zs = xs" .
  with rest Cons.IH Cons.prems(2) show ?case by simp
qed

text \<open>A list under net.server passes the loop only when it holds no string, and is then
  left as it is.\<close>

lemma redirect_list_success:
  assumes "redirect_list_from [0..<length xs] xs = Inr ys"
  shows "ys = xs \<and> (\<forall>x \<in> set xs. \<not> is_str x)"
proof -
  from redirect_list_from_shape [OF assms]
  have "\<forall>i < length xs. \<not> is_str (xs ! i)" by simp
  then have plain: "\<forall>x \<in> set xs. \<not> is_str x" by (auto simp: in_set_conv_nth)
  with redirect_list_from_plain [OF assms] show ?thesis by simp
qed

lemma map_redirect_plain: "\<forall>x \<in> set xs. \<not> is_str x \<Longrightarrow> map redirect xs = xs"
  by (induction xs) (simp_all add: redirect_non_str)

lemma redirect_servers_shape:
  "redirect_servers s = Inr s' \<Longrightarrow>
     (case s of JObj kvs \<Rightarrow> s' = JObj (map (\<lambda>(k, v). (k, redirect v)) kvs)
      | JList xs \<Rightarrow> s' = s \<and> map redirect xs = xs
      | _ \<Rightarrow> s' = s \<and> \<not> truthy s)"
  by (cases s)
     (auto simp: and_then_def split: sum.splits if_splits dest!: redirect_list_success
       intro: map_redirect_plain)

lemma redirect_servers_idem: "redirect_servers s = Inr s' \<Longrightarrow> redirect_servers s' = Inr s'"
proof (cases s)
  case (JList xs)
  assume ok: "redirect_servers s = Inr s'"
  with JList obtain ys where ys: "redirect_list_from [0..<length xs] xs = Inr ys" and "s' = JList ys"
    by (auto simp: and_then_def split: sum.splits)
  with redirect_list_success [OF ys] have "s' = s" by (simp add: JList)
  with ok show ?thesis by simp
qed (auto simp: redirect_idem split: if_splits)

lemma redirect_servers_truthy: "redirect_servers s = Inr s' \<Longrightarrow> truthy s' = truthy s"
  by (cases s) (auto simp: and_then_def split: sum.splits if_splits dest!: redirect_list_success)

lemma patch_arguments_at_key:
  "patch_arguments (JObj kvs) = at_key ''arguments'' arguments_value kvs"
  by (auto simp: patch_arguments_def at_key_def arguments_value_def and_then_def update_triv
      split: option.splits sum.splits)

lemma patch_servers_at_key:
  "patch_servers (JObj kvs) = at_key ''net'' net_value kvs"
  by (auto simp: patch_servers_def at_key_def net_value_def and_then_def update_triv
      split: option.splits sum.splits)

lemma patch_authentication_at_key:
  "patch_authentication (JObj kvs) = at_key ''authenticationService'' service_value kvs"
  by (auto simp: patch_authentication_def at_key_def service_value_def and_then_def update_triv
      split: option.splits sum.splits)

lemma patch_services_at_key:
  "patch_services (JObj kvs) = at_key ''servicesBaseUrl'' services_url_value kvs"
  by (auto simp: patch_services_def at_key_def services_url_value_def and_then_def
      split: option.splits sum.splits)

lemma at_key_other:
  "at_key K T kvs = Inr v' \<Longrightarrow>
     \<exists>kvs'. v' = JObj kvs' \<and> (\<forall>K'. K' \<noteq> K \<longrightarrow> map_of kvs' K' = map_of kvs K')"
  by (auto simp: at_key_def and_then_def update_conv' split: option.splits sum.splits)

lemma at_key_settles:
  assumes "settles T" and "at_key K T kvs = Inr (JObj kvs')"
  shows "at_key K T kvs' = Inr (JObj kvs')"
proof (cases "map_of kvs K")
  case None
  with assms(2) show ?thesis by (simp add: at_key_def)
next
  case (Some a)
  with assms(2) obtain a' where a': "T a = Inr a'" and kvs': "kvs' = AList.update K a' kvs"
    by (auto simp: at_key_def and_then_def split: sum.splits)
  from assms(1) a' have "T a' = Inr a'" by (auto simp: settles_def)
  then show ?thesis by (simp add: at_key_def kvs' update_conv' and_then_def)
qed

lemma at_key_fixed:
  assumes "at_key K T kvs = Inr (JObj kvs)" and "map_of kvs2 K = map_of kvs K"
  shows "at_key K T kvs2 = Inr (JObj kvs2)"
proof (cases "map_of kvs K")
  case None
  with assms(2) show ?thesis by (simp add: at_key_def)
next
  case (Some a)
  with assms(1) obtain a' where a': "T a = Inr a'" and eq: "AList.update K a' kvs = kvs"
    by (auto simp: at_key_def and_then_def split: sum.splits)
  from eq have "map_of kvs K = Some a'" by (metis update_conv' fun_upd_same)
  with Some have "a' = a" by simp
  with a' Some assms(2) show ?thesis by (simp add: at_key_def and_then_def update_triv)
qed

lemma append_offline_args_settles:
  "append_offline_args g = Inr g' \<Longrightarrow> append_offline_args g' = Inr g'"
  by (cases g) (auto simp: append_offline_args_def and_then_def split: if_splits)

lemma settles_arguments_value: "settles arguments_value"
  unfolding settles_def
proof (intro allI impI)
  fix a a' assume ok: "arguments_value a = Inr a'"
  show "arguments_value a' = Inr a'"
  proof (cases a)
    case (JObj inner)
    show ?thesis
    proof (cases "map_of inner ''game''")
      case None
      with ok JObj have "a' = JObj inner" by (simp add: arguments_value_def and_then_def)
      with None show ?thesis by (simp add: arguments_value_def and_then_def)
    next
      case (Some g)
      with ok JObj obtain g' where g': "append_offline_args g = Inr g'"
        and a': "a' = JObj (AList.update ''game'' g' inner)"
        by (auto simp: arguments_value_def and_then_def split: sum.splits)
      from append_offline_args_settles [OF g'] show ?thesis
        by (simp add: a' arguments_value_def and_then_def update_conv')
    qed
  qed (use ok in \<open>auto simp: arguments_value_def and_then_def split: if_splits\<close>)
qed

lemma settles_net_value: "settles net_value"
  unfolding settles_def
proof (intro allI impI)
  fix a a' assume ok: "net_value a = Inr a'"
  show "net_value a' = Inr a'"
  proof (cases a)
    case (JObj inner)
    show ?thesis
    proof (cases "truthy (case map_of inner ''server'' of None \<Rightarrow> JObj [] | Some v \<Rightarrow> v)")
      case False
      with ok JObj have "a' = JObj inner" by (simp add: net_value_def and_then_def)
      with False show ?thesis by (simp add: net_value_def and_then_def)
    next
      case True
      then obtain s where s: "map_of inner ''server'' = Some s" and t: "truthy s"
        by (cases "map_of inner ''server''") auto
      with ok JObj obtain s' where s': "redirect_servers s = Inr s'"
        and a': "a' = JObj (AList.update ''server'' s' inner)"
        by (auto simp: net_value_def and_then_def split: sum.splits)
      from redirect_servers_idem [OF s'] redirect_servers_truthy [OF s'] t show ?thesis
        by (simp add: a' net_value_def and_then_def update_conv')
    qed
  qed (use ok in \<open>auto simp: net_value_def and_then_def\<close>)
qed

lemma settles_service_value: "settles service_value"
  unfolding settles_def
proof (intro allI impI)
  fix a a' assume ok: "service_value a = Inr a'"
  show "service_value a' = Inr a'"
    using ok
    by (cases a)
       (auto simp: service_value_def and_then_def update_conv' split: if_splits)
qed

lemma settles_services_url_value: "settles services_url_value"
  by (simp add: settles_def services_url_value_def)

lemma patch_version_data_object:
  assumes "patch_version_data v = Inr v'"
  shows "\<exists>kvs. v = JObj kvs"
proof (cases v)
  case (JObj kvs)
  then show ?thesis by simp
qed (use assms in \<open>auto simp: patch_version_data_def patch_arguments_def patch_servers_def
      and_then_def split: sum.splits if_splits\<close>)

lemma at_key_object: "at_key K T kvs = Inr v' \<Longrightarrow> \<exists>kvs'. v' = JObj kvs'"
  by (auto dest: at_key_other)

lemma patch_version_data_steps:
  assumes "patch_version_data (JObj kvs) = Inr v'"
  obtains k1 k2 k3 k4 where
    "at_key ''arguments'' arguments_value kvs = Inr (JObj k1)"
    "at_key ''net'' net_value k1 = Inr (JObj k2)"
    "at_key ''authenticationService'' service_value k2 = Inr (JObj k3)"
    "at_key ''servicesBaseUrl'' services_url_value k3 = Inr (JObj k4)"
    "v' = JObj k4"
proof -
  from assms obtain v1 where a: "patch_arguments (JObj kvs) = Inr v1"
    and r1: "and_then (patch_servers v1) (\<lambda>v2. and_then (patch_authentication v2) patch_services) = Inr v'"
    by (auto simp: patch_version_data_def and_then_def split: sum.splits)
  from a obtain k1 where k1: "v1 = JObj k1"
    by (auto simp: patch_arguments_at_key dest: at_key_object)
  from r1 obtain v2 where b: "patch_servers v1 = Inr v2"
    and r2: "and_then (patch_authentication v2) patch_services = Inr v'"
    by (auto simp: and_then_def split: sum.splits)
  from b k1 obtain k2 where k2: "v2 = JObj k2"
    by (auto simp: patch_servers_at_key dest: at_key_object)
  from r2 obtain v3 where c: "patch_authentication v2 = Inr v3" and d: "patch_services v3 = Inr v'"
    by (auto simp: and_then_def split: sum.splits)
  from c k2 obtain k3 where k3: "v3 = JObj k3"
    by (auto simp: patch_authentication_at_key dest: at_key_object)
  from d k3 obtain k4 where k4: "v' = JObj k4"
    by (auto simp: patch_services_at_key dest: at_key_object)
  show ?thesis
    using that [of k1 k2 k3 k4] a b c d k1 k2 k3 k4
    by (simp add: patch_arguments_at_key patch_servers_at_key patch_authentication_at_key
        patch_services_at_key)
qed

lemma patch_version_data_of_steps:
  assumes "at_key ''arguments'' arguments_value kvs = Inr (JObj k1)"
    "at_key ''net'' net_value k1 = Inr (JObj k2)"
    "at_key ''authenticationService'' service_value k2 = Inr (JObj k3)"
    "at_key ''servicesBaseUrl'' services_url_value k3 = Inr (JObj k4)"
  shows "patch_version_data (JObj kvs) = Inr (JObj k4)"
  using assms
  by (simp add: patch_version_data_def and_then_def patch_arguments_at_key patch_servers_at_key
      patch_authentication_at_key patch_services_at_key)

lemma at_key_other_eq:
  "at_key K T kvs = Inr (JObj kvs') \<Longrightarrow> K' \<noteq> K \<Longrightarrow> map_of kvs' K' = map_of kvs K'"
  using at_key_other [of K T kvs "JObj kvs'"] by simp

text \<open>A second application of the patch to a patched document changes nothing.\<close>

lemma patch_version_data_idem:
  assumes "patch_version_data v = Inr v'"
  shows "patch_version_data v' = Inr v'"
proof -
  from patch_version_data_object [OF assms] obtain kvs where v: "v = JObj kvs" by blast
  from assms [unfolded v] obtain k1 k2 k3 k4 where
    a: "at_key ''arguments'' arguments_value kvs = Inr (JObj k1)" and
    b: "at_key ''net'' net_value k1 = Inr (JObj k2)" and
    c: "at_key ''authenticationService'' service_value k2 = Inr (JObj k3)" and
    d: "at_key ''servicesBaseUrl'' services_url_value k3 = Inr (JObj k4)" and
    v': "v' = JObj k4"
    by (rule patch_version_data_steps)
  have a1: "at_key ''arguments'' arguments_value k1 = Inr (JObj k1)"
    by (rule at_key_settles [OF settles_arguments_value a])
  have b2: "at_key ''net'' net_value k2 = Inr (JObj k2)"
    by (rule at_key_settles [OF settles_net_value b])
  have c3: "at_key ''authenticationService'' service_value k3 = Inr (JObj k3)"
    by (rule at_key_settles [OF settles_service_value c])
  have d4: "at_key ''servicesBaseUrl'' services_url_value k4 = Inr (JObj k4)"
    by (rule at_key_settles [OF settles_services_url_value d])
  have "map_of k4 ''arguments'' = map_of k1 ''arguments''"
    using at_key_other_eq [OF b, of "''arguments''"] at_key_other_eq [OF c, of "''arguments''"]
      at_key_other_eq [OF d, of "''arguments''"] by simp
  from at_key_fixed [OF a1 this]
  have a4: "at_key ''arguments'' arguments_value k4 = Inr (JObj k4)" .
  have "map_of k4 ''net'' = map_of k2 ''net''"
    using at_key_other_eq [OF c, of "''net''"] at_key_other_eq [OF d, of "''net''"] by simp
  from at_key_fixed [OF b2 this]
  have b4: "at_key ''net'' net_value k4 = Inr (JObj k4)" .
  have "map_of k4 ''authenticationService'' = map_of k3 ''authenticationService''"
    using at_key_other_eq [OF d, of "''authenticationService''"] by simp
  from at_key_fixed [OF c3 this]
  have c4: "at_key ''authenticationService'' service_value k4 = Inr (JObj k4)" .
  from patch_version_data_of_steps [OF a4 b4 c4 d4] show ?thesis by (simp add: v')
qed

lemma arguments_step_spec:
  assumes "at_key ''arguments'' arguments_value kvs = Inr v1"
  shows "v1 = spec_game_args (JObj kvs)"
proof (cases "map_of kvs ''arguments''")
  case None
  with assms have "v1 = JObj kvs" by (simp add: at_key_def)
  with None show ?thesis by (simp add: spec_game_args_def member2_def)
next
  case (Some a)
  with assms obtain a' where a': "arguments_value a = Inr a'"
    and v1: "v1 = JObj (AList.update ''arguments'' a' kvs)"
    by (auto simp: at_key_def and_then_def split: sum.splits)
  show ?thesis
  proof (cases a)
    case (JObj inner)
    show ?thesis
    proof (cases "map_of inner ''game''")
      case None
      with a' JObj have "a' = a" by (simp add: arguments_value_def and_then_def)
      with v1 Some JObj None show ?thesis
        by (simp add: spec_game_args_def member2_def update_triv)
    next
      case g: (Some g)
      with a' JObj obtain g' where g': "append_offline_args g = Inr g'"
        and a'_eq: "a' = JObj (AList.update ''game'' g' inner)"
        by (auto simp: arguments_value_def and_then_def split: sum.splits)
      show ?thesis
      proof (cases g)
        case (JList gs)
        with g' have "g' = (if JStr SKIP_WARNING \<in> set gs then g else JList (gs @ [JStr SKIP_WARNING]))"
          by (auto simp: append_offline_args_def and_then_def split: if_splits)
        with v1 a'_eq Some JObj g JList show ?thesis
          by (simp add: spec_game_args_def member2_def with_member2_def update_triv)
      next
        case (JObj x)
        with g' have "g' = g" by (auto simp: append_offline_args_def and_then_def split: if_splits)
        with v1 a'_eq Some \<open>a = JObj inner\<close> g JObj show ?thesis
          by (simp add: spec_game_args_def member2_def update_triv)
      next
        case (JStr x)
        with g' have "g' = g" by (auto simp: append_offline_args_def and_then_def split: if_splits)
        with v1 a'_eq Some \<open>a = JObj inner\<close> g JStr show ?thesis
          by (simp add: spec_game_args_def member2_def update_triv)
      qed (use g' in \<open>simp_all add: append_offline_args_def and_then_def\<close>)
    qed
  next
    case (JList xs)
    with a' have "a' = a" by (auto simp: arguments_value_def and_then_def split: if_splits)
    with v1 Some JList show ?thesis by (simp add: spec_game_args_def member2_def update_triv)
  next
    case (JStr x)
    with a' have "a' = a" by (auto simp: arguments_value_def and_then_def split: if_splits)
    with v1 Some JStr show ?thesis by (simp add: spec_game_args_def member2_def update_triv)
  qed (use a' in \<open>simp_all add: arguments_value_def and_then_def\<close>)
qed

lemma net_step_spec:
  assumes "at_key ''net'' net_value kvs = Inr v1"
  shows "v1 = spec_servers (JObj kvs)"
proof (cases "map_of kvs ''net''")
  case None
  with assms have "v1 = JObj kvs" by (simp add: at_key_def)
  with None show ?thesis by (simp add: spec_servers_def member2_def)
next
  case (Some a)
  with assms obtain a' where a': "net_value a = Inr a'"
    and v1: "v1 = JObj (AList.update ''net'' a' kvs)"
    by (auto simp: at_key_def and_then_def split: sum.splits)
  from a' obtain inner where inner: "a = JObj inner"
    by (cases a) (auto simp: net_value_def and_then_def)
  show ?thesis
  proof (cases "map_of inner ''server''")
    case None
    with a' inner have "a' = a" by (simp add: net_value_def and_then_def)
    with v1 Some inner None show ?thesis by (simp add: spec_servers_def member2_def update_triv)
  next
    case s: (Some s)
    show ?thesis
    proof (cases "truthy s")
      case False
      with a' inner s have "a' = a" by (simp add: net_value_def and_then_def)
      moreover from False have "case s of JObj kvs \<Rightarrow> kvs = [] | JList xs \<Rightarrow> xs = [] | _ \<Rightarrow> True"
        by (cases s) auto
      ultimately show ?thesis using v1 Some inner s
        by (cases s) (auto simp: spec_servers_def member2_def with_member2_def update_triv)
    next
      case True
      with a' inner s obtain s' where s': "redirect_servers s = Inr s'"
        and a'_eq: "a' = JObj (AList.update ''server'' s' inner)"
        by (auto simp: net_value_def and_then_def split: sum.splits)
      from redirect_servers_shape [OF s'] True v1 a'_eq Some inner s show ?thesis
        by (cases s) (auto simp: spec_servers_def member2_def with_member2_def)
    qed
  qed
qed

lemma service_step_spec:
  assumes "at_key ''authenticationService'' service_value kvs = Inr v1"
  shows "v1 = spec_authentication (JObj kvs)"
proof (cases "map_of kvs ''authenticationService''")
  case None
  with assms have "v1 = JObj kvs" by (simp add: at_key_def)
  with None show ?thesis by (simp add: spec_authentication_def member2_def)
next
  case (Some a)
  with assms obtain a' where a': "service_value a = Inr a'"
    and v1: "v1 = JObj (AList.update ''authenticationService'' a' kvs)"
    by (auto simp: at_key_def and_then_def split: sum.splits)
  from a' v1 Some show ?thesis
    by (cases a)
       (auto simp: service_value_def and_then_def spec_authentication_def member2_def
         with_member2_def update_triv split: if_splits option.splits)
qed

lemma services_step_spec:
  assumes "at_key ''servicesBaseUrl'' services_url_value kvs = Inr v1"
  shows "v1 = spec_services (JObj kvs)"
  using assms
  by (auto simp: at_key_def services_url_value_def and_then_def spec_services_def
      split: option.splits)

text \<open>Where the patch succeeds, the patched document is the one the specification
  describes.\<close>

lemma patch_version_data_spec:
  assumes "patch_version_data v = Inr v'"
  shows "v' = spec_offline_patch v"
proof -
  from patch_version_data_object [OF assms] obtain kvs where v: "v = JObj kvs" by blast
  from assms [unfolded v] obtain k1 k2 k3 k4 where
    a: "at_key ''arguments'' arguments_value kvs = Inr (JObj k1)" and
    b: "at_key ''net'' net_value k1 = Inr (JObj k2)" and
    c: "at_key ''authenticationService'' service_value k2 = Inr (JObj k3)" and
    d: "at_key ''servicesBaseUrl'' services_url_value k3 = Inr (JObj k4)" and
    v': "v' = JObj k4"
    by (rule patch_version_data_steps)
  from arguments_step_spec [OF a] net_step_spec [OF b] service_step_spec [OF c]
    services_step_spec [OF d]
  show ?thesis by (simp add: spec_offline_patch_def v v')
qed

lemma backup_differs: "path @ ''.backup'' \<noteq> path"
  by simp

lemma backup_plain: "CHR 0x00 \<in> set (path @ ''.backup'') \<longleftrightarrow> CHR 0x00 \<in> set path"
  by simp

lemma backup_manifest_frame:
  assumes "backup_manifest w path = Inr w1"
  shows "write_result w1 = write_result w" "copy_ok w1 = copy_ok w"
    "\<And>p. p \<noteq> path @ ''.backup'' \<Longrightarrow> nodes w1 p = nodes w p"
    "nodes w (path @ ''.backup'') \<noteq> None \<Longrightarrow> w1 = w"
    "path_exists w path \<Longrightarrow> path_exists w1 (path @ ''.backup'')"
    "\<not> path_exists w path \<Longrightarrow> w1 = w"
  using assms
  by (auto simp: backup_manifest_def copy2_def path_exists_def
      split: if_splits option.splits node.splits)

lemma backup_manifest_again:
  assumes "backup_manifest w path = Inr w1"
  shows "backup_manifest w1 path = Inr w1"
proof (cases "path_exists w path")
  case True
  from backup_manifest_frame(5) [OF assms True] show ?thesis
    by (simp add: backup_manifest_def)
next
  case False
  from backup_manifest_frame(6) [OF assms False] assms show ?thesis by simp
qed

lemma rewrite_manifest_frame:
  assumes "rewrite_manifest w path = (r, w')"
  shows "write_result w' = write_result w" "copy_ok w' = copy_ok w"
    "\<And>p. p \<noteq> path \<Longrightarrow> nodes w' p = nodes w p"
    "nodes w path = None \<Longrightarrow> w' = w"
    "CHR 0x00 \<in> set path \<Longrightarrow> w' = w"
  using assms
  by (auto simp: rewrite_manifest_def write_json_def after_failed_write_def read_json_def
      split: sum.splits write_outcome.splits if_splits)

lemma rewrite_manifest_True:
  assumes "rewrite_manifest w path = (True, w')"
  shows "\<exists>v. nodes w path = Some (File (Json v)) \<and> CHR 0x00 \<notin> set path
           \<and> patch_version_data v = Inr (spec_offline_patch v)
           \<and> write_result w path = WriteOk
           \<and> w' = w\<lparr>nodes := (nodes w)(path \<mapsto> File (Json (spec_offline_patch v)))\<rparr>"
proof -
  from assms obtain v v' where rd: "read_json w path = Inr v"
    and p: "patch_version_data v = Inr v'"
    and wr: "write_json w path v' = Inr w'"
    by (auto simp: rewrite_manifest_def split: sum.splits)
  from rd have "nodes w path = Some (File (Json v))" "CHR 0x00 \<notin> set path"
    by (auto simp: read_json_def split: if_splits option.splits node.splits file_content.splits)
  moreover from patch_version_data_spec [OF p] have "v' = spec_offline_patch v" .
  moreover from wr have "write_result w path = WriteOk"
    "w' = w\<lparr>nodes := (nodes w)(path \<mapsto> File (Json v'))\<rparr>"
    by (auto simp: write_json_def split: write_outcome.splits)
  ultimately show ?thesis using p by auto
qed

lemma rewrite_manifest_False:
  assumes "rewrite_manifest w path = (False, w')"
  shows "w' = w \<or> (write_result w path = DumpFails
                    \<and> w' = w\<lparr>nodes := (nodes w)(path \<mapsto> File Malformed)\<rparr>)"
  using assms
  by (auto simp: rewrite_manifest_def write_json_def after_failed_write_def
      split: sum.splits write_outcome.splits)

lemma world_nodes_same: "nodes w p = x \<Longrightarrow> w\<lparr>nodes := (nodes w)(p := x)\<rparr> = w"
  by (simp add: fun_upd_idem)

lemma rewrite_manifest_again:
  assumes "rewrite_manifest w path = (r, w')"
  shows "rewrite_manifest w' path = (r, w')"
proof (cases r)
  case True
  with assms have "rewrite_manifest w path = (True, w')" by simp
  from rewrite_manifest_True [OF this] obtain v where
    pl: "CHR 0x00 \<notin> set path" and
    p: "patch_version_data v = Inr (spec_offline_patch v)" and
    wr: "write_result w path = WriteOk" and
    w': "w' = w\<lparr>nodes := (nodes w)(path \<mapsto> File (Json (spec_offline_patch v)))\<rparr>"
    by blast
  from patch_version_data_idem [OF p]
  have "patch_version_data (spec_offline_patch v) = Inr (spec_offline_patch v)" .
  with pl wr True show ?thesis
    by (simp add: w' rewrite_manifest_def read_json_def write_json_def)
next
  case False
  with assms have f: "rewrite_manifest w path = (False, w')" by simp
  from rewrite_manifest_False [OF f] show ?thesis
  proof
    assume "w' = w"
    with f show ?thesis using False by simp
  next
    assume d: "write_result w path = DumpFails
       \<and> w' = w\<lparr>nodes := (nodes w)(path \<mapsto> File Malformed)\<rparr>"
    with False show ?thesis
      by (simp add: rewrite_manifest_def read_json_def)
  qed
qed

lemma backup_after_rewrite:
  assumes b: "backup_manifest w path = Inr w1" and r: "rewrite_manifest w1 path = (res, w')"
  shows "backup_manifest w' path = Inr w'"
proof (cases "path_exists w1 (path @ ''.backup'')")
  case True
  with rewrite_manifest_frame(3) [OF r, of "path @ ''.backup''"]
  have "path_exists w' (path @ ''.backup'')" by (simp add: path_exists_def)
  then show ?thesis by (simp add: backup_manifest_def)
next
  case False
  with backup_manifest_frame(5) [OF b] have np: "\<not> path_exists w path" by blast
  with backup_manifest_frame(6) [OF b] have "w1 = w" by simp
  with np have "CHR 0x00 \<in> set path \<or> nodes w1 path = None" by (simp add: path_exists_def)
  with rewrite_manifest_frame(4,5) [OF r] have "w' = w1" by auto
  with backup_manifest_again [OF b] show ?thesis by simp
qed

lemma configure_offline_mode_again:
  "configure_offline_mode mc_dir vid (snd (configure_offline_mode mc_dir vid w))
     = configure_offline_mode mc_dir vid w"
proof (cases "version_json_path mc_dir vid")
  case (Inl e)
  then show ?thesis by (simp add: configure_offline_mode_def)
next
  case (Inr path)
  show ?thesis
  proof (cases "backup_manifest w path")
    case (Inl e)
    with Inr show ?thesis by (simp add: configure_offline_mode_def)
  next
    case b: (Inr w1)
    obtain res w' where r: "rewrite_manifest w1 path = (res, w')"
      by (cases "rewrite_manifest w1 path")
    from backup_after_rewrite [OF b r] rewrite_manifest_again [OF r] Inr b r
    show ?thesis by (simp add: configure_offline_mode_def)
  qed
qed

lemma configure_offline_mode_keeps_backup:
  assumes "version_json_path mc_dir vid = Inr path"
    and "nodes w (path @ ''.backup'') = Some b"
  shows "nodes (snd (configure_offline_mode mc_dir vid w)) (path @ ''.backup'') = Some b"
proof (cases "backup_manifest w path")
  case (Inl e)
  with assms show ?thesis by (simp add: configure_offline_mode_def)
next
  case (Inr w1)
  with backup_manifest_frame(4) [OF Inr] assms(2) have w1: "w1 = w" by simp
  obtain res w' where r: "rewrite_manifest w path = (res, w')"
    by (cases "rewrite_manifest w path")
  from rewrite_manifest_frame(3) [OF r, of "path @ ''.backup''"] assms Inr w1 r
  show ?thesis by (simp add: configure_offline_mode_def)
qed

lemma configure_offline_mode_True:
  assumes "version_json_path mc_dir vid = Inr path"
    and "configure_offline_mode mc_dir vid w = (True, w')"
  shows "\<exists>v. nodes w path = Some (File (Json v))
           \<and> patch_version_data v = Inr (spec_offline_patch v)
           \<and> nodes w' path = Some (File (Json (spec_offline_patch v)))
           \<and> nodes w' (path @ ''.backup'') \<noteq> None
           \<and> (\<forall>p. p \<noteq> path \<and> p \<noteq> path @ ''.backup'' \<longrightarrow> nodes w' p = nodes w p)"
proof -
  from assms obtain w1 where b: "backup_manifest w path = Inr w1"
    and r: "rewrite_manifest w1 path = (True, w')"
    by (auto simp: configure_offline_mode_def split: sum.splits)
  from rewrite_manifest_True [OF r] obtain v where
    n1: "nodes w1 path = Some (File (Json v))" and pl: "CHR 0x00 \<notin> set path" and
    p: "patch_version_data v = Inr (spec_offline_patch v)" and
    w': "w' = w1\<lparr>nodes := (nodes w1)(path \<mapsto> File (Json (spec_offline_patch v)))\<rparr>"
    by blast
  from backup_manifest_frame(3) [OF b, of path] n1
  have n: "nodes w path = Some (File (Json v))" by simp
  with pl have "path_exists w path" by (simp add: path_exists_def)
  from backup_manifest_frame(5) [OF b this]
  have "nodes w1 (path @ ''.backup'') \<noteq> None" by (simp add: path_exists_def)
  with n p w' backup_manifest_frame(3) [OF b] show ?thesis by auto
qed

lemma configure_offline_mode_False:
  assumes "version_json_path mc_dir vid = Inr path"
    and "configure_offline_mode mc_dir vid w = (False, w')"
  shows "(nodes w' path = nodes w path \<or> nodes w' path = Some (File Malformed))
           \<and> (\<forall>p. p \<noteq> path \<and> p \<noteq> path @ ''.backup'' \<longrightarrow> nodes w' p = nodes w p)"
proof (cases "backup_manifest w path")
  case (Inl e)
  with assms show ?thesis by (simp add: configure_offline_mode_def)
next
  case (Inr w1)
  with assms have r: "rewrite_manifest w1 path = (False, w')"
    by (simp add: configure_offline_mode_def)
  from rewrite_manifest_False [OF r] backup_manifest_frame(3) [OF Inr]
  show ?thesis by auto
qed

lemma configure_offline_mode_succeeds:
  assumes "version_json_path mc_dir vid = Inr path"
    and "nodes w path = Some (File (Json v))" and "CHR 0x00 \<notin> set path"
    and "patch_version_data v = Inr v'"
    and "write_result w path = WriteOk"
    and "nodes w (path @ ''.backup'') \<noteq> None \<or> copy_ok w (path @ ''.backup'')"
  shows "fst (configure_offline_mode mc_dir vid w)"
proof -
  have "\<exists>w1. backup_manifest w path = Inr w1"
  proof (cases "nodes w (path @ ''.backup'') = None")
    case True
    with assms(2,3,6) show ?thesis
      by (simp add: backup_manifest_def copy2_def path_exists_def)
  next
    case False
    with assms(3) show ?thesis by (simp add: backup_manifest_def path_exists_def)
  qed
  then obtain w1 where b: "backup_manifest w path = Inr w1" by blast
  from backup_manifest_frame(1,3) [OF b] assms(2,5)
  have "nodes w1 path = Some (File (Json v))" "write_result w1 path = WriteOk" by simp_all
  with assms(1,3,4) b show ?thesis
    by (simp add: configure_offline_mode_def rewrite_manifest_def read_json_def write_json_def)
qed

lemma configure_offline_mode_backs_up:
  assumes "version_json_path mc_dir vid = Inr path"
    and "nodes w (path @ ''.backup'') = None"
    and "configure_offline_mode mc_dir vid w = (True, w')"
  shows "nodes w' (path @ ''.backup'') = nodes w path"
proof -
  from assms(1,3) obtain w1 where b: "backup_manifest w path = Inr w1"
    and r: "rewrite_manifest w1 path = (True, w')"
    by (auto simp: configure_offline_mode_def split: sum.splits)
  from rewrite_manifest_True [OF r] obtain v where
    n1: "nodes w1 path = Some (File (Json v))" and pl: "CHR 0x00 \<notin> set path"
    by blast
  from backup_manifest_frame(3) [OF b, of path] n1
  have n: "nodes w path = Some (File (Json v))" by simp
  with pl assms(2) b have "nodes w1 (path @ ''.backup'') = Some (File (Json v))"
    by (auto simp: backup_manifest_def copy2_def path_exists_def split: if_splits)
  with rewrite_manifest_frame(3) [OF r, of "path @ ''.backup''"] n show ?thesis by simp
qed

lemmas patch_defs =
  patch_version_data_def patch_arguments_def patch_servers_def patch_authentication_def
  patch_services_def append_offline_args_def and_then_def redirect_def LOOPBACK_def
  SKIP_WARNING_def

lemmas spec_patch_defs =
  spec_offline_patch_def spec_game_args_def spec_servers_def spec_authentication_def
  spec_services_def member2_def with_member2_def redirect_def LOOPBACK_def SKIP_WARNING_def

lemmas configure_defs =
  configure_offline_mode_def version_json_path_def backup_manifest_def rewrite_manifest_def
  copy2_def write_json_def after_failed_write_def read_json_def path_exists_def path_join_def
  manifest_path_def world_with_manifest_def example_world_def

lemma example_manifest_patched: "patch_version_data example_manifest = Inr patched_manifest"
  by (simp add: example_manifest_def patched_manifest_def patch_defs)

lemma patched_manifest_fixed: "patch_version_data patched_manifest = Inr patched_manifest"
  by (simp add: patched_manifest_def patch_defs)

lemma example_manifest_spec: "spec_offline_patch example_manifest = patched_manifest"
  by (simp add: example_manifest_def patched_manifest_def spec_patch_defs)

lemma example_manifest_path:
  "version_json_path (JStr ''/mc'') (JStr ''1.20.1'') = Inr manifest_path"
  by (simp add: version_json_path_def path_join_def manifest_path_def)

lemma example_configure:
  "configure_offline_mode (JStr ''/mc'') (JStr ''1.20.1'') (world_with_manifest example_manifest)
     = (True, example_world\<lparr>nodes :=
          [manifest_path \<mapsto> File (Json patched_manifest),
           manifest_path @ ''.backup'' \<mapsto> File (Json example_manifest)]\<rparr>)"
proof -
  have "configure_offline_mode (JStr ''/mc'') (JStr ''1.20.1'') (world_with_manifest example_manifest)
     = rewrite_manifest
         (example_world\<lparr>nodes :=
            [manifest_path \<mapsto> File (Json example_manifest),
             manifest_path @ ''.backup'' \<mapsto> File (Json example_manifest)]\<rparr>) manifest_path"
    by (simp add: configure_offline_mode_def example_manifest_path backup_manifest_def copy2_def
        path_exists_def manifest_path_def world_with_manifest_def example_world_def)
  also have "\<dots> = (True, example_world\<lparr>nodes :=
          [manifest_path \<mapsto> File (Json patched_manifest),
           manifest_path @ ''.backup'' \<mapsto> File (Json example_manifest)]\<rparr>)"
    by (simp add: rewrite_manifest_def read_json_def write_json_def example_manifest_patched
        manifest_path_def example_world_def fun_upd_twist)
  finally show ?thesis .
qed

text \<open>
  C5. Whenever \<^verbatim>\<open>configure_offline_mode\<close> returns \<^verbatim>\<open>True\<close>, the manifest file held a JSON
  document and now holds that document patched as the specification says: strings
  under \<^verbatim>\<open>net.server\<close> that contain \<^verbatim>\<open>mojang\<close> or \<^verbatim>\<open>minecraft\<close> replaced by the
  loopback URL, \<^verbatim>\<open>authenticationService.baseUrl\<close> and \<^verbatim>\<open>servicesBaseUrl\<close> set to it
  when present, \<^verbatim>\<open>--skipMultiplayerWarning\<close> appended to \<^verbatim>\<open>arguments.game\<close> when
  absent, and nothing else changed. Whenever it returns \<^verbatim>\<open>False\<close>, the manifest file is
  as it was, or was truncated by a failed write. It returns \<^verbatim>\<open>True\<close> when the manifest
  can be read, the patch raises nothing, the backup exists or can be made, and the
  write succeeds. Files other than the manifest and its backup are not touched.
\<close>

theorem configure_offline_mode_patches_manifest:
  assumes "version_json_path mc_dir vid = Inr path"
  shows "(\<forall>w'. configure_offline_mode mc_dir vid w = (True, w') \<longrightarrow>
            (\<exists>v. nodes w path = Some (File (Json v))
                \<and> patch_version_data v = Inr (spec_offline_patch v)
                \<and> nodes w' path = Some (File (Json (spec_offline_patch v)))))
       \<and> (\<forall>w'. configure_offline_mode mc_dir vid w = (False, w') \<longrightarrow>
            nodes w' path = nodes w path \<or> nodes w' path = Some (File Malformed))
       \<and> (\<forall>v v'. nodes w path = Some (File (Json v)) \<and> CHR 0x00 \<notin> set path
              \<and> patch_version_data v = Inr v' \<and> write_result w path = WriteOk
              \<and> (nodes w (path @ ''.backup'') \<noteq> None \<or> copy_ok w (path @ ''.backup''))
            \<longrightarrow> fst (configure_offline_mode mc_dir vid w))
       \<and> (\<forall>p. p \<noteq> path \<and> p \<noteq> path @ ''.backup''
            \<longrightarrow> nodes (snd (configure_offline_mode mc_dir vid w)) p = nodes w p)"
proof (intro conjI allI impI)
  fix w' assume "configure_offline_mode mc_dir vid w = (True, w')"
  from configure_offline_mode_True [OF assms this]
  show "\<exists>v. nodes w path = Some (File (Json v))
          \<and> patch_version_data v = Inr (spec_offline_patch v)
          \<and> nodes w' path = Some (File (Json (spec_offline_patch v)))"
    by blast
next
  fix w' assume "configure_offline_mode mc_dir vid w = (False, w')"
  from configure_offline_mode_False [OF assms this]
  show "nodes w' path = nodes w path \<or> nodes w' path = Some (File Malformed)"
    by blast
next
  fix v v'
  assume "nodes w path = Some (File (Json v)) \<and> CHR 0x00 \<notin> set path
              \<and> patch_version_data v = Inr v' \<and> write_result w path = WriteOk
              \<and> (nodes w (path @ ''.backup'') \<noteq> None \<or> copy_ok w (path @ ''.backup''))"
  then show "fst (configure_offline_mode mc_dir vid w)"
    using configure_offline_mode_succeeds [OF assms, of w v v'] by blast
next
  fix p assume p: "p \<noteq> path \<and> p \<noteq> path @ ''.backup''"
  obtain r w' where c: "configure_offline_mode mc_dir vid w = (r, w')"
    by (cases "configure_offline_mode mc_dir vid w")
  show "nodes (snd (configure_offline_mode mc_dir vid w)) p = nodes w p"
  proof (cases r)
    case True
    with c configure_offline_mode_True [OF assms, of w w'] p show ?thesis by auto
  next
    case False
    with c configure_offline_mode_False [OF assms, of w w'] p show ?thesis by auto
  qed
qed

lemma example_configure_list:
  "configure_offline_mode (JStr ''/mc'') (JStr ''1.20.1'') (world_with_manifest (JList []))
     = (False, example_world\<lparr>nodes :=
          [manifest_path \<mapsto> File (Json (JList [])),
           manifest_path @ ''.backup'' \<mapsto> File (Json (JList []))]\<rparr>)"
  by (simp add: configure_offline_mode_def example_manifest_path backup_manifest_def copy2_def
        path_exists_def manifest_path_def world_with_manifest_def example_world_def
        rewrite_manifest_def read_json_def patch_defs)

theorem configure_offline_mode_patches_manifest_witness:
  "version_json_path (JStr ''/mc'') (JStr ''1.20.1'') = Inr manifest_path
   \<and> fst (configure_offline_mode (JStr ''/mc'') (JStr ''1.20.1'')
            (world_with_manifest example_manifest))
   \<and> nodes (snd (configure_offline_mode (JStr ''/mc'') (JStr ''1.20.1'')
                   (world_with_manifest example_manifest))) manifest_path
       = Some (File (Json (spec_offline_patch example_manifest)))
   \<and> spec_offline_patch example_manifest = patched_manifest
   \<and> \<not> fst (configure_offline_mode (JStr ''/mc'') (JStr ''1.20.1'')
              (world_with_manifest (JList [])))
   \<and> nodes (snd (configure_offline_mode (JStr ''/mc'') (JStr ''1.20.1'')
                   (world_with_manifest (JList [])))) manifest_path
       = Some (File (Json (JList [])))"
proof -
  let ?w = "world_with_manifest example_manifest"
  let ?l = "world_with_manifest (JList [])"
  let ?c = "configure_offline_mode (JStr ''/mc'') (JStr ''1.20.1'')"
  note main = configure_offline_mode_patches_manifest [OF example_manifest_path]
  note on_true = main [THEN conjunct1, rule_format]
  note succeeds = main [THEN conjunct2, THEN conjunct2, THEN conjunct1, rule_format]
  have n: "nodes ?w manifest_path = Some (File (Json example_manifest))"
    by (simp add: world_with_manifest_def)
  have ok: "CHR 0x00 \<notin> set manifest_path" "write_result ?w manifest_path = WriteOk"
    "copy_ok ?w (manifest_path @ ''.backup'')"
    by (simp_all add: manifest_path_def world_with_manifest_def example_world_def)
  have t: "fst (?c ?w)"
    by (rule succeeds [of ?w example_manifest patched_manifest])
       (simp add: n ok example_manifest_patched)
  obtain w' where c: "?c ?w = (True, w')"
    using t by (cases "?c ?w") simp
  from on_true [OF c] obtain v where
    "nodes ?w manifest_path = Some (File (Json v))"
    "nodes w' manifest_path = Some (File (Json (spec_offline_patch v)))"
    by blast
  with n have p: "nodes (snd (?c ?w)) manifest_path
      = Some (File (Json (spec_offline_patch example_manifest)))"
    by (simp add: c)
  have f: "\<not> fst (?c ?l)" by (simp add: example_configure_list)
  have q: "nodes (snd (?c ?l)) manifest_path = Some (File (Json (JList [])))"
    by (simp add: example_configure_list manifest_path_def)
  from example_manifest_path t p example_manifest_spec f q show ?thesis by simp
qed

text \<open>
  C9. Applying \<^verbatim>\<open>configure_offline_mode\<close> to the file system it has left gives the same
  result and leaves the same file system: the manifest after two applications is the
  manifest after one. The reason is in the patch itself: a document it has produced is
  returned unchanged by it, since the argument is appended only when absent and the
  loopback URL contains neither \<^verbatim>\<open>mojang\<close> nor \<^verbatim>\<open>minecraft\<close>. A backup file that
  exists is never written; and when there was none, a successful application leaves
  the original manifest there, which every later application keeps.
\<close>

theorem configure_offline_mode_idempotent:
  "configure_offline_mode mc_dir vid (snd (configure_offline_mode mc_dir vid w))
     = configure_offline_mode mc_dir vid w
   \<and> (\<forall>v v'. patch_version_data v = Inr v' \<longrightarrow> patch_version_data v' = Inr v')
   \<and> \<not> names_auth_server (JStr LOOPBACK)
   \<and> (\<forall>path b. version_json_path mc_dir vid = Inr path
          \<and> nodes w (path @ ''.backup'') = Some b
        \<longrightarrow> nodes (snd (configure_offline_mode mc_dir vid w)) (path @ ''.backup'') = Some b)
   \<and> (\<forall>path w'. version_json_path mc_dir vid = Inr path
          \<and> nodes w (path @ ''.backup'') = None
          \<and> configure_offline_mode mc_dir vid w = (True, w')
        \<longrightarrow> nodes w' (path @ ''.backup'') = nodes w path)"
  using configure_offline_mode_again [of mc_dir vid w] patch_version_data_idem
    loopback_not_auth configure_offline_mode_keeps_backup [of mc_dir vid _ w]
    configure_offline_mode_backs_up [of mc_dir vid _ w]
  by blast

theorem configure_offline_mode_idempotent_witness:
  "configure_offline_mode (JStr ''/mc'') (JStr ''1.20.1'')
     (snd (configure_offline_mode (JStr ''/mc'') (JStr ''1.20.1'')
             (world_with_manifest example_manifest)))
     = (True, example_world\<lparr>nodes :=
          [manifest_path \<mapsto> File (Json patched_manifest),
           manifest_path @ ''.backup'' \<mapsto> File (Json example_manifest)]\<rparr>)
   \<and> patch_version_data example_manifest = Inr patched_manifest
   \<and> patch_version_data patched_manifest = Inr patched_manifest
   \<and> nodes (world_with_manifest example_manifest) (manifest_path @ ''.backup'') = None
   \<and> nodes (snd (configure_offline_mode (JStr ''/mc'') (JStr ''1.20.1'')
                   (world_with_manifest example_manifest))) (manifest_path @ ''.backup'')
       = Some (File (Json example_manifest))
   \<and> nodes (snd (configure_offline_mode (JStr ''/mc'') (JStr ''1.20.1'')
                   (snd (configure_offline_mode (JStr ''/mc'') (JStr ''1.20.1'')
                           (world_with_manifest example_manifest)))))
        (manifest_path @ ''.backup'')
       = Some (File (Json example_manifest))"
proof -
  let ?w = "world_with_manifest example_manifest"
  let ?c = "configure_offline_mode (JStr ''/mc'') (JStr ''1.20.1'')"
  note main = configure_offline_mode_idempotent [of "JStr ''/mc''" "JStr ''1.20.1''"]
  note twice = main [THEN conjunct1]
  note settled = main [THEN conjunct2, THEN conjunct1, rule_format]
  note kept = main [THEN conjunct2, THEN conjunct2, THEN conjunct2, THEN conjunct1, rule_format]
  note made = main [THEN conjunct2, THEN conjunct2, THEN conjunct2, THEN conjunct2, rule_format]
  have nb: "nodes ?w (manifest_path @ ''.backup'') = None"
    by (simp add: world_with_manifest_def manifest_path_def)
  have n: "nodes ?w manifest_path = Some (File (Json example_manifest))"
    by (simp add: world_with_manifest_def)
  have again: "?c (snd (?c ?w)) = ?c ?w" by (rule twice)
  have "nodes (snd (?c ?w)) (manifest_path @ ''.backup'') = nodes ?w manifest_path"
    unfolding example_configure snd_conv
    by (rule made [of manifest_path ?w]) (simp add: example_manifest_path nb example_configure)
  with n have b1: "nodes (snd (?c ?w)) (manifest_path @ ''.backup'')
      = Some (File (Json example_manifest))"
    by simp
  have b2: "nodes (snd (?c (snd (?c ?w)))) (manifest_path @ ''.backup'')
              = Some (File (Json example_manifest))"
    by (rule kept [of manifest_path "snd (?c ?w)"]) (simp add: example_manifest_path b1)
  have fixed: "patch_version_data patched_manifest = Inr patched_manifest"
    by (rule settled [OF example_manifest_patched])
  from again b1 b2 nb fixed example_manifest_patched show ?thesis
    by (simp add: example_configure)
qed
section \<open>Properties of the profile operations\<close>

lemma collect_Inr_iff: "collect f xs = Inr ys \<longleftrightarrow> list_all2 (\<lambda>x y. f x = Inr y) xs ys"
proof (induction xs arbitrary: ys)
  case Nil
  then show ?case by auto
next
  case (Cons x xs)
  show ?case
    by (cases ys; cases "f x"; cases "collect f xs")
       (auto simp: and_then_def Cons.IH [symmetric])
qed

lemma collect_append:
  "collect f (xs @ zs) = and_then (collect f xs) (\<lambda>a. and_then (collect f zs) (\<lambda>b. Inr (a @ b)))"
  by (induction xs) (auto simp: and_then_def split: sum.splits)

lemma collect_length: "collect f xs = Inr ys \<Longrightarrow> length ys = length xs"
  by (auto simp: collect_Inr_iff dest: list_all2_lengthD)

lemma collect_nth: "collect f xs = Inr ys \<Longrightarrow> i < length xs \<Longrightarrow> f (xs ! i) = Inr (ys ! i)"
  by (auto simp: collect_Inr_iff dest: list_all2_nthD)

lemma collect_others:
  "collect f xs = Inr ys \<Longrightarrow> collect f (others i xs) = Inr (others i ys)"
  unfolding collect_Inr_iff others_def
  by (intro list_all2_appendI list_all2_takeI list_all2_dropI)

lemma collect_update:
  "collect f xs = Inr ys \<Longrightarrow> f x = Inr y \<Longrightarrow> collect f (xs[i := x]) = Inr (ys[i := y])"
  unfolding collect_Inr_iff by (simp add: list_all2_update_cong)

lemma collect_member:
  "collect f xs = Inr ys \<Longrightarrow> x \<in> set xs \<Longrightarrow> f x = Inr y \<Longrightarrow> y \<in> set ys"
  by (auto simp add: collect_Inr_iff list_all2_conv_all_nth in_set_conv_nth)

lemma distinct_others: "distinct xs \<Longrightarrow> distinct (others i xs)"
  unfolding others_def
  by (metis append_take_drop_id distinct_append distinct_drop drop_Suc tl_drop distinct_take
      set_take_disj_set_drop_if_distinct le_SucI order_refl)

lemma nth_not_in_others:
  assumes "distinct ys" and "i < length ys"
  shows "ys ! i \<notin> set (others i ys)"
proof -
  have "ys = take i ys @ ys ! i # drop (Suc i) ys"
    using assms(2) by (simp add: id_take_nth_drop)
  then have "distinct (take i ys @ ys ! i # drop (Suc i) ys)"
    using assms(1) by simp
  then show ?thesis
    by (auto simp add: others_def)
qed

lemma lowered_name_cases:
  "lowered_name p = Inr n \<longleftrightarrow>
     (\<exists>kvs. p = JObj kvs \<and>
        (case map_of kvs ''name'' of None \<Rightarrow> n = []
         | Some v \<Rightarrow> (\<exists>name. v = JStr name \<and> n = py_lower name)))"
  by (cases p)
     (auto simp: lowered_name_def and_then_def py_lower_def split: option.splits json.splits)

lemma lowered_name_of_get:
  "py_get p ''name'' JNull = Inr (JStr original) \<Longrightarrow> lowered_name p = Inr (py_lower original)"
  by (cases p) (auto simp: lowered_name_def and_then_def split: option.splits)

lemma get_name_truthy: "py_get p ''name'' JNull = Inr (JStr original) \<Longrightarrow> truthy p"
  by (cases p) (auto split: option.splits)

lemma unique_names_collect:
  "unique_names ps \<longleftrightarrow> (\<exists>names. collect lowered_name ps = Inr names \<and> distinct names)"
  by (auto simp: unique_names_def split: sum.splits)

lemma unique_names_member:
  assumes "unique_names ps" and "p \<in> set ps"
  shows "\<exists>n. lowered_name p = Inr n"
proof -
  from assms(1) obtain names where "collect lowered_name ps = Inr names"
    by (auto simp: unique_names_collect)
  with assms(2) show ?thesis
    by (auto simp: collect_Inr_iff in_set_conv_nth list_all2_conv_all_nth)
qed

lemma unique_names_snoc:
  assumes "collect lowered_name ps = Inr names" and "distinct names"
    and "lowered_name p = Inr n" and "n \<notin> set names"
  shows "unique_names (ps @ [p])"
  using assms by (simp add: unique_names_def collect_append and_then_def)

lemma distinct_update_others:
  assumes "distinct xs" and "i < length xs" and "y \<notin> set (others i xs)"
  shows "distinct (xs[i := y])"
proof -
  from distinct_others [OF assms(1), of i] have "distinct (take i xs @ drop (Suc i) xs)"
    by (simp add: others_def)
  with assms(3) have "distinct (take i xs @ y # drop (Suc i) xs)"
    by (auto simp: others_def)
  with assms(2) show ?thesis by (simp add: upd_conv_take_nth_drop)
qed

lemma selected_Some:
  "selected s = Some (i, p) \<longleftrightarrow>
     current_selected_profile s = Some i \<and> i < length (profiles s) \<and> p = profiles s ! i"
  by (auto simp: selected_def split: option.splits)

lemma first_index_Some: "first_index P xs = Some j \<Longrightarrow> j < length xs \<and> P (xs ! j)"
  by (induction xs arbitrary: j) (auto split: if_splits)

lemma set_others: "set (others j xs) \<subseteq> set xs"
  by (auto simp: others_def dest: in_set_takeD in_set_dropD)

lemma bounded_range: "lo \<le> hi \<Longrightarrow> lo \<le> bounded lo hi v \<and> bounded lo hi v \<le> hi"
  by (auto simp: bounded_def)

lemma ranged_spinbox:
  "minimum (setRange 1 16 QSpinBox) = 1 \<and> maximum (setRange 1 16 QSpinBox) = 16
   \<and> spin_value (setRange 1 16 QSpinBox) = 1"
  by (simp add: setRange_def QSpinBox_def bounded_def)

lemma spinbox_entries:
  assumes "minimum sb = 1" "maximum sb = 16" "1 \<le> spin_value sb" "spin_value sb \<le> 16"
  shows "minimum (foldl (\<lambda>sb v. setValue v sb) sb entries) = 1
     \<and> maximum (foldl (\<lambda>sb v. setValue v sb) sb entries) = 16
     \<and> 1 \<le> spin_value (foldl (\<lambda>sb v. setValue v sb) sb entries)
     \<and> spin_value (foldl (\<lambda>sb v. setValue v sb) sb entries) \<le> 16"
  using assms
proof (induction entries arbitrary: sb)
  case Nil
  then show ?case by simp
next
  case (Cons v entries)
  have "minimum (setValue v sb) = 1" "maximum (setValue v sb) = 16"
    "1 \<le> spin_value (setValue v sb)" "spin_value (setValue v sb) \<le> 16"
    using Cons.prems by (simp_all add: setValue_def bounded_def)
  from Cons.IH [OF this] show ?case by simp
qed

lemma memory_spinbox_range:
  "1 \<le> spin_value (memory_spinbox existing entries)
   \<and> spin_value (memory_spinbox existing entries) \<le> 16"
  unfolding memory_spinbox_def
  using spinbox_entries [of "setRange 1 16 QSpinBox"
      "(case existing of None \<Rightarrow> [] | Some m \<Rightarrow> [m]) @ entries"] ranged_spinbox
  by (simp del: foldl_append)

lemma get_profile_data_shape:
  assumes "get_profile_data existing d = Some new_data"
  shows "\<exists>v u m. new_data = JObj [(''name'', JStr (py_strip (entered_name d))),
                     (''version_id'', JStr v), (''username'', JStr u), (''memory_gb'', JInt m)]
           \<and> py_strip (entered_name d) \<noteq> [] \<and> v \<noteq> [] \<and> 1 \<le> m \<and> m \<le> 16"
  using assms memory_spinbox_range [of existing "entered_memory d"]
  by (auto simp: get_profile_data_def Let_def split: if_splits option.splits)

lemma get_profile_data_name:
  assumes "get_profile_data existing d = Some new_data"
  shows "data_name new_data = py_strip (entered_name d)"
    "lowered_name new_data = Inr (py_lower (data_name new_data))"
    "memory_in_range new_data"
    "truthy new_data"
  using get_profile_data_shape [OF assms]
  by (auto simp: data_name_def lowered_name_def and_then_def memory_in_range_def)

lemma setitem_keeps_name:
  "py_setitem p field v = Inr p' \<Longrightarrow> field \<noteq> ''name'' \<Longrightarrow> lowered_name p' = lowered_name p"
  by (cases p) (auto simp: lowered_name_def and_then_def update_conv')

lemma setitem_keeps_memory:
  "py_setitem p field v = Inr p' \<Longrightarrow> field \<noteq> ''memory_gb'' \<Longrightarrow>
     memory_in_range p' = memory_in_range p"
  by (cases p) (auto simp: memory_in_range_def update_conv')

lemma setitem_sets_memory:
  "py_setitem p ''memory_gb'' (JInt n) = Inr p' \<Longrightarrow> memory_in_range p' = (1 \<le> n \<and> n \<le> 16)"
  by (cases p) (auto simp: memory_in_range_def update_conv')

lemma memory_bounded_update:
  "memory_bounded ps \<Longrightarrow> memory_in_range p \<Longrightarrow> memory_bounded (ps[i := p])"
  by (auto simp: memory_bounded_def list_all_iff dest: set_update_subset_insert [THEN subsetD])

lemma update_profile_field_cases:
  assumes "update_profile_field field v s = Inr s'"
  shows "profiles s' = profiles s
     \<or> (\<exists>i p p'. selected s = Some (i, p) \<and> py_setitem p field v = Inr p'
           \<and> profiles s' = (profiles s)[i := p'])"
proof (cases "selected s")
  case None
  with assms show ?thesis by (simp add: update_profile_field_def)
next
  case (Some ip)
  obtain i p where ip: "ip = (i, p)" by (cases ip)
  show ?thesis
  proof (cases "truthy p")
    case False
    with Some ip assms show ?thesis by (simp add: update_profile_field_def)
  next
    case True
    with Some ip assms obtain p' where "py_setitem p field v = Inr p'"
      and "profiles s' = (profiles s)[i := p']"
      by (auto simp: update_profile_field_def and_then_def Let_def split: sum.splits prod.splits)
    with Some ip show ?thesis by auto
  qed
qed

lemmas window_defs =
  add_profile_def edit_profile_def delete_profile_def update_profile_field_def
  username_edited_def memory_edited_def profile_chosen_def closeEvent_def save_settings_def
  update_profile_list_def on_profile_selected_def username_input_setText_def
  memory_spinbox_setValue_def currentText_def index_to_select_def item_text_def
  lowered_name_def data_name_def selected_def python_settings_def accepted_def
  get_profile_data_def memory_spinbox_def populate_def setRange_def setValue_def QSpinBox_def
  bounded_def py_strip_def is_space_def py_lower_def lower_char_def py_remove_def others_def
  and_then_def write_json_def after_failed_write_def version_json_path_def path_join_def

lemmas window_example_defs =
  profile_alpha_def profile_alpha_lower_def profile_greedy_def profile_beta_def
  settings_with_def dialog_beta_def dialog_ALPHA_def window_with_def returned_def
  example_world_def world_with_settings_def


lemma and_then_Inr: "and_then m f = Inr y \<longleftrightarrow> (\<exists>x. m = Inr x \<and> f x = Inr y)"
  by (cases m) (simp_all add: and_then_def)

text \<open>\<^verbatim>\<open>update_profile_field\<close> writes to the list of profiles, the settings and the files,
  and to nothing else.\<close>

lemma update_profile_field_frame:
  assumes "update_profile_field field v s = Inr s'"
  shows "\<exists>ps st w. s' = s\<lparr>profiles := ps, settings := st, files := w\<rparr>"
proof (cases "selected s")
  case None
  with assms have "s' = s\<lparr>profiles := profiles s, settings := settings s, files := files s\<rparr>"
    by (simp add: update_profile_field_def)
  then show ?thesis by blast
next
  case (Some ip)
  obtain i p where ip: "ip = (i, p)" by (cases ip)
  show ?thesis
  proof (cases "truthy p")
    case False
    with Some ip assms
    have "s' = s\<lparr>profiles := profiles s, settings := settings s, files := files s\<rparr>"
      by (simp add: update_profile_field_def)
    then show ?thesis by blast
  next
    case True
    with Some ip assms show ?thesis
      by (auto simp: update_profile_field_def and_then_Inr Let_def split: prod.splits)
  qed
qed

lemma map_lowered_name_update:
  assumes "i < length ps" and "lowered_name p' = lowered_name (ps ! i)"
  shows "map lowered_name (ps[i := p']) = map lowered_name ps"
  using assms by (simp add: map_update list_update_same_conv)

lemma update_profile_field_names:
  assumes "update_profile_field field v s = Inr s'" and "field \<noteq> ''name''"
  shows "map lowered_name (profiles s') = map lowered_name (profiles s)"
  using update_profile_field_cases [OF assms(1)]
proof
  assume "profiles s' = profiles s"
  then show ?thesis by simp
next
  assume "\<exists>i p p'. selected s = Some (i, p) \<and> py_setitem p field v = Inr p'
           \<and> profiles s' = (profiles s)[i := p']"
  then obtain i p p' where sel: "selected s = Some (i, p)"
    and set: "py_setitem p field v = Inr p'" and s': "profiles s' = (profiles s)[i := p']"
    by blast
  from sel have i: "i < length (profiles s)" and p: "p = profiles s ! i"
    by (simp_all add: selected_Some)
  from setitem_keeps_name [OF set assms(2)] p
  have "lowered_name p' = lowered_name (profiles s ! i)" by simp
  from map_lowered_name_update [OF i this] s' show ?thesis by simp
qed

lemma update_profile_field_bounded:
  assumes "update_profile_field field v s = Inr s'" and "memory_bounded (profiles s)"
    and "field = ''memory_gb'' \<Longrightarrow> \<exists>n. v = JInt n \<and> 1 \<le> n \<and> n \<le> 16"
  shows "memory_bounded (profiles s')"
  using update_profile_field_cases [OF assms(1)]
proof
  assume "profiles s' = profiles s"
  with assms(2) show ?thesis by simp
next
  assume "\<exists>i p p'. selected s = Some (i, p) \<and> py_setitem p field v = Inr p'
           \<and> profiles s' = (profiles s)[i := p']"
  then obtain i p p' where sel: "selected s = Some (i, p)"
    and set: "py_setitem p field v = Inr p'" and s': "profiles s' = (profiles s)[i := p']"
    by blast
  from sel assms(2) have old: "memory_in_range p"
    by (auto simp: selected_Some memory_bounded_def list_all_iff)
  have "memory_in_range p'"
  proof (cases "field = ''memory_gb''")
    case True
    with assms(3) obtain n where "v = JInt n" "1 \<le> n" "n \<le> 16" by blast
    with setitem_sets_memory [of p n p'] set True show ?thesis by simp
  next
    case False
    with setitem_keeps_memory [OF set] old show ?thesis by simp
  qed
  with assms(2) show ?thesis by (simp add: s' memory_bounded_update)
qed

lemma setValue_ranged: "ranged sb \<Longrightarrow> ranged (setValue v sb)"
  by (simp add: ranged_def setValue_def bounded_def)

lemma refresh_names:
  "refresh s s' \<Longrightarrow> map lowered_name (profiles s') = map lowered_name (profiles s)"
  by (induction rule: refresh.induct) (auto dest: update_profile_field_names)

lemma refresh_install:
  "refresh s s' \<Longrightarrow>
     workers s' = workers s \<and> install_thread_ref s' = install_thread_ref s
     \<and> queued s' = queued s \<and> shown s' = shown s \<and> close_accepted s' = close_accepted s
     \<and> window_dir s' = window_dir s
     \<and> last_selected_profile_name s' = last_selected_profile_name s"
  by (induction rule: refresh.induct) (auto dest!: update_profile_field_frame)

lemma refresh_spinbox:
  "refresh s s' \<Longrightarrow> ranged (window_spinbox s) \<Longrightarrow>
     ranged (window_spinbox s')
     \<and> (memory_bounded (profiles s) \<longrightarrow> memory_bounded (profiles s'))"
proof (induction rule: refresh.induct)
  case (memory s s1 s')
  from memory.IH [OF memory.prems] have r: "ranged (window_spinbox s1)"
    and b: "memory_bounded (profiles s) \<longrightarrow> memory_bounded (profiles s1)" by simp_all
  from update_profile_field_frame [OF memory.hyps(2)] r have "ranged (window_spinbox s')"
    by auto
  moreover have "memory_bounded (profiles s')" if "memory_bounded (profiles s)"
  proof (rule update_profile_field_bounded [OF memory.hyps(2)])
    from that b show "memory_bounded (profiles s1)" by simp
    show "\<exists>n. JInt (spin_value (window_spinbox s1)) = JInt n \<and> 1 \<le> n \<and> n \<le> 16"
      using r by (simp add: ranged_def)
  qed
  ultimately show ?case by simp
next
  case (username s s1 entry s')
  from username.IH [OF username.prems] have r: "ranged (window_spinbox s1)"
    and b: "memory_bounded (profiles s) \<longrightarrow> memory_bounded (profiles s1)" by simp_all
  from update_profile_field_frame [OF username.hyps(2)] r have "ranged (window_spinbox s')"
    by auto
  moreover have "memory_bounded (profiles s')" if "memory_bounded (profiles s)"
    by (rule update_profile_field_bounded [OF username.hyps(2)]) (use that b in simp_all)
  ultimately show ?case by simp
qed (simp_all add: setValue_ranged)

lemma refresh_trans: "refresh s1 s2 \<Longrightarrow> refresh s s1 \<Longrightarrow> refresh s s2"
  by (induction rule: refresh.induct) (auto intro: refresh.intros)

lemma username_input_setText_refresh:
  assumes "username_input_setText entry s = Inr s'"
  shows "refresh s s'"
proof -
  have "refresh s (s\<lparr>username_input := entry\<rparr>)"
    by (intro refresh.line_edit refresh.same)
  with assms show ?thesis
    by (auto simp: username_input_setText_def Let_def split: if_splits
             intro: refresh.username)
qed

lemma memory_spinbox_setValue_refresh:
  assumes "memory_spinbox_setValue entry s = Inr s'"
  shows "refresh s s'"
proof -
  let ?s1 = "s\<lparr>window_spinbox := setValue entry (window_spinbox s)\<rparr>"
  have r: "refresh s ?s1"
    by (intro refresh.spin refresh.same)
  show ?thesis
  proof (cases "spin_value (setValue entry (window_spinbox s)) \<noteq> spin_value (window_spinbox s)
                \<and> fields_connected s")
    case False
    with assms r show ?thesis
      by (auto simp: memory_spinbox_setValue_def Let_def)
  next
    case True
    with assms have "update_profile_field ''memory_gb''
        (JInt (spin_value (window_spinbox ?s1))) ?s1 = Inr s'"
      by (simp add: memory_spinbox_setValue_def Let_def)
    from refresh.memory [OF r this] show ?thesis .
  qed
qed

lemma on_profile_selected_refresh:
  assumes "on_profile_selected index s = Inr s'"
  shows "refresh s s'"
proof (cases index)
  case None
  with assms obtain s1 where
    t: "username_input_setText [] (s\<lparr>current_selected_profile := None\<rparr>) = Inr s1"
    and v: "memory_spinbox_setValue 2 s1 = Inr s'"
    by (auto simp: on_profile_selected_def and_then_Inr)
  have "refresh s (s\<lparr>current_selected_profile := None\<rparr>)"
    by (intro refresh.selection refresh.same)
  from refresh_trans [OF username_input_setText_refresh [OF t] this]
  have "refresh s s1" .
  from refresh_trans [OF memory_spinbox_setValue_refresh [OF v] this] show ?thesis .
next
  case (Some i)
  with assms obtain found where
    f: "find_named (JStr (currentText s)) (profiles s) = Inr found"
    by (auto simp: on_profile_selected_def and_then_Inr)
  show ?thesis
  proof (cases found)
    case None
    with Some f assms have "s' = s\<lparr>current_selected_profile := None\<rparr>"
      by (simp add: on_profile_selected_def and_then_def)
    then show ?thesis by (simp add: refresh.selection refresh.same)
  next
    case k: (Some k)
    with Some f assms obtain entry s1 gb s2 where
      t: "username_input_setText entry (s\<lparr>current_selected_profile := Some k\<rparr>) = Inr s1"
      and v: "memory_spinbox_setValue gb s1 = Inr s2"
      and s': "s' = s2\<lparr>fields_connected := True\<rparr>"
      by (auto simp: on_profile_selected_def and_then_Inr split: if_splits)
    have "refresh s (s\<lparr>current_selected_profile := Some k\<rparr>)"
      by (intro refresh.selection refresh.same)
    from refresh_trans [OF username_input_setText_refresh [OF t] this]
    have "refresh s s1" .
    from refresh_trans [OF memory_spinbox_setValue_refresh [OF v] this]
    have "refresh s s2" .
    with s' show ?thesis by (simp add: refresh.connection)
  qed
qed

lemma update_profile_list_refresh:
  assumes "update_profile_list s = Inr s'"
  shows "refresh s s'"
proof -
  from assms obtain items idx where
    o: "on_profile_selected idx (s\<lparr>combo_items := items, combo_index := idx\<rparr>) = Inr s'"
    by (auto simp: update_profile_list_def and_then_Inr split: if_splits)
  have "refresh s (s\<lparr>combo_items := items, combo_index := idx\<rparr>)"
    by (intro refresh.combo refresh.same)
  from refresh_trans [OF on_profile_selected_refresh [OF o] this] show ?thesis .
qed

lemma profile_chosen_refresh:
  assumes "profile_chosen i s = Inr s'"
  shows "refresh s s'"
proof (cases "i < length (combo_items s) \<and> combo_index s \<noteq> Some i")
  case False
  with assms show ?thesis by (auto simp: profile_chosen_def refresh.same)
next
  case True
  with assms have o: "on_profile_selected (Some i) (s\<lparr>combo_index := Some i\<rparr>) = Inr s'"
    by (simp add: profile_chosen_def)
  have "refresh s (s\<lparr>combo_items := combo_items s, combo_index := Some i\<rparr>)"
    by (intro refresh.combo refresh.same)
  then have "refresh s (s\<lparr>combo_index := Some i\<rparr>)" by simp
  from refresh_trans [OF on_profile_selected_refresh [OF o] this] show ?thesis .
qed

lemma username_edited_refresh: "username_edited entry s = Inr s' \<Longrightarrow> refresh s s'"
  unfolding username_edited_def by (rule username_input_setText_refresh)

lemma memory_edited_refresh: "memory_edited entry s = Inr s' \<Longrightarrow> refresh s s'"
  unfolding memory_edited_def by (rule memory_spinbox_setValue_refresh)

lemma collect_map: "collect f xs = collect (\<lambda>y. y) (map f xs)"
  by (induction xs) simp_all

lemma unique_names_map:
  "map lowered_name ps' = map lowered_name ps \<Longrightarrow> unique_names ps' = unique_names ps"
  unfolding unique_names_def by (subst (1 2) collect_map) simp

lemma refresh_unique:
  "refresh s s' \<Longrightarrow> unique_names (profiles s') = unique_names (profiles s)"
  by (rule unique_names_map) (rule refresh_names)

lemma refresh_bounded:
  assumes "refresh s s'" and "ranged (window_spinbox s)" and "memory_bounded (profiles s)"
  shows "ranged (window_spinbox s')" and "memory_bounded (profiles s')"
  using refresh_spinbox [OF assms(1,2)] assms(3) by simp_all

text \<open>What \<^verbatim>\<open>add_profile\<close> does: nothing but perhaps a message box, or the new profile is
  put at the end of the list, and then only when its lowered name is not among the
  lowered names, and the combo box and the selection are refreshed.\<close>

lemma add_profile_cases:
  assumes "add_profile d s = Inr s'"
  shows "(\<exists>boxes. s' = s\<lparr>shown := boxes\<rparr>)
     \<or> (\<exists>new_data names. get_profile_data None d = Some new_data
           \<and> collect lowered_name (profiles s) = Inr names
           \<and> py_lower (data_name new_data) \<notin> set names
           \<and> refresh (s\<lparr>profiles := profiles s @ [new_data],
                         last_selected_profile_name := JStr (data_name new_data)\<rparr>) s')"
proof (cases "accepted None d")
  case False
  with assms have "s' = s\<lparr>shown := shown s\<rparr>" by (simp add: add_profile_def)
  then show ?thesis by blast
next
  case True
  then obtain new_data where nd: "get_profile_data None d = Some new_data"
    by (auto simp: accepted_def)
  with True assms obtain names where names: "collect lowered_name (profiles s) = Inr names"
    by (auto simp: add_profile_def and_then_Inr)
  show ?thesis
  proof (cases "py_lower (data_name new_data) \<in> set names")
    case True
    with \<open>accepted None d\<close> nd names assms show ?thesis
      by (auto simp: add_profile_def and_then_def)
  next
    case False
    with \<open>accepted None d\<close> nd names assms
    have "update_profile_list (s\<lparr>profiles := profiles s @ [new_data],
            last_selected_profile_name := JStr (data_name new_data)\<rparr>) = Inr s'"
      by (simp add: add_profile_def and_then_def)
    from update_profile_list_refresh [OF this] nd names False show ?thesis by blast
  qed
qed

lemma add_profile_unique:
  assumes "unique_names (profiles s)" and "add_profile d s = Inr s'"
  shows "unique_names (profiles s')"
  using add_profile_cases [OF assms(2)]
proof
  assume "\<exists>boxes. s' = s\<lparr>shown := boxes\<rparr>"
  with assms(1) show ?thesis by auto
next
  assume "\<exists>new_data names. get_profile_data None d = Some new_data
           \<and> collect lowered_name (profiles s) = Inr names
           \<and> py_lower (data_name new_data) \<notin> set names
           \<and> refresh (s\<lparr>profiles := profiles s @ [new_data],
                         last_selected_profile_name := JStr (data_name new_data)\<rparr>) s'"
  then obtain new_data names where nd: "get_profile_data None d = Some new_data"
    and names: "collect lowered_name (profiles s) = Inr names"
    and fresh: "py_lower (data_name new_data) \<notin> set names"
    and r: "refresh (s\<lparr>profiles := profiles s @ [new_data],
                       last_selected_profile_name := JStr (data_name new_data)\<rparr>) s'"
    by blast
  from assms(1) names have "distinct names" by (simp add: unique_names_def)
  from unique_names_snoc [OF names this get_profile_data_name(2) [OF nd] fresh]
    refresh_unique [OF r]
  show ?thesis by simp
qed

lemma memory_bounded_snoc:
  "memory_bounded ps \<Longrightarrow> memory_in_range p \<Longrightarrow> memory_bounded (ps @ [p])"
  by (simp add: memory_bounded_def)

lemma add_profile_bounded:
  assumes "ranged (window_spinbox s)" and "memory_bounded (profiles s)"
    and "add_profile d s = Inr s'"
  shows "ranged (window_spinbox s') \<and> memory_bounded (profiles s')"
  using add_profile_cases [OF assms(3)]
proof
  assume "\<exists>boxes. s' = s\<lparr>shown := boxes\<rparr>"
  with assms(1,2) show ?thesis by auto
next
  assume "\<exists>new_data names. get_profile_data None d = Some new_data
           \<and> collect lowered_name (profiles s) = Inr names
           \<and> py_lower (data_name new_data) \<notin> set names
           \<and> refresh (s\<lparr>profiles := profiles s @ [new_data],
                         last_selected_profile_name := JStr (data_name new_data)\<rparr>) s'"
  then obtain new_data where nd: "get_profile_data None d = Some new_data"
    and r: "refresh (s\<lparr>profiles := profiles s @ [new_data],
                       last_selected_profile_name := JStr (data_name new_data)\<rparr>) s'"
    by blast
  from refresh_bounded [OF r] assms(1)
    memory_bounded_snoc [OF assms(2) get_profile_data_name(3) [OF nd]]
  show ?thesis by simp
qed

lemma add_profile_rejects:
  assumes "accepted None d" and "get_profile_data None d = Some new_data"
    and "collect lowered_name (profiles s) = Inr names"
    and "py_lower (data_name new_data) \<in> set names"
  shows "add_profile d s =
           Inr (s\<lparr>shown := shown s @
                  [(Warning_box, ''Error'',
                    [Lit ''A profile named '', Fmt (JStr (data_name new_data)),
                     Lit '' already exists.''])]\<rparr>)"
  using assms by (simp add: add_profile_def and_then_def)

text \<open>What \<^verbatim>\<open>edit_profile\<close> does: nothing but perhaps a message box, or the selected profile
  is replaced by the dialog's data, and then only when the lowered name stays or is not
  among the lowered names of the other profiles, and the combo box and the selection
  are refreshed.\<close>

lemma edit_profile_cases:
  assumes "edit_profile d s = Inr s'"
  shows "(\<exists>boxes. s' = s\<lparr>shown := boxes\<rparr>)
     \<or> (\<exists>i p original memory updated_data.
           selected s = Some (i, p)
           \<and> py_get p ''name'' JNull = Inr (JStr original)
           \<and> populate p = Inr memory
           \<and> get_profile_data (Some memory) d = Some updated_data
           \<and> (py_lower (data_name updated_data) = py_lower original
                \<or> (\<exists>names. collect lowered_name (others i (profiles s)) = Inr names
                      \<and> py_lower (data_name updated_data) \<notin> set names))
           \<and> refresh (s\<lparr>profiles := (profiles s)[i := updated_data],
                         last_selected_profile_name := JStr (data_name updated_data)\<rparr>) s')"
proof (cases "selected s")
  case None
  with assms have "s' = s\<lparr>shown := shown s\<rparr>" by (simp add: edit_profile_def)
  then show ?thesis by blast
next
  case (Some ip)
  obtain i p where ip: "ip = (i, p)" by (cases ip)
  show ?thesis
  proof (cases "truthy p")
    case False
    with Some ip assms have "s' = s\<lparr>shown := shown s\<rparr>" by (simp add: edit_profile_def)
    then show ?thesis by blast
  next
    case True
    with Some ip assms obtain original_name memory where
      o: "py_get p ''name'' JNull = Inr original_name" and m: "populate p = Inr memory"
      by (auto simp: edit_profile_def and_then_Inr)
    show ?thesis
    proof (cases "accepted (Some memory) d")
      case False
      with Some ip True o m assms have "s' = s\<lparr>shown := shown s\<rparr>"
        by (simp add: edit_profile_def and_then_def)
      then show ?thesis by blast
    next
      case acc: True
      then obtain updated_data where u: "get_profile_data (Some memory) d = Some updated_data"
        by (auto simp: accepted_def)
      with Some ip True o m acc assms obtain original where on: "original_name = JStr original"
        by (cases original_name) (auto simp: edit_profile_def and_then_def)
      show ?thesis
      proof (cases "py_lower (data_name updated_data) = py_lower original")
        case same: True
        with Some ip True o m acc u on assms
        have "update_profile_list (s\<lparr>profiles := (profiles s)[i := updated_data],
                last_selected_profile_name := JStr (data_name updated_data)\<rparr>) = Inr s'"
          by (simp add: edit_profile_def and_then_def)
        from update_profile_list_refresh [OF this] Some ip o m u on same show ?thesis
          by auto
      next
        case different: False
        with Some ip True o m acc u on assms obtain names where
          names: "collect lowered_name (others i (profiles s)) = Inr names"
          by (auto simp: edit_profile_def and_then_def split: sum.splits)
        show ?thesis
        proof (cases "py_lower (data_name updated_data) \<in> set names")
          case True
          with Some ip \<open>truthy p\<close> o m acc u on different names assms
          show ?thesis
            by (auto simp: edit_profile_def and_then_def)
        next
          case False
          with Some ip \<open>truthy p\<close> o m acc u on different names assms
          have "update_profile_list (s\<lparr>profiles := (profiles s)[i := updated_data],
                  last_selected_profile_name := JStr (data_name updated_data)\<rparr>) = Inr s'"
            by (simp add: edit_profile_def and_then_def)
          from update_profile_list_refresh [OF this] Some ip o m u on names False
          show ?thesis by auto
        qed
      qed
    qed
  qed
qed

lemma edit_profile_unique:
  assumes "unique_names (profiles s)" and "edit_profile d s = Inr s'"
  shows "unique_names (profiles s')"
  using edit_profile_cases [OF assms(2)]
proof
  assume "\<exists>boxes. s' = s\<lparr>shown := boxes\<rparr>"
  with assms(1) show ?thesis by auto
next
  assume "\<exists>i p original memory updated_data.
           selected s = Some (i, p)
           \<and> py_get p ''name'' JNull = Inr (JStr original)
           \<and> populate p = Inr memory
           \<and> get_profile_data (Some memory) d = Some updated_data
           \<and> (py_lower (data_name updated_data) = py_lower original
                \<or> (\<exists>names. collect lowered_name (others i (profiles s)) = Inr names
                      \<and> py_lower (data_name updated_data) \<notin> set names))
           \<and> refresh (s\<lparr>profiles := (profiles s)[i := updated_data],
                         last_selected_profile_name := JStr (data_name updated_data)\<rparr>) s'"
  then obtain i p original memory updated_data where
    sel: "selected s = Some (i, p)" and
    o: "py_get p ''name'' JNull = Inr (JStr original)" and
    u: "get_profile_data (Some memory) d = Some updated_data" and
    ok: "py_lower (data_name updated_data) = py_lower original
          \<or> (\<exists>names. collect lowered_name (others i (profiles s)) = Inr names
                \<and> py_lower (data_name updated_data) \<notin> set names)" and
    r: "refresh (s\<lparr>profiles := (profiles s)[i := updated_data],
                   last_selected_profile_name := JStr (data_name updated_data)\<rparr>) s'"
    by blast
  from assms(1) obtain all_names where
    an: "collect lowered_name (profiles s) = Inr all_names" and d: "distinct all_names"
    by (auto simp: unique_names_collect)
  from sel have i: "i < length (profiles s)" and p: "p = profiles s ! i"
    by (simp_all add: selected_Some)
  from collect_nth [OF an i] lowered_name_of_get [OF o] p
  have ni: "all_names ! i = py_lower original" by simp
  from collect_length [OF an] i have il: "i < length all_names" by simp
  from collect_update [OF an get_profile_data_name(2) [OF u], of i]
  have new: "collect lowered_name ((profiles s)[i := updated_data]) =
      Inr (all_names[i := py_lower (data_name updated_data)])" .
  from ok have "distinct (all_names[i := py_lower (data_name updated_data)])"
  proof
    assume "py_lower (data_name updated_data) = py_lower original"
    with ni have "all_names[i := py_lower (data_name updated_data)] = all_names"
      by (metis list_update_id)
    with d show ?thesis by simp
  next
    assume "\<exists>names. collect lowered_name (others i (profiles s)) = Inr names
                \<and> py_lower (data_name updated_data) \<notin> set names"
    with collect_others [OF an, of i]
    have "py_lower (data_name updated_data) \<notin> set (others i all_names)" by auto
    from distinct_update_others [OF d il this] show ?thesis .
  qed
  with new have "unique_names ((profiles s)[i := updated_data])"
    by (simp add: unique_names_def)
  with refresh_unique [OF r] show ?thesis by simp
qed

lemma edit_profile_bounded:
  assumes "ranged (window_spinbox s)" and "memory_bounded (profiles s)"
    and "edit_profile d s = Inr s'"
  shows "ranged (window_spinbox s') \<and> memory_bounded (profiles s')"
  using edit_profile_cases [OF assms(3)]
proof
  assume "\<exists>boxes. s' = s\<lparr>shown := boxes\<rparr>"
  with assms(1,2) show ?thesis by auto
next
  assume "\<exists>i p original memory updated_data.
           selected s = Some (i, p)
           \<and> py_get p ''name'' JNull = Inr (JStr original)
           \<and> populate p = Inr memory
           \<and> get_profile_data (Some memory) d = Some updated_data
           \<and> (py_lower (data_name updated_data) = py_lower original
                \<or> (\<exists>names. collect lowered_name (others i (profiles s)) = Inr names
                      \<and> py_lower (data_name updated_data) \<notin> set names))
           \<and> refresh (s\<lparr>profiles := (profiles s)[i := updated_data],
                         last_selected_profile_name := JStr (data_name updated_data)\<rparr>) s'"
  then obtain i memory updated_data where
    u: "get_profile_data (Some memory) d = Some updated_data" and
    r: "refresh (s\<lparr>profiles := (profiles s)[i := updated_data],
                   last_selected_profile_name := JStr (data_name updated_data)\<rparr>) s'"
    by blast
  from refresh_bounded [OF r] assms(1)
    memory_bounded_update [OF assms(2) get_profile_data_name(3) [OF u], of i]
  show ?thesis by simp
qed

lemma edit_profile_rejects:
  assumes "selected s = Some (i, p)" and "truthy p"
    and "py_get p ''name'' JNull = Inr (JStr original)" and "populate p = Inr memory"
    and "save_pressed d" and "get_profile_data (Some memory) d = Some updated_data"
    and "py_lower (data_name updated_data) \<noteq> py_lower original"
    and "collect lowered_name (others i (profiles s)) = Inr names"
    and "py_lower (data_name updated_data) \<in> set names"
  shows "edit_profile d s =
           Inr (s\<lparr>shown := shown s @
                  [(Warning_box, ''Error'',
                    [Lit ''Another profile named '', Fmt (JStr (data_name updated_data)),
                     Lit '' already exists.''])]\<rparr>)"
  using assms by (simp add: edit_profile_def and_then_def accepted_def)

text \<open>What \<^verbatim>\<open>delete_profile\<close> does: nothing but the question box, or one profile is taken
  out of the list, and the combo box and the selection are refreshed.\<close>

lemma delete_profile_cases:
  assumes "delete_profile yes s = Inr s'"
  shows "(\<exists>boxes. s' = s\<lparr>shown := boxes\<rparr>)
     \<or> (\<exists>j boxes. j < length (profiles s)
           \<and> refresh (s\<lparr>shown := boxes, profiles := others j (profiles s),
                         current_selected_profile := None,
                         last_selected_profile_name := JNull\<rparr>) s')"
proof (cases "selected s")
  case None
  with assms have "s' = s\<lparr>shown := shown s\<rparr>" by (simp add: delete_profile_def)
  then show ?thesis by blast
next
  case (Some ip)
  obtain i p where ip: "ip = (i, p)" by (cases ip)
  show ?thesis
  proof (cases "truthy p \<and> yes")
    case False
    with Some ip assms have "\<exists>boxes. s' = s\<lparr>shown := boxes\<rparr>"
      by (cases "truthy p")
         (auto simp: delete_profile_def and_then_Inr Let_def
               intro: exI [of _ "shown s"])
    then show ?thesis ..
  next
    case True
    with Some ip assms obtain remaining boxes s1 where
      r: "py_remove (profiles s) p = Inr remaining" and
      u: "update_profile_list
            (s\<lparr>shown := boxes,
               profiles := remaining, current_selected_profile := None,
               last_selected_profile_name := JNull\<rparr>) = Inr s1" and
      o: "on_profile_selected (combo_index s1) s1 = Inr s'"
      by (auto simp: delete_profile_def and_then_Inr Let_def)
    from r obtain j where j: "j < length (profiles s)" "remaining = others j (profiles s)"
      by (auto simp: py_remove_def others_def split: option.splits dest: first_index_Some)
    from refresh_trans [OF on_profile_selected_refresh [OF o] update_profile_list_refresh [OF u]] j
    show ?thesis by blast
  qed
qed

lemma delete_profile_unique:
  assumes "unique_names (profiles s)" and "delete_profile yes s = Inr s'"
  shows "unique_names (profiles s')"
proof -
  from assms(1) obtain names where
    an: "collect lowered_name (profiles s) = Inr names" and d: "distinct names"
    by (auto simp: unique_names_collect)
  have "unique_names (others j (profiles s))" for j
    using collect_others [OF an, of j] distinct_others [OF d, of j]
    by (simp add: unique_names_def)
  with delete_profile_cases [OF assms(2)] assms(1) show ?thesis
    by (auto dest!: refresh_unique)
qed

lemma memory_bounded_others: "memory_bounded ps \<Longrightarrow> memory_bounded (others j ps)"
  using set_others [of j ps] by (auto simp: memory_bounded_def list_all_iff)

lemma delete_profile_bounded:
  assumes "ranged (window_spinbox s)" and "memory_bounded (profiles s)"
    and "delete_profile yes s = Inr s'"
  shows "ranged (window_spinbox s') \<and> memory_bounded (profiles s')"
  using delete_profile_cases [OF assms(3)]
proof
  assume "\<exists>boxes. s' = s\<lparr>shown := boxes\<rparr>"
  with assms(1,2) show ?thesis by auto
next
  assume "\<exists>j boxes. j < length (profiles s)
           \<and> refresh (s\<lparr>shown := boxes, profiles := others j (profiles s),
                         current_selected_profile := None,
                         last_selected_profile_name := JNull\<rparr>) s'"
  then obtain j boxes where
    r: "refresh (s\<lparr>shown := boxes, profiles := others j (profiles s),
                   current_selected_profile := None,
                   last_selected_profile_name := JNull\<rparr>) s'"
    by blast
  from refresh_bounded [OF r] assms(1) memory_bounded_others [OF assms(2), of j]
  show ?thesis by simp
qed

lemma deliver_all_profiles:
  "profiles (deliver_all q s) = profiles s
   \<and> window_spinbox (deliver_all q s) = window_spinbox s"
  by (induction q s rule: deliver_all.induct) (simp_all add: on_install_finished_def)

lemma deliver_queued_profiles:
  "profiles (deliver_queued s) = profiles s
   \<and> window_spinbox (deliver_queued s) = window_spinbox s"
  by (simp add: deliver_queued_def deliver_all_profiles)

lemma worker_finishes_profiles:
  "profiles (worker_finishes t lib s) = profiles s
   \<and> window_spinbox (worker_finishes t lib s) = window_spinbox s"
  by (simp add: worker_finishes_def)

lemma closeEvent_profiles:
  "closeEvent s = Inr s' \<Longrightarrow>
     profiles s' = profiles s \<and> window_spinbox s' = window_spinbox s"
  by (auto simp: closeEvent_def and_then_Inr split: prod.splits)

lemma start_installation_profiles:
  assumes "start_installation_for_profile profile pe s = Inr s'"
  shows "(profiles s' = profiles s \<and> window_spinbox s' = window_spinbox s)
     \<or> (\<exists>s1. pe (deliver_queued s) = Inr s1 \<and> profiles s' = profiles s1
            \<and> window_spinbox s' = window_spinbox s1)"
  using assms
  by (auto simp: start_installation_for_profile_def and_then_Inr split: if_splits)

lemma steps_keep:
  assumes add: "\<And>d s s'. P s \<Longrightarrow> add_profile d s = Inr s' \<Longrightarrow> P s'"
    and edit: "\<And>d s s'. P s \<Longrightarrow> edit_profile d s = Inr s' \<Longrightarrow> P s'"
    and delete: "\<And>y s s'. P s \<Longrightarrow> delete_profile y s = Inr s' \<Longrightarrow> P s'"
    and refreshed: "\<And>s s'. P s \<Longrightarrow> refresh s s' \<Longrightarrow> P s'"
    and frame: "\<And>s s'. P s \<Longrightarrow> profiles s' = profiles s
                  \<Longrightarrow> window_spinbox s' = window_spinbox s \<Longrightarrow> P s'"
  shows "P s \<Longrightarrow> step e s = Inr s' \<Longrightarrow> P s'"
    and "P s \<Longrightarrow> steps es s = Inr s' \<Longrightarrow> P s'"
proof (induction e s and es s arbitrary: s' and s' rule: step_steps.induct)
  case (1 d s)
  from "1.prems"(2) have "add_profile d s = Inr s'" by simp
  with "1.prems"(1) show ?case by (rule add)
next
  case (2 d s)
  from "2.prems"(2) have "edit_profile d s = Inr s'" by simp
  with "2.prems"(1) show ?case by (rule edit)
next
  case (3 yes s)
  from "3.prems"(2) have "delete_profile yes s = Inr s'" by simp
  with "3.prems"(1) show ?case by (rule delete)
next
  case (4 i s)
  from "4.prems"(2) have "profile_chosen i s = Inr s'" by simp
  then have "refresh s s'" by (rule profile_chosen_refresh)
  with "4.prems"(1) show ?case by (rule refreshed)
next
  case (5 entry s)
  from "5.prems"(2) have "username_edited entry s = Inr s'" by simp
  then have "refresh s s'" by (rule username_edited_refresh)
  with "5.prems"(1) show ?case by (rule refreshed)
next
  case (6 entry s)
  from "6.prems"(2) have "memory_edited entry s = Inr s'" by simp
  then have "refresh s s'" by (rule memory_edited_refresh)
  with "6.prems"(1) show ?case by (rule refreshed)
next
  case (7 s)
  from "7.prems"(2) have c: "closeEvent s = Inr s'" by simp
  from "7.prems"(1) show ?case
    by (rule frame) (simp_all add: closeEvent_profiles [OF c])
next
  case (8 nested s)
  show ?case
  proof (cases "selected s")
    case None
    with "8.prems" show ?thesis by simp
  next
    case (Some ip)
    obtain i p where ip: "ip = (i, p)" by (cases ip)
    show ?thesis
    proof (cases "truthy p")
      case False
      with Some ip "8.prems" show ?thesis by simp
    next
      case True
      with Some ip "8.prems"(2)
      have st: "start_installation_for_profile p (\<lambda>s'. steps nested s') s = Inr s'" by simp
      from start_installation_profiles [OF st] show ?thesis
      proof
        assume same: "profiles s' = profiles s \<and> window_spinbox s' = window_spinbox s"
        from "8.prems"(1) show ?thesis by (rule frame) (simp_all add: same)
      next
        assume "\<exists>s1. steps nested (deliver_queued s) = Inr s1 \<and> profiles s' = profiles s1
                  \<and> window_spinbox s' = window_spinbox s1"
        then obtain s1 where n: "steps nested (deliver_queued s) = Inr s1"
          and eq: "profiles s' = profiles s1" "window_spinbox s' = window_spinbox s1" by blast
        from "8.prems"(1) have "P (deliver_queued s)"
          by (rule frame) (simp_all add: deliver_queued_profiles)
        from "8.IH" [OF Some ip [symmetric] True this n] have "P s1" .
        then show ?thesis by (rule frame) (simp_all add: eq)
      qed
    qed
  qed
next
  case (9 t lib s)
  from "9.prems"(2) have s': "s' = worker_finishes t lib s" by simp
  from "9.prems"(1) show ?case
    by (rule frame) (simp_all add: s' worker_finishes_profiles)
next
  case (10 s)
  from "10.prems"(2) have s': "s' = deliver_queued s" by simp
  from "10.prems"(1) show ?case
    by (rule frame) (simp_all add: s' deliver_queued_profiles)
next
  case (11 s)
  from "11.prems" show ?case by simp
next
  case (12 e es s)
  from "12.prems"(2) obtain s1 where e: "step e s = Inr s1" and es: "steps es s1 = Inr s'"
    by (auto simp: and_then_Inr)
  from "12.IH"(2) [OF "12.IH"(1) [OF "12.prems"(1) e] es] show ?case .
qed

lemma steps_unique:
  assumes "unique_names (profiles s)" and "steps es s = Inr s'"
  shows "unique_names (profiles s')"
proof (rule steps_keep(2) [where P = "\<lambda>s. unique_names (profiles s)", OF _ _ _ _ _ assms])
  show "\<And>d s s'. unique_names (profiles s) \<Longrightarrow> add_profile d s = Inr s'
          \<Longrightarrow> unique_names (profiles s')"
    by (rule add_profile_unique)
  show "\<And>d s s'. unique_names (profiles s) \<Longrightarrow> edit_profile d s = Inr s'
          \<Longrightarrow> unique_names (profiles s')"
    by (rule edit_profile_unique)
  show "\<And>y s s'. unique_names (profiles s) \<Longrightarrow> delete_profile y s = Inr s'
          \<Longrightarrow> unique_names (profiles s')"
    by (rule delete_profile_unique)
  show "\<And>s s'. unique_names (profiles s) \<Longrightarrow> refresh s s' \<Longrightarrow> unique_names (profiles s')"
    by (simp add: refresh_unique)
  show "\<And>s s'. unique_names (profiles s) \<Longrightarrow> profiles s' = profiles s
          \<Longrightarrow> window_spinbox s' = window_spinbox s \<Longrightarrow> unique_names (profiles s')"
    by simp
qed

lemma steps_bounded:
  assumes "ranged (window_spinbox s) \<and> memory_bounded (profiles s)" and "steps es s = Inr s'"
  shows "ranged (window_spinbox s') \<and> memory_bounded (profiles s')"
proof (rule steps_keep(2)
    [where P = "\<lambda>s. ranged (window_spinbox s) \<and> memory_bounded (profiles s)",
      OF _ _ _ _ _ assms])
  show "\<And>d s s'. ranged (window_spinbox s) \<and> memory_bounded (profiles s)
          \<Longrightarrow> add_profile d s = Inr s'
          \<Longrightarrow> ranged (window_spinbox s') \<and> memory_bounded (profiles s')"
    using add_profile_bounded by blast
  show "\<And>d s s'. ranged (window_spinbox s) \<and> memory_bounded (profiles s)
          \<Longrightarrow> edit_profile d s = Inr s'
          \<Longrightarrow> ranged (window_spinbox s') \<and> memory_bounded (profiles s')"
    using edit_profile_bounded by blast
  show "\<And>y s s'. ranged (window_spinbox s) \<and> memory_bounded (profiles s)
          \<Longrightarrow> delete_profile y s = Inr s'
          \<Longrightarrow> ranged (window_spinbox s') \<and> memory_bounded (profiles s')"
    using delete_profile_bounded by blast
  show "\<And>s s'. ranged (window_spinbox s) \<and> memory_bounded (profiles s) \<Longrightarrow> refresh s s'
          \<Longrightarrow> ranged (window_spinbox s') \<and> memory_bounded (profiles s')"
    using refresh_bounded by blast
  show "\<And>s s'. ranged (window_spinbox s) \<and> memory_bounded (profiles s)
          \<Longrightarrow> profiles s' = profiles s \<Longrightarrow> window_spinbox s' = window_spinbox s
          \<Longrightarrow> ranged (window_spinbox s') \<and> memory_bounded (profiles s')"
    by simp
qed

lemma add_profile_collision:
  assumes "unique_names (profiles s)" and "save_pressed d"
    and "get_profile_data None d = Some new_data"
    and "p \<in> set (profiles s)"
    and "lowered_name p = Inr (py_lower (data_name new_data))"
  shows "add_profile d s =
           Inr (s\<lparr>shown := shown s @
                  [(Warning_box, ''Error'',
                    [Lit ''A profile named '', Fmt (JStr (data_name new_data)),
                     Lit '' already exists.''])]\<rparr>)"
proof -
  obtain names where names: "collect lowered_name (profiles s) = Inr names"
    using assms(1) by (auto simp add: unique_names_collect)
  have "py_lower (data_name new_data) \<in> set names"
    using names assms(4,5) by (rule collect_member)
  moreover have "accepted None d"
    using assms(2,3) by (simp add: accepted_def)
  ultimately show ?thesis
    using assms(3) names by (intro add_profile_rejects)
qed

lemma edit_profile_collision:
  assumes "unique_names (profiles s)" and "selected s = Some (i, p)"
    and "py_get p ''name'' JNull = Inr (JStr original)" and "populate p = Inr memory"
    and "save_pressed d" and "get_profile_data (Some memory) d = Some updated_data"
    and "q \<in> set (others i (profiles s))"
    and "lowered_name q = Inr (py_lower (data_name updated_data))"
  shows "edit_profile d s =
           Inr (s\<lparr>shown := shown s @
                  [(Warning_box, ''Error'',
                    [Lit ''Another profile named '', Fmt (JStr (data_name updated_data)),
                     Lit '' already exists.''])]\<rparr>)"
proof -
  obtain names where names: "collect lowered_name (profiles s) = Inr names"
    and d: "distinct names"
    using assms(1) by (auto simp add: unique_names_collect)
  have i: "i < length (profiles s)" and p: "p = profiles s ! i"
    using assms(2) by (simp_all add: selected_Some)
  have others: "collect lowered_name (others i (profiles s)) = Inr (others i names)"
    using names by (rule collect_others)
  have member: "py_lower (data_name updated_data) \<in> set (others i names)"
    using others assms(7,8) by (rule collect_member)
  have "lowered_name p = Inr (names ! i)"
    using collect_nth [OF names i] p by simp
  then have original: "names ! i = py_lower original"
    using lowered_name_of_get [OF assms(3)] by simp
  have "names ! i \<notin> set (others i names)"
    using d i collect_length [OF names] by (intro nth_not_in_others) simp_all
  then have differs: "py_lower (data_name updated_data) \<noteq> py_lower original"
    using member original by auto
  show ?thesis
    using assms(2) get_name_truthy [OF assms(3)] assms(3,4,5,6) differs others member
    by (rule edit_profile_rejects)
qed

lemma MainWindow_refresh:
  assumes "MainWindow w = Returns s0"
  shows "\<exists>st w'. load_settings w = (Returns st, w') \<and> refresh (new_window st w') s0"
proof -
  obtain r w' where l: "load_settings w = (r, w')" by (cases "load_settings w")
  with assms obtain st where st: "r = Returns st"
    by (cases r) (simp_all add: MainWindow_def)
  with l assms have "update_profile_list (new_window st w') = Inr s0"
    by (simp add: MainWindow_def split: sum.splits)
  from update_profile_list_refresh [OF this] l st show ?thesis by blast
qed

lemma MainWindow_unique:
  assumes "load_settings w = (Returns st, w')" and "MainWindow w = Returns s0"
    and "unique_names (profiles (new_window st w'))"
  shows "unique_names (profiles s0)"
proof -
  from MainWindow_refresh [OF assms(2)] assms(1) have "refresh (new_window st w') s0" by simp
  from refresh_unique [OF this] assms(3) show ?thesis by simp
qed

lemma new_window_ranged: "ranged (window_spinbox (new_window st w))"
  by (simp add: new_window_def ranged_def setRange_def QSpinBox_def bounded_def)

lemma MainWindow_bounded:
  assumes "load_settings w = (Returns st, w')" and "MainWindow w = Returns s0"
    and "memory_bounded (profiles (new_window st w'))"
  shows "ranged (window_spinbox s0) \<and> memory_bounded (profiles s0)"
proof -
  from MainWindow_refresh [OF assms(2)] assms(1) have "refresh (new_window st w') s0" by simp
  from refresh_bounded [OF this new_window_ranged assms(3)] show ?thesis by simp
qed

lemma lowered_examples:
  "py_lower ''Alpha'' = ''alpha''" "py_lower ''alpha'' = ''alpha''"
  "py_lower ''ALPHA'' = ''alpha''" "py_lower ''Beta'' = ''beta''"
  "py_lower ''Greedy'' = ''greedy''"
  by code_simp+

lemma stripped_examples:
  "py_strip '' Beta '' = ''Beta''" "py_strip ''ALPHA'' = ''ALPHA''"
  "py_strip ''Steve'' = ''Steve''" "py_strip [] = []"
  by code_simp+

lemmas window_run_defs =
  add_profile_def edit_profile_def delete_profile_def update_profile_field_def
  username_edited_def memory_edited_def profile_chosen_def closeEvent_def save_settings_def
  update_profile_list_def on_profile_selected_def username_input_setText_def
  memory_spinbox_setValue_def currentText_def index_to_select_def item_text_def
  lowered_name_def data_name_def selected_def python_settings_def accepted_def
  get_profile_data_def memory_spinbox_def populate_def setRange_def setValue_def QSpinBox_def
  bounded_def py_remove_def others_def
  and_then_def write_json_def after_failed_write_def version_json_path_def path_join_def
  lowered_examples stripped_examples
section \<open>The profile list: names and memory\<close>

text \<open>
  C2, as amended. Uniqueness of the profile names up to lower case is kept, not
  established. \<^verbatim>\<open>load_settings\<close> and \<^verbatim>\<open>MainWindow.__init__\<close> do not look at the names:
  the window starts with the list of the settings file, so the names are unique in the
  new window when they are in the file. From a window whose names are unique,
  \<^verbatim>\<open>add_profile\<close>, \<^verbatim>\<open>edit_profile\<close>, \<^verbatim>\<open>delete_profile\<close> and every sequence of events
  that no handler leaves by an exception lead to a window whose names are unique.
  There \<^verbatim>\<open>add_profile\<close> shows a warning and changes nothing else when the lowered name
  of the new profile is the lowered name of a profile of the list, and \<^verbatim>\<open>edit_profile\<close>
  does so when the lowered new name is the lowered name of another profile.
\<close>

theorem profile_names_stay_unique:
  "(\<forall>st w' s0. load_settings w = (Returns st, w') \<and> MainWindow w = Returns s0
        \<and> unique_names (profiles (new_window st w'))
      \<longrightarrow> unique_names (profiles s0))
   \<and> (unique_names (profiles s) \<longrightarrow>
        (\<forall>d s'. add_profile d s = Inr s' \<longrightarrow> unique_names (profiles s'))
      \<and> (\<forall>d s'. edit_profile d s = Inr s' \<longrightarrow> unique_names (profiles s'))
      \<and> (\<forall>yes s'. delete_profile yes s = Inr s' \<longrightarrow> unique_names (profiles s'))
      \<and> (\<forall>es s'. steps es s = Inr s' \<longrightarrow> unique_names (profiles s'))
      \<and> (\<forall>d new_data p. save_pressed d \<and> get_profile_data None d = Some new_data
            \<and> p \<in> set (profiles s)
            \<and> lowered_name p = Inr (py_lower (data_name new_data))
          \<longrightarrow> add_profile d s =
                Inr (s\<lparr>shown := shown s @
                       [(Warning_box, ''Error'',
                         [Lit ''A profile named '', Fmt (JStr (data_name new_data)),
                          Lit '' already exists.''])]\<rparr>))
      \<and> (\<forall>d i p original memory updated_data q.
            selected s = Some (i, p) \<and> py_get p ''name'' JNull = Inr (JStr original)
            \<and> populate p = Inr memory \<and> save_pressed d
            \<and> get_profile_data (Some memory) d = Some updated_data
            \<and> q \<in> set (others i (profiles s))
            \<and> lowered_name q = Inr (py_lower (data_name updated_data))
          \<longrightarrow> edit_profile d s =
                Inr (s\<lparr>shown := shown s @
                       [(Warning_box, ''Error'',
                         [Lit ''Another profile named '',
                          Fmt (JStr (data_name updated_data)),
                          Lit '' already exists.''])]\<rparr>)))"
proof (intro conjI impI allI)
  fix st w' s0
  assume h: "load_settings w = (Returns st, w') \<and> MainWindow w = Returns s0
        \<and> unique_names (profiles (new_window st w'))"
  from h have "load_settings w = (Returns st, w')" "MainWindow w = Returns s0"
    "unique_names (profiles (new_window st w'))"
    by simp_all
  then show "unique_names (profiles s0)" by (rule MainWindow_unique)
next
  fix d s'
  assume "unique_names (profiles s)" "add_profile d s = Inr s'"
  then show "unique_names (profiles s')" by (rule add_profile_unique)
next
  fix d s'
  assume "unique_names (profiles s)" "edit_profile d s = Inr s'"
  then show "unique_names (profiles s')" by (rule edit_profile_unique)
next
  fix yes s'
  assume "unique_names (profiles s)" "delete_profile yes s = Inr s'"
  then show "unique_names (profiles s')" by (rule delete_profile_unique)
next
  fix es s'
  assume "unique_names (profiles s)" "steps es s = Inr s'"
  then show "unique_names (profiles s')" by (rule steps_unique)
next
  fix d new_data p
  assume u: "unique_names (profiles s)"
    and h: "save_pressed d \<and> get_profile_data None d = Some new_data
            \<and> p \<in> set (profiles s)
            \<and> lowered_name p = Inr (py_lower (data_name new_data))"
  from h have "save_pressed d" "get_profile_data None d = Some new_data"
    "p \<in> set (profiles s)" "lowered_name p = Inr (py_lower (data_name new_data))"
    by simp_all
  with u show "add_profile d s =
                Inr (s\<lparr>shown := shown s @
                       [(Warning_box, ''Error'',
                         [Lit ''A profile named '', Fmt (JStr (data_name new_data)),
                          Lit '' already exists.''])]\<rparr>)"
    by (rule add_profile_collision)
next
  fix d i p original memory updated_data q
  assume u: "unique_names (profiles s)"
    and h: "selected s = Some (i, p) \<and> py_get p ''name'' JNull = Inr (JStr original)
            \<and> populate p = Inr memory \<and> save_pressed d
            \<and> get_profile_data (Some memory) d = Some updated_data
            \<and> q \<in> set (others i (profiles s))
            \<and> lowered_name q = Inr (py_lower (data_name updated_data))"
  from h have "selected s = Some (i, p)" "py_get p ''name'' JNull = Inr (JStr original)"
    "populate p = Inr memory" "save_pressed d"
    "get_profile_data (Some memory) d = Some updated_data"
    "q \<in> set (others i (profiles s))"
    "lowered_name q = Inr (py_lower (data_name updated_data))"
    by simp_all
  with u show "edit_profile d s =
                Inr (s\<lparr>shown := shown s @
                       [(Warning_box, ''Error'',
                         [Lit ''Another profile named '',
                          Fmt (JStr (data_name updated_data)),
                          Lit '' already exists.''])]\<rparr>)"
    by (rule edit_profile_collision)
qed

theorem profile_names_stay_unique_witness:
  "unique_names (profiles (window_with [profile_alpha] (Some 0)))
   \<and> map_sum id profiles
        (steps [Add dialog_beta, Select 0, Delete True] (window_with [profile_alpha] (Some 0)))
       = Inr [profile_beta]
   \<and> unique_names [profile_beta]
   \<and> map_sum id profiles (add_profile dialog_beta (window_with [profile_alpha] (Some 0)))
       = Inr [profile_alpha, profile_beta]
   \<and> unique_names [profile_alpha, profile_beta]
   \<and> add_profile dialog_ALPHA (window_with [profile_alpha] (Some 0))
       = Inr ((window_with [profile_alpha] (Some 0))\<lparr>shown :=
               [(Warning_box, ''Error'',
                 [Lit ''A profile named '', Fmt (JStr ''ALPHA''),
                  Lit '' already exists.''])]\<rparr>)
   \<and> unique_names (profiles (window_with [profile_beta, profile_alpha_lower] (Some 0)))
   \<and> edit_profile dialog_ALPHA (window_with [profile_beta, profile_alpha_lower] (Some 0))
       = Inr ((window_with [profile_beta, profile_alpha_lower] (Some 0))\<lparr>shown :=
               [(Warning_box, ''Error'',
                 [Lit ''Another profile named '', Fmt (JStr ''ALPHA''),
                  Lit '' already exists.''])]\<rparr>)
   \<and> map_option profiles
        (returned (MainWindow (world_with_settings (settings_with [profile_alpha]))))
       = Some [profile_alpha]
   \<and> unique_names [profile_alpha]"
proof -
  let ?s = "window_with [profile_alpha] (Some 0)"
  let ?t = "window_with [profile_beta, profile_alpha_lower] (Some 0)"
  let ?w = "world_with_settings (settings_with [profile_alpha])"
  note main = profile_names_stay_unique [of ?w ?s]
  note kept = main [THEN conjunct2, rule_format]
  have u: "unique_names (profiles ?s)"
    by (simp add: unique_names_def window_run_defs window_example_defs)
  have ut: "unique_names (profiles ?t)"
    by (simp add: unique_names_def window_run_defs window_example_defs)
  have run: "map_sum id profiles (steps [Add dialog_beta, Select 0, Delete True] ?s)
      = Inr [profile_beta]"
    by (simp add: window_run_defs window_example_defs first_index.simps)
  then obtain s1 where s1: "steps [Add dialog_beta, Select 0, Delete True] ?s = Inr s1"
    and p1: "profiles s1 = [profile_beta]"
    by (cases "steps [Add dialog_beta, Select 0, Delete True] ?s") simp_all
  have "unique_names (profiles s1)"
    by (rule kept [OF u, THEN conjunct2, THEN conjunct2, THEN conjunct2, THEN conjunct1,
          rule_format, OF s1])
  with p1 have u1: "unique_names [profile_beta]" by simp
  have add: "map_sum id profiles (add_profile dialog_beta ?s) = Inr [profile_alpha, profile_beta]"
    by (simp add: window_run_defs window_example_defs)
  then obtain s2 where s2: "add_profile dialog_beta ?s = Inr s2"
    and p2: "profiles s2 = [profile_alpha, profile_beta]"
    by (cases "add_profile dialog_beta ?s") simp_all
  have "unique_names (profiles s2)"
    by (rule kept [OF u, THEN conjunct1, rule_format, OF s2])
  with p2 have u2: "unique_names [profile_alpha, profile_beta]" by simp
  have data: "get_profile_data None dialog_ALPHA
      = Some (JObj [(''name'', JStr ''ALPHA''), (''version_id'', JStr ''1.20.1''),
                    (''username'', JStr ''Steve''), (''memory_gb'', JInt 8)])"
    by (simp add: window_run_defs window_example_defs)
  have rejected: "add_profile dialog_ALPHA ?s
       = Inr (?s\<lparr>shown := shown ?s @
               [(Warning_box, ''Error'',
                 [Lit ''A profile named '',
                  Fmt (JStr (data_name (JObj [(''name'', JStr ''ALPHA''),
                    (''version_id'', JStr ''1.20.1''),
                    (''username'', JStr ''Steve''), (''memory_gb'', JInt 8)]))),
                  Lit '' already exists.''])]\<rparr>)"
    by (rule kept [OF u, THEN conjunct2, THEN conjunct2, THEN conjunct2, THEN conjunct2,
          THEN conjunct1, rule_format, of dialog_ALPHA _ profile_alpha])
       (simp add: data, simp add: window_run_defs window_example_defs)
  have data': "get_profile_data (Some 16) dialog_ALPHA
      = Some (JObj [(''name'', JStr ''ALPHA''), (''version_id'', JStr ''1.20.1''),
                    (''username'', JStr ''Steve''), (''memory_gb'', JInt 8)])"
    by (simp add: window_run_defs window_example_defs)
  note kept_t = profile_names_stay_unique [of ?w ?t, THEN conjunct2, rule_format, OF ut]
  have rejected': "edit_profile dialog_ALPHA ?t
       = Inr (?t\<lparr>shown := shown ?t @
               [(Warning_box, ''Error'',
                 [Lit ''Another profile named '',
                  Fmt (JStr (data_name (JObj [(''name'', JStr ''ALPHA''),
                    (''version_id'', JStr ''1.20.1''),
                    (''username'', JStr ''Steve''), (''memory_gb'', JInt 8)]))),
                  Lit '' already exists.''])]\<rparr>)"
    by (rule kept_t [THEN conjunct2, THEN conjunct2, THEN conjunct2, THEN conjunct2,
          THEN conjunct2, rule_format, of 0 profile_beta "''Beta''" 16 dialog_ALPHA _
          profile_alpha_lower])
       (simp add: data', simp add: window_run_defs window_example_defs)
  have load: "load_settings ?w
      = (Returns (settings_with [profile_alpha]),
         ?w\<lparr>nodes := (nodes ?w)(''/games/mc'' \<mapsto> Dir)\<rparr>)"
    by (simp add: settings_defs window_example_defs)
  have win: "map_option profiles (returned (MainWindow ?w)) = Some [profile_alpha]"
    by (simp add: MainWindow_def new_window_def settings_defs window_run_defs
        window_example_defs)
  then obtain s0 where s0: "MainWindow ?w = Returns s0" and p0: "profiles s0 = [profile_alpha]"
    by (cases "MainWindow ?w") (simp_all add: returned_def)
  have "unique_names (profiles (new_window (settings_with [profile_alpha])
            (?w\<lparr>nodes := (nodes ?w)(''/games/mc'' \<mapsto> Dir)\<rparr>)))"
    by (simp add: new_window_def unique_names_def window_run_defs window_example_defs)
  with load s0 have "unique_names (profiles s0)"
    by (intro main [THEN conjunct1, rule_format]) simp
  with p0 have u0: "unique_names [profile_alpha]" by simp
  from u ut run u1 add u2 rejected rejected' win u0 show ?thesis
    by (simp add: data_name_def window_with_def)
qed

text \<open>The claim as stated fails at the load: a settings file whose profiles are named
  \<^verbatim>\<open>Alpha\<close> and \<^verbatim>\<open>alpha\<close> is loaded as it is, and the new window holds both.\<close>

theorem profile_names_load_counterexample:
  "map_option profiles
     (returned (MainWindow (world_with_settings
        (settings_with [profile_alpha, profile_alpha_lower]))))
     = Some [profile_alpha, profile_alpha_lower]
   \<and> lowered_name profile_alpha = Inr ''alpha''
   \<and> lowered_name profile_alpha_lower = Inr ''alpha''
   \<and> \<not> unique_names [profile_alpha, profile_alpha_lower]"
  by (simp add: MainWindow_def new_window_def settings_defs unique_names_def window_run_defs
      window_example_defs)

text \<open>
  C7, as amended. The memory of a profile is bounded where the launcher writes it, not
  where it reads it. The data of the profile dialog hold an integer from 1 to 16
  under \<^verbatim>\<open>memory_gb\<close>, whatever is entered; the spin box of the main window starts with
  the range 1 to 16 and a value in it, and keeps both whatever value it is given, so
  that the value its slot writes lies in the range. \<^verbatim>\<open>load_settings\<close> and
  \<^verbatim>\<open>MainWindow.__init__\<close> do not look at \<^verbatim>\<open>memory_gb\<close>: every profile of the new window
  is in the range when every profile of the settings file is. From a window whose
  profiles are all in the range, every sequence of events that no handler leaves by an
  exception leads to a window whose profiles are all in the range.
\<close>

theorem memory_stays_bounded:
  "(\<forall>existing d data. get_profile_data existing d = Some data \<longrightarrow> memory_in_range data)
   \<and> (\<forall>existing entries. 1 \<le> spin_value (memory_spinbox existing entries)
          \<and> spin_value (memory_spinbox existing entries) \<le> 16)
   \<and> ranged (window_spinbox (new_window st w))
   \<and> (\<forall>v. ranged (window_spinbox s) \<longrightarrow> ranged (setValue v (window_spinbox s)))
   \<and> (\<forall>st w' s0. load_settings w = (Returns st, w') \<and> MainWindow w = Returns s0
          \<and> memory_bounded (profiles (new_window st w'))
        \<longrightarrow> ranged (window_spinbox s0) \<and> memory_bounded (profiles s0))
   \<and> (\<forall>es s'. ranged (window_spinbox s) \<and> memory_bounded (profiles s)
          \<and> steps es s = Inr s'
        \<longrightarrow> ranged (window_spinbox s') \<and> memory_bounded (profiles s'))"
proof (intro conjI impI allI)
  fix existing d data
  assume "get_profile_data existing d = Some data"
  then show "memory_in_range data" by (rule get_profile_data_name(3))
next
  fix existing entries
  show "1 \<le> spin_value (memory_spinbox existing entries)"
    using memory_spinbox_range [of existing entries] by simp
  show "spin_value (memory_spinbox existing entries) \<le> 16"
    using memory_spinbox_range [of existing entries] by simp
next
  show "ranged (window_spinbox (new_window st w))" by (rule new_window_ranged)
next
  fix v
  assume "ranged (window_spinbox s)"
  then show "ranged (setValue v (window_spinbox s))" by (rule setValue_ranged)
next
  fix st w' s0
  assume h: "load_settings w = (Returns st, w') \<and> MainWindow w = Returns s0
          \<and> memory_bounded (profiles (new_window st w'))"
  from h have l: "load_settings w = (Returns st, w')" and m: "MainWindow w = Returns s0"
    and b: "memory_bounded (profiles (new_window st w'))"
    by simp_all
  from MainWindow_bounded [OF l m b]
  show "ranged (window_spinbox s0)" and "memory_bounded (profiles s0)" by simp_all
next
  fix es s'
  assume h: "ranged (window_spinbox s) \<and> memory_bounded (profiles s) \<and> steps es s = Inr s'"
  from h have i: "ranged (window_spinbox s) \<and> memory_bounded (profiles s)"
    and r: "steps es s = Inr s'"
    by simp_all
  from steps_bounded [OF i r]
  show "ranged (window_spinbox s')" and "memory_bounded (profiles s')" by simp_all
qed

end
